(* ===== verification/Prelude.thy ===== *)
theory Prelude
  imports Main "HOL-Library.Word" "HOL-Library.Signed_Division" "HOL-Library.Monad_Syntax"
begin

unbundle bit_operations_syntax

text \<open>
  Shared vocabulary of the development: the machine-integer types of the C sources,
  bounds-checked array accesses (a C access outside its array is the value \<^const>\<open>None\<close>),
  counted \<open>for\<close> loops over such arrays, the GCC bit builtins, byte-order helpers,
  and the generic lemmas the component theories share.
\<close>

section \<open>Machine integers\<close>

type_synonym u8 = "8 word"
type_synonym u16 = "16 word"
type_synonym u32 = "32 word"
type_synonym u64 = "64 word"
type_synonym bytes = "8 word list"

section \<open>Arrays with checked accesses\<close>

definition aget :: "'a list \<Rightarrow> int \<Rightarrow> 'a option" where
  "aget a i = (if 0 \<le> i \<and> i < int (length a) then Some (a ! nat i) else None)"

definition aset :: "'a list \<Rightarrow> int \<Rightarrow> 'a \<Rightarrow> 'a list option" where
  "aset a i x = (if 0 \<le> i \<and> i < int (length a) then Some (a[nat i := x]) else None)"

primrec foldM :: "('i \<Rightarrow> 's \<Rightarrow> 's option) \<Rightarrow> 'i list \<Rightarrow> 's \<Rightarrow> 's option" where
  "foldM f [] s = Some s"
| "foldM f (i # is) s = (case f i s of None \<Rightarrow> None | Some s' \<Rightarrow> foldM f is s')"

section \<open>GCC builtins on 64-bit words\<close>

definition ctzll :: "u64 \<Rightarrow> nat" where
  "ctzll w = length (takeWhile (\<lambda>i. \<not> bit w i) [0..<64])"

definition clzll :: "u64 \<Rightarrow> nat" where
  "clzll w = length (takeWhile (\<lambda>i. \<not> bit w i) (rev [0..<64]))"

definition popcountll :: "u64 \<Rightarrow> nat" where
  "popcountll w = length (filter (bit w) [0..<64])"

section \<open>Lemmas on arrays and loops\<close>

lemma aget_in [simp]: "n < length a \<Longrightarrow> aget a (int n) = Some (a ! n)"
  by (simp add: aget_def)

lemma aset_in [simp]: "n < length a \<Longrightarrow> aset a (int n) x = Some (a[n := x])"
  by (simp add: aset_def)

lemma aget_int_in: "0 \<le> i \<Longrightarrow> i < int (length a) \<Longrightarrow> aget a i = Some (a ! nat i)"
  by (simp add: aget_def)

lemma aset_int_in: "0 \<le> i \<Longrightarrow> i < int (length a) \<Longrightarrow> aset a i x = Some (a[nat i := x])"
  by (simp add: aset_def)

lemma foldM_append [simp]:
  "foldM f (xs @ ys) s = (case foldM f xs s of None \<Rightarrow> None | Some t \<Rightarrow> foldM f ys t)"
  by (induction xs arbitrary: s) (auto split: option.splits)

lemma foldM_map: "foldM f (map g xs) s = foldM (\<lambda>i. f (g i)) xs s"
  by (induction xs arbitrary: s) (auto split: option.splits)

text \<open>An ascending in-place loop whose step \<open>i\<close> writes cell \<open>i\<close> from cells that are
  not yet overwritten computes the pointwise map of the original array.\<close>

lemma foldM_up_pointwise:
  assumes "n \<le> length a"
    and "\<And>i b. i < n \<Longrightarrow> length b = length a \<Longrightarrow> (\<forall>j\<ge>i. j < length a \<longrightarrow> b ! j = a ! j)
          \<Longrightarrow> step i b = Some (b[i := f i])"
  shows "foldM step [0..<n] a = Some (map f [0..<n] @ drop n a)"
  using assms
proof (induction n)
  case 0
  then show ?case by simp
next
  case (Suc n)
  let ?b = "map f [0..<n] @ drop n a"
  have "foldM step [0..<n] a = Some ?b"
    using Suc by simp
  moreover have "step n ?b = Some (?b[n := f n])"
    using Suc.prems by (intro Suc.prems(2)) (auto simp: nth_append)
  moreover have "?b[n := f n] = map f [0..<Suc n] @ drop (Suc n) a"
    using Suc.prems(1) by (simp add: list_update_append Cons_nth_drop_Suc [symmetric])
  ultimately show ?case by simp
qed

text \<open>The same for a descending loop over the indices \<open>[m..<length a]\<close>.\<close>

lemma foldM_down_pointwise:
  assumes "m \<le> n" "n = length a"
    and "\<And>i b. m \<le> i \<Longrightarrow> i < n \<Longrightarrow> length b = length a \<Longrightarrow> (\<forall>j\<le>i. b ! j = a ! j)
          \<Longrightarrow> step i b = Some (b[i := f i])"
  shows "foldM step (rev [m..<n]) a = Some (take m a @ map f [m..<n])"
proof -
  have "m \<le> k \<Longrightarrow> k \<le> n \<Longrightarrow> foldM step (rev [k..<n]) a = Some (take k a @ map f [k..<n])" for k
  proof (induction "n - k" arbitrary: k)
    case 0
    then show ?case using assms(2) by simp
  next
    case (Suc d)
    let ?b = "take (Suc k) a @ map f [Suc k..<n]"
    have k: "k < n" using Suc.hyps(2) by simp
    have len: "length ?b = length a" using k assms(2) by simp
    have "foldM step (rev [Suc k..<n]) a = Some ?b"
      using Suc k by simp
    moreover have "step k ?b = Some (?b[k := f k])"
      using Suc.prems k assms(2) len
      by (intro assms(3)) (auto simp: nth_append min_def simp del: length_append)
    moreover have "?b[k := f k] = take k a @ map f [k..<n]"
      using k assms(2) by (simp add: take_Suc_conv_app_nth list_update_append upt_conv_Cons)
    ultimately show ?case
      using k by (simp add: upt_conv_Cons)
  qed
  then show ?thesis using assms(1) by simp
qed

lemma foldM_fill:
  assumes "m \<le> n" "n \<le> length a"
    and "\<And>i b. m \<le> i \<Longrightarrow> i < n \<Longrightarrow> length b = length a \<Longrightarrow> step i b = Some (b[i := x])"
  shows "foldM step [m..<n] a = Some (take m a @ replicate (n - m) x @ drop n a)"
  using assms
proof (induction "n - m" arbitrary: n)
  case 0
  then show ?case by simp
next
  case (Suc d)
  then obtain k where k: "n = Suc k" "m \<le> k" by (cases n) auto
  let ?b = "take m a @ replicate (k - m) x @ drop k a"
  have "foldM step [m..<k] a = Some ?b"
    using Suc k by simp
  moreover have "step k ?b = Some (?b[k := x])"
    using Suc k by simp
  moreover have "?b[k := x] = take m a @ replicate (n - m) x @ drop n a"
    using Suc.prems(2) k
    by (intro nth_equalityI) (auto simp: nth_append nth_list_update)
  ultimately show ?case using k by simp
qed

section \<open>Lemmas on words\<close>

lemma ctzll_bit:
  assumes "w \<noteq> 0"
  shows "ctzll w < 64" "bit w (ctzll w)" "i < ctzll w \<Longrightarrow> \<not> bit w i"
proof -
  obtain k where k: "k < 64" "bit w k"
    using assms bit_imp_le_length [of w] by (force simp: bit_eq_iff)
  let ?t = "takeWhile (\<lambda>i. \<not> bit w i) [0..<64]"
  have le: "ctzll w \<le> k"
  proof (rule ccontr)
    assume "\<not> ctzll w \<le> k"
    then have "k \<in> set ?t"
      using k by (metis ctzll_def add_0 not_le nth_mem nth_upt takeWhile_nth)
    then show False using k(2) set_takeWhileD by fastforce
  qed
  then show lt: "ctzll w < 64" using k by simp
  have "\<not> \<not> bit w ([0..<64] ! length ?t)"
    by (rule nth_length_takeWhile) (use lt in \<open>simp add: ctzll_def\<close>)
  then show "bit w (ctzll w)" using lt by (simp add: ctzll_def)
  show "\<not> bit w i" if "i < ctzll w"
  proof -
    have "?t ! i = i" using that lt by (simp add: ctzll_def takeWhile_nth)
    then show ?thesis using that nth_mem [of i ?t] set_takeWhileD
      by (metis (mono_tags, lifting) ctzll_def)
  qed
qed

lemma clzll_bit:
  assumes "w \<noteq> 0"
  shows "clzll w < 64" "bit w (63 - clzll w)" "63 - clzll w < i \<Longrightarrow> i < 64 \<Longrightarrow> \<not> bit w i"
proof -
  obtain k where k: "k < 64" "bit w k"
    using assms bit_imp_le_length [of w] by (force simp: bit_eq_iff)
  let ?r = "rev [0..<64]"
  let ?t = "takeWhile (\<lambda>i. \<not> bit w i) ?r"
  have nth: "?r ! i = 63 - i" if "i < 64" for i :: nat using that by (simp add: rev_nth)
  have le: "clzll w \<le> 63 - k"
  proof (rule ccontr)
    assume "\<not> clzll w \<le> 63 - k"
    then have "?r ! (63 - k) \<in> set ?t"
      by (metis clzll_def not_le nth_mem takeWhile_nth)
    then have "k \<in> set ?t" using nth [of "63 - k"] k by simp
    then show False using k(2) set_takeWhileD by fastforce
  qed
  then show lt: "clzll w < 64" by linarith
  have "\<not> \<not> bit w (?r ! length ?t)"
    by (rule nth_length_takeWhile) (use lt in \<open>simp add: clzll_def\<close>)
  then show "bit w (63 - clzll w)" using lt nth by (simp add: clzll_def)
  show "\<not> bit w i" if "63 - clzll w < i" "i < 64"
  proof -
    have "63 - i < clzll w" using that by simp
    then have "?t ! (63 - i) = i" "63 - i < length ?t"
      using that nth [of "63 - i"] by (simp_all add: clzll_def takeWhile_nth)
    then show ?thesis using nth_mem set_takeWhileD
      by (metis (mono_tags, lifting))
  qed
qed

lemma int_sdiv_numeral [simp]: "int n sdiv numeral k = int (n div numeral k)"
  by (cases "n = 0") (simp_all add: signed_divide_int_def zdiv_int)

lemma int_smod_numeral [simp]: "int n smod numeral k = int (n mod numeral k)"
  by (cases "n = 0") (simp_all add: signed_modulo_int_def zdiv_int zmod_int minus_div_mult_eq_mod)

lemma bit_funnel_right:
  fixes v w :: u64
  assumes "0 < s" "s < 64" "k < 64"
  shows "bit (drop_bit s w OR push_bit (64 - s) v) k = (if k + s < 64 then bit w (k + s) else bit v (k + s - 64))"
  using assms by (auto simp: bit_simps add.commute dest: bit_imp_le_length)

lemma bit_funnel_left:
  fixes v w :: u64
  assumes "0 < s" "s < 64" "k < 64"
  shows "bit (push_bit s w OR drop_bit (64 - s) v) k = (if s \<le> k then bit w (k - s) else bit v (k + 64 - s))"
  using assms by (auto simp: bit_simps add.commute dest: bit_imp_le_length)

lemma and_one_bit: "w AND 2 ^ k = 0 \<longleftrightarrow> \<not> bit (w :: 'a :: len word) k"
  by (metis bit_iff_and_push_bit_not_eq_0 push_bit_of_1)

lemma word_eq_0_iff_no_bit: "w = 0 \<longleftrightarrow> (\<forall>k<64. \<not> bit (w :: u64) k)"
  using bit_imp_le_length [of w] by (auto simp: bit_eq_iff)

lemma word_div_mod:
  fixes y :: nat
  assumes "y < 64"
  shows "(64 * x + y) div 64 = x" "(64 * x + y) mod 64 = y"
  using assms by auto

lemma word_index_split:
  fixes r k :: nat
  assumes "r < 64" "k < 64"
  shows "(64 * j + k + (64 * c + r)) div 64 = j + c + (if k + r < 64 then 0 else 1)"
    "(64 * j + k + (64 * c + r)) mod 64 = (if k + r < 64 then k + r else k + r - 64)"
proof -
  have lt: "64 * j + k + (64 * c + r) = 64 * (j + c) + (k + r)" by simp
  have ge: "64 * j + k + (64 * c + r) = 64 * (j + c + 1) + (k + r - 64)" if "\<not> k + r < 64" using that by simp
  have b: "k + r - 64 < 64" using assms by simp
  show "(64 * j + k + (64 * c + r)) div 64 = j + c + (if k + r < 64 then 0 else 1)"
    using word_div_mod(1) [of "k + r" "j + c"] word_div_mod(1) [OF b, of "j + c + 1"] lt ge
    by (cases "k + r < 64") (simp_all only: if_True if_False simp_thms add_0_right)
  show "(64 * j + k + (64 * c + r)) mod 64 = (if k + r < 64 then k + r else k + r - 64)"
    using word_div_mod(2) [of "k + r" "j + c"] word_div_mod(2) [OF b, of "j + c + 1"] lt ge
    by (cases "k + r < 64") (simp_all only: if_True if_False simp_thms)
qed

lemma word_index_split_minus:
  fixes r k :: nat
  assumes "r < 64" "k < 64" "c < j"
  shows "(64 * j + k - (64 * c + r)) div 64 = (if r \<le> k then j - c else j - 1 - c)"
    "(64 * j + k - (64 * c + r)) mod 64 = (if r \<le> k then k - r else k + 64 - r)"
proof -
  have ge: "64 * j + k - (64 * c + r) = 64 * (j - c) + (k - r)" if "r \<le> k"
    using that assms by (simp add: diff_mult_distrib2)
  have lt: "64 * j + k - (64 * c + r) = 64 * (j - 1 - c) + (k + 64 - r)" if "\<not> r \<le> k"
    using that assms by (simp add: diff_mult_distrib2)
  show "(64 * j + k - (64 * c + r)) div 64 = (if r \<le> k then j - c else j - 1 - c)"
    using word_div_mod(1) ge lt assms by (cases "r \<le> k") auto
  show "(64 * j + k - (64 * c + r)) mod 64 = (if r \<le> k then k - r else k + 64 - r)"
  proof (cases "r \<le> k")
    case True
    have "(64 * (j - c) + (k - r)) mod 64 = k - r" using assms by (intro word_div_mod) simp
    then show ?thesis using ge [OF True] True by argo
  next
    case False
    have "(64 * (j - 1 - c) + (k + 64 - r)) mod 64 = k + 64 - r" using False by (intro word_div_mod) simp
    then show ?thesis using lt [OF False] False by argo
  qed
qed

lemma same_word:
  fixes m :: nat
  assumes "m div 64 = q"
  shows "m < 64 * q + c \<Longrightarrow> m mod 64 < c" "64 * q + c < m \<Longrightarrow> c < m mod 64"
proof -
  have "64 * q + m mod 64 = m" using assms mult_div_mod_eq [of 64 m] by simp
  then show "m < 64 * q + c \<Longrightarrow> m mod 64 < c" "64 * q + c < m \<Longrightarrow> c < m mod 64"
    by (metis add_less_cancel_left)+
qed

lemma int_and_63 [simp]: "int n AND 63 = int (n mod 64)"
proof -
  have "int n AND 63 = take_bit 6 (int n)" by (simp add: take_bit_eq_mask mask_eq_exp_minus_1)
  then show ?thesis by (simp add: take_bit_eq_mod zmod_int)
qed

lemma ucast_down_add:
  "LENGTH('b) \<le> LENGTH('a) \<Longrightarrow> ucast (a + b :: 'a::len word) = (ucast a + ucast b :: 'b::len word)"
  by transfer (metis min.absorb1 take_bit_add take_bit_take_bit)

lemma xor_left_cancel: "a XOR b = a XOR c \<longleftrightarrow> b = c" for a b c :: "'a::len word"
proof
  assume "a XOR b = a XOR c"
  then have "a XOR (a XOR b) = a XOR (a XOR c)" by simp
  then show "b = c" by (simp flip: xor.assoc)
qed simp

section \<open>Postconditions of fallible computations\<close>

text \<open>\<^term>\<open>pred_option Q m\<close> states \<open>Q\<close> of the result of \<open>m\<close>, if there is one; the rules follow the
  structure of a computation.\<close>

named_theorems opt_vcg

lemma opt_bind [opt_vcg]: "(\<And>x. m = Some x \<Longrightarrow> pred_option Q (f x)) \<Longrightarrow> pred_option Q (Option.bind m f)"
  by (cases m) auto

lemma opt_Some [opt_vcg]: "Q x \<Longrightarrow> pred_option Q (Some x)"
  by simp

lemma opt_None [opt_vcg]: "pred_option Q None"
  by simp

lemma opt_if [opt_vcg]:
  "(c \<Longrightarrow> pred_option Q m) \<Longrightarrow> (\<not> c \<Longrightarrow> pred_option Q n) \<Longrightarrow> pred_option Q (if c then m else n)"
  by simp

lemma opt_let [opt_vcg]: "(\<And>x. x = t \<Longrightarrow> pred_option Q (f x)) \<Longrightarrow> pred_option Q (let x = t in f x)"
  by simp

lemma opt_case_option [opt_vcg]:
  "(x = None \<Longrightarrow> pred_option Q m) \<Longrightarrow> (\<And>y. x = Some y \<Longrightarrow> pred_option Q (f y))
    \<Longrightarrow> pred_option Q (case x of None \<Rightarrow> m | Some y \<Rightarrow> f y)"
  by (cases x) auto

lemma opt_case_prod [opt_vcg]:
  "(\<And>a b. p = (a, b) \<Longrightarrow> pred_option Q (f a b)) \<Longrightarrow> pred_option Q (case p of (a, b) \<Rightarrow> f a b)"
  by (cases p) auto

lemma opt_conseq: "pred_option P m \<Longrightarrow> (\<And>x. P x \<Longrightarrow> Q x) \<Longrightarrow> pred_option Q m"
  by (cases m) simp_all

lemma opt_call: "pred_option P m \<Longrightarrow> (\<And>x. m = Some x \<Longrightarrow> P x \<Longrightarrow> pred_option Q (f x)) \<Longrightarrow> pred_option Q (m \<bind> f)"
  by (cases m) simp_all

end
