(* ===== verification/Bitmap.thy ===== *)
theory Bitmap
  imports Prelude
begin

unbundle bit_operations_syntax

text \<open>
  The bitmap of \<open>src/util/bitmap.c\<close>: an array of 64-bit words and a parallel array of
  data pointers.  Every C array access is a checked access, so an operation returns
  \<^const>\<open>None\<close> exactly when the C code would touch memory outside its arrays.  The
  contract \<open>bit_window\<close> describes the bitmap as a list of bits with a list of data
  pointers; the operations of the file are shown to implement it.
\<close>

section \<open>The data structure\<close>

record 'd bitmap =
  bit_arr :: "u64 list"
  bit_arr_len :: int
  data_arr :: "'d option list"
  bm_size :: int

text \<open>The three booleans are the outcomes of \<open>malloc\<close> and of the two \<open>calloc\<close> calls.  A
  negative multiple of 64 asks \<open>calloc\<close> for more than \<open>SIZE_MAX\<close> bytes, which fails.\<close>

definition bm_create :: "bool \<Rightarrow> bool \<Rightarrow> bool \<Rightarrow> int \<Rightarrow> 'd bitmap option" where
  "bm_create malloc_ok calloc_ok1 calloc_ok2 sz =
     (if sz mod 64 \<noteq> 0 then None
      else if \<not> malloc_ok then None
      else if \<not> calloc_ok1 \<or> sz < 0 then None
      else if \<not> calloc_ok2 then None
      else Some \<lparr>bit_arr = replicate (nat (sz div 64)) 0, bit_arr_len = sz div 64,
                 data_arr = replicate (nat sz) None, bm_size = sz\<rparr>)"

definition bm_clear :: "'d bitmap \<Rightarrow> 'd bitmap" where
  "bm_clear bm = bm\<lparr>bit_arr := replicate (length (bit_arr bm)) 0,
                    data_arr := replicate (length (data_arr bm)) None\<rparr>"

section \<open>Counting, setting and reading bits\<close>

definition bm_count :: "'d bitmap \<Rightarrow> int option" where
  "bm_count bm = foldM (\<lambda>i total. do {
       w \<leftarrow> aget (bit_arr bm) (int i);
       Some (total + int (popcountll w)) }) [0..<nat (bit_arr_len bm)] 0"

definition bm_set :: "'d bitmap \<Rightarrow> int \<Rightarrow> 'd option \<Rightarrow> (bool \<times> 'd bitmap) option" where
  "bm_set bm i d =
     (if i < 0 \<or> i \<ge> bm_size bm then Some (False, bm)
      else let idx = i sdiv 64 in
        if idx \<ge> bit_arr_len bm then Some (False, bm)
        else do {
          w \<leftarrow> aget (bit_arr bm) idx;
          ba \<leftarrow> aset (bit_arr bm) idx (w OR push_bit (nat (i smod 64)) 1);
          da \<leftarrow> aset (data_arr bm) i d;
          Some (True, bm\<lparr>bit_arr := ba, data_arr := da\<rparr>) })"

definition bm_unset :: "'d bitmap \<Rightarrow> int \<Rightarrow> 'd bitmap option" where
  "bm_unset bm i =
     (let idx = i sdiv 64 in
      if idx \<ge> bit_arr_len bm then Some bm
      else if i < 0 \<or> i \<ge> bm_size bm then Some bm
      else do {
        w \<leftarrow> aget (bit_arr bm) idx;
        ba \<leftarrow> aset (bit_arr bm) idx (w AND NOT (push_bit (nat (i smod 64)) 1));
        da \<leftarrow> aset (data_arr bm) i None;
        Some (bm\<lparr>bit_arr := ba, data_arr := da\<rparr>) })"

text \<open>\<open>bm_get bm i old\<close> takes the value \<open>old\<close> of the caller's \<open>*data\<close>, which is left as it
  is when the index is out of range.\<close>

definition bm_get :: "'d bitmap \<Rightarrow> int \<Rightarrow> 'd option \<Rightarrow> (bool \<times> 'd option) option" where
  "bm_get bm i old =
     (let idx = i sdiv 64 in
      if idx \<ge> bit_arr_len bm then Some (False, old)
      else if i < 0 \<or> i \<ge> bm_size bm then Some (False, old)
      else do {
        d \<leftarrow> aget (data_arr bm) i;
        w \<leftarrow> aget (bit_arr bm) idx;
        Some (w AND push_bit (nat (i smod 64)) 1 \<noteq> 0, d) })"

section \<open>Extrema\<close>

fun bm_min_loop :: "u64 list \<Rightarrow> int \<Rightarrow> int" where
  "bm_min_loop [] i = -1"
| "bm_min_loop (w # ws) i = (if w \<noteq> 0 then int (ctzll w) + i * 64 else bm_min_loop ws (i + 1))"

definition bm_min :: "'d bitmap \<Rightarrow> int option" where
  "bm_min bm = (if bit_arr_len bm \<le> int (length (bit_arr bm))
     then Some (bm_min_loop (take (nat (bit_arr_len bm)) (bit_arr bm)) 0) else None)"

fun bm_max_loop :: "u64 list \<Rightarrow> nat \<Rightarrow> int" where
  "bm_max_loop ws 0 = -1"
| "bm_max_loop ws (Suc i) =
     (if ws ! i \<noteq> 0 then 63 - int (clzll (ws ! i)) + int i * 64 else bm_max_loop ws i)"

definition bm_max :: "'d bitmap \<Rightarrow> int option" where
  "bm_max bm = (if bit_arr_len bm \<le> int (length (bit_arr bm))
     then Some (bm_max_loop (bit_arr bm) (nat (bit_arr_len bm))) else None)"

section \<open>Shifts\<close>

text \<open>\<open>chop_words\<close> is a \<open>uint32_t\<close>, so the bounds it enters are computed modulo \<open>2 ^ 32\<close>.\<close>

definition bm_shift_left :: "'d bitmap \<Rightarrow> nat \<Rightarrow> 'd bitmap option" where
  "bm_shift_left bm s =
     (let chop_words = s div 64; shift = s mod 64; len = bit_arr_len bm in
      if s = 0 then Some bm
      else do {
        ba \<leftarrow> (if shift = 0 then
                foldM (\<lambda>i a. do {
                    w \<leftarrow> aget a (int i - int chop_words);
                    aset a (int i) w }) (rev [chop_words..<nat len]) (bit_arr bm)
              else do {
                ba \<leftarrow> foldM (\<lambda>i a. do {
                    w \<leftarrow> aget a (int i - int chop_words);
                    v \<leftarrow> aget a (int i - 1 - int chop_words);
                    aset a (int i) (push_bit shift w OR drop_bit (64 - shift) v) })
                  (rev [chop_words + 1..<nat len]) (bit_arr bm);
                w \<leftarrow> aget ba 0;
                aset ba (int chop_words) (push_bit shift w) });
        ba \<leftarrow> foldM (\<lambda>i a. aset a (int i) 0) [0..<chop_words] ba;
        da \<leftarrow> foldM (\<lambda>i a. do {
            d \<leftarrow> aget a (int i - int s);
            aset a (int i) d }) (rev [s..<nat (bm_size bm)]) (data_arr bm);
        da \<leftarrow> foldM (\<lambda>i a. aset a (int i) None) [0..<s] da;
        Some (bm\<lparr>bit_arr := ba, data_arr := da\<rparr>) })"

definition bm_shift_right :: "'d bitmap \<Rightarrow> nat \<Rightarrow> 'd bitmap option" where
  "bm_shift_right bm s =
     (let chop_words = s div 64; shift = s mod 64; len = bit_arr_len bm;
          sz = bm_size bm in
      if s = 0 then Some bm
      else do {
        ba \<leftarrow> (if shift = 0 then
                foldM (\<lambda>i a. do {
                    w \<leftarrow> aget a (int i + int chop_words);
                    aset a (int i) w })
                  [0..<nat ((len - int chop_words) mod 2 ^ 32)] (bit_arr bm)
              else do {
                ba \<leftarrow> foldM (\<lambda>i a. do {
                    w \<leftarrow> aget a (int i + int chop_words);
                    v \<leftarrow> aget a (int i + 1 + int chop_words);
                    aset a (int i) (drop_bit shift w OR push_bit (64 - shift) v) })
                  [0..<nat ((len - 1 - int chop_words) mod 2 ^ 32)] (bit_arr bm);
                w \<leftarrow> aget ba (len - 1);
                aset ba ((len - 1 - int chop_words) mod 2 ^ 32) (drop_bit shift w) });
        ba \<leftarrow> foldM (\<lambda>i a. aset a (len - 1 - int i) 0) [0..<chop_words] ba;
        da \<leftarrow> foldM (\<lambda>i a. do {
            d \<leftarrow> aget a (int i + int s);
            aset a (int i) d }) [0..<nat (sz - int s)] (data_arr bm);
        da \<leftarrow> foldM (\<lambda>k a. aset a (sz - int s + int k) None) [0..<s] da;
        Some (bm\<lparr>bit_arr := ba, data_arr := da\<rparr>) })"

section \<open>Extraction and iteration\<close>

definition bm_extract64_pos :: "'d bitmap \<Rightarrow> int \<Rightarrow> u64 option" where
  "bm_extract64_pos bm i =
     (if i \<ge> bm_size bm then Some 0
      else let word_idx = i sdiv 64; bit_idx = nat (i smod 64) in do {
        w \<leftarrow> aget (bit_arr bm) word_idx;
        let lo = drop_bit bit_idx w;
        if bit_idx \<noteq> 0 \<and> word_idx + 1 < bit_arr_len bm then do {
          v \<leftarrow> aget (bit_arr bm) (word_idx + 1);
          Some (lo OR push_bit (64 - bit_idx) v) }
        else Some lo })"

definition bm_extract64 :: "'d bitmap \<Rightarrow> int \<Rightarrow> u64 option" where
  "bm_extract64 bm i =
     (if i \<ge> bm_size bm then Some 0
      else if i + 64 \<le> 0 then Some (NOT 0)
      else if i < 0 then
        let shift = nat (- i); fill_ones = push_bit shift 1 - 1 in do {
          w \<leftarrow> bm_extract64_pos bm 0;
          Some (push_bit shift w OR fill_ones) }
      else bm_extract64_pos bm i)"

fun bm_iter_loop :: "u64 list \<Rightarrow> int \<Rightarrow> int option" where
  "bm_iter_loop [] idx = None"
| "bm_iter_loop (w # ws) idx =
     (if w = 0 then bm_iter_loop ws (idx + 1) else Some (idx * 64 + int (ctzll w)))"

text \<open>\<open>bm_next_set_bit_iter bm i\<close> returns the result and the new value of \<open>*i\<close>.\<close>

definition bm_next_set_bit_iter :: "'d bitmap \<Rightarrow> int \<Rightarrow> (bool \<times> int) option" where
  "bm_next_set_bit_iter bm i =
     (let idx = i sdiv 64 in
      if idx \<ge> bit_arr_len bm then Some (False, i)
      else do {
        w \<leftarrow> aget (bit_arr bm) idx;
        let v = drop_bit (nat (i AND 63)) w;
        if v \<noteq> 0 then Some (True, i + int (ctzll v))
        else case bm_iter_loop (drop (nat (idx + 1)) (take (nat (bit_arr_len bm)) (bit_arr bm))) (idx + 1) of
            Some i' \<Rightarrow> Some (True, i')
          | None \<Rightarrow> Some (False, i) })"

section \<open>Well-formedness and the abstraction to lists\<close>

definition bm_wf :: "'d bitmap \<Rightarrow> bool" where
  "bm_wf bm \<longleftrightarrow> int (length (bit_arr bm)) = bit_arr_len bm \<and> bm_size bm = 64 * bit_arr_len bm
     \<and> length (data_arr bm) = nat (bm_size bm) \<and> bm_size bm < 2 ^ 31"

definition bm_bits :: "'d bitmap \<Rightarrow> bool list" where
  "bm_bits bm = map (\<lambda>n. bit (bit_arr bm ! (n div 64)) (n mod 64)) [0..<nat (bm_size bm)]"

lemma length_bm_bits [simp]: "length (bm_bits bm) = nat (bm_size bm)"
  by (simp add: bm_bits_def)

lemma bm_bits_nth: "n < nat (bm_size bm) \<Longrightarrow> bm_bits bm ! n = bit (bit_arr bm ! (n div 64)) (n mod 64)"
  by (simp add: bm_bits_def)

lemma bm_wf_index:
  assumes "bm_wf bm" "n < nat (bm_size bm)"
  shows "n div 64 < length (bit_arr bm)" "int (n div 64) < bit_arr_len bm" "n < length (data_arr bm)"
  using assms by (auto simp: bm_wf_def)

lemma bm_wf_size:
  assumes "bm_wf bm"
  shows "nat (bm_size bm) = 64 * length (bit_arr bm)" "length (data_arr bm) = 64 * length (bit_arr bm)"
    "bm_size bm = 64 * int (length (bit_arr bm))"
  using assms by (auto simp: bm_wf_def)

text \<open>Replacing both arrays of a bitmap by arrays of the same lengths keeps it well formed, and
  its bits are determined word by word.\<close>

lemma bm_bits_eqI:
  assumes "bm_wf bm" "length ba = length (bit_arr bm)" "length da = length (data_arr bm)"
    and "length bs = length (bm_bits bm)"
    and "\<And>j k. j < length ba \<Longrightarrow> k < 64 \<Longrightarrow> bit (ba ! j) k = bs ! (64 * j + k)"
  shows "bm_wf (bm\<lparr>bit_arr := ba, data_arr := da\<rparr>) \<and> bm_bits (bm\<lparr>bit_arr := ba, data_arr := da\<rparr>) = bs"
proof
  show "bm_wf (bm\<lparr>bit_arr := ba, data_arr := da\<rparr>)"
    using assms by (simp add: bm_wf_def)
  show "bm_bits (bm\<lparr>bit_arr := ba, data_arr := da\<rparr>) = bs"
  proof (rule nth_equalityI)
    show "length (bm_bits (bm\<lparr>bit_arr := ba, data_arr := da\<rparr>)) = length bs"
      using assms by simp
    fix n assume "n < length (bm_bits (bm\<lparr>bit_arr := ba, data_arr := da\<rparr>))"
    then have n: "n < nat (bm_size bm)" by simp
    have "bit (ba ! (n div 64)) (n mod 64) = bs ! (64 * (n div 64) + n mod 64)"
      using bm_wf_index(1) [OF assms(1) n] assms(2) by (intro assms(5)) auto
    then show "bm_bits (bm\<lparr>bit_arr := ba, data_arr := da\<rparr>) ! n = bs ! n"
      using n by (simp add: bm_bits_nth)
  qed
qed

lemma bm_word_bit:
  assumes "bm_wf bm" "j < length (bit_arr bm)" "k < 64"
  shows "bm_bits bm ! (64 * j + k) = bit (bit_arr bm ! j) k"
  using assms by (subst bm_bits_nth) (auto simp: bm_wf_size)

section \<open>Each operation on the list view\<close>

lemma bm_create_ok:
  assumes "0 \<le> sz" "sz mod 64 = 0" "sz < 2 ^ 31"
  shows "\<exists>bm. bm_create True True True sz = Some bm \<and> bm_wf bm \<and> bm_size bm = sz
    \<and> bm_bits bm = replicate (nat sz) False \<and> data_arr bm = replicate (nat sz) None"
  using assms
  by (auto simp: bm_create_def bm_wf_def bm_bits_def list_eq_iff_nth_eq)

lemma bm_clear_ok:
  assumes "bm_wf bm"
  shows "bm_wf (bm_clear bm)" "bm_size (bm_clear bm) = bm_size bm"
    "bm_bits (bm_clear bm) = replicate (nat (bm_size bm)) False"
    "data_arr (bm_clear bm) = replicate (nat (bm_size bm)) None"
proof -
  show "bm_size (bm_clear bm) = bm_size bm" by (simp add: bm_clear_def)
  show "data_arr (bm_clear bm) = replicate (nat (bm_size bm)) None"
    using assms by (simp add: bm_clear_def bm_wf_def)
  show "bm_wf (bm_clear bm)" using assms by (simp add: bm_clear_def bm_wf_def)
  show "bm_bits (bm_clear bm) = replicate (nat (bm_size bm)) False"
    using assms by (auto simp: bm_bits_def bm_clear_def list_eq_iff_nth_eq bm_wf_index)
qed

lemma bm_set_in:
  assumes "bm_wf bm" "n < nat (bm_size bm)"
  shows "\<exists>bm'. bm_set bm (int n) d = Some (True, bm') \<and> bm_wf bm' \<and> bm_size bm' = bm_size bm
    \<and> bm_bits bm' = (bm_bits bm)[n := True] \<and> data_arr bm' = (data_arr bm)[n := d]"
proof -
  note ix = bm_wf_index [OF assms]
  let ?ba = "(bit_arr bm)[n div 64 := bit_arr bm ! (n div 64) OR push_bit (n mod 64) 1]"
  let ?da = "(data_arr bm)[n := d]"
  have "bm_set bm (int n) d = Some (True, bm\<lparr>bit_arr := ?ba, data_arr := ?da\<rparr>)"
    using assms ix by (simp add: bm_set_def Let_def)
  moreover have "bit (?ba ! j) k = (bm_bits bm)[n := True] ! (64 * j + k)"
    if "j < length ?ba" "k < 64" for j k
  proof -
    have "n = 64 * j + k \<longleftrightarrow> n div 64 = j \<and> n mod 64 = k" using that by auto
    then show ?thesis
      using that assms bm_word_bit [OF assms(1), of j k]
      by (auto simp: nth_list_update bit_simps bm_wf_size)
  qed
  ultimately show ?thesis
    using bm_bits_eqI [OF assms(1), of ?ba ?da "(bm_bits bm)[n := True]"] by simp
qed

lemma bm_unset_in:
  assumes "bm_wf bm" "n < nat (bm_size bm)"
  shows "\<exists>bm'. bm_unset bm (int n) = Some bm' \<and> bm_wf bm' \<and> bm_size bm' = bm_size bm
    \<and> bm_bits bm' = (bm_bits bm)[n := False] \<and> data_arr bm' = (data_arr bm)[n := None]"
proof -
  note ix = bm_wf_index [OF assms]
  let ?ba = "(bit_arr bm)[n div 64 := bit_arr bm ! (n div 64) AND NOT (push_bit (n mod 64) 1)]"
  let ?da = "(data_arr bm)[n := None]"
  have "bm_unset bm (int n) = Some (bm\<lparr>bit_arr := ?ba, data_arr := ?da\<rparr>)"
    using assms ix by (simp add: bm_unset_def Let_def)
  moreover have "bit (?ba ! j) k = (bm_bits bm)[n := False] ! (64 * j + k)"
    if "j < length ?ba" "k < 64" for j k
  proof -
    have "n = 64 * j + k \<longleftrightarrow> n div 64 = j \<and> n mod 64 = k" using that by auto
    then show ?thesis
      using that assms bm_word_bit [OF assms(1), of j k]
      by (auto simp: nth_list_update bit_simps bm_wf_size)
  qed
  ultimately show ?thesis
    using bm_bits_eqI [OF assms(1), of ?ba ?da "(bm_bits bm)[n := False]"] by simp
qed

lemma bm_get_in:
  assumes "bm_wf bm" "n < nat (bm_size bm)"
  shows "bm_get bm (int n) old = Some (bm_bits bm ! n, data_arr bm ! n)"
  using assms bm_wf_index [OF assms]
  by (auto simp: bm_get_def Let_def and_one_bit bm_bits_nth)

lemma bm_out_of_range:
  assumes "i < 0 \<or> i \<ge> bm_size bm"
  shows "bm_set bm i d = Some (False, bm)" "bm_unset bm i = Some bm" "bm_get bm i old = Some (False, old)"
  using assms by (auto simp: bm_set_def bm_unset_def bm_get_def Let_def)

section \<open>Shifts on the list view\<close>

lemma shift_data_right:
  assumes "s \<le> length a"
  shows "foldM (\<lambda>i a. do { d \<leftarrow> aget a (int i + int s); aset a (int i) d }) [0..<length a - s] a
    = Some (drop s a @ drop (length a - s) a)"
proof -
  have "foldM (\<lambda>i a. do { d \<leftarrow> aget a (int i + int s); aset a (int i) d }) [0..<length a - s] a
    = Some (map (\<lambda>i. a ! (i + s)) [0..<length a - s] @ drop (length a - s) a)"
    using assms by (intro foldM_up_pointwise) (auto simp: aget_def aset_def nat_add_distrib)
  also have "map (\<lambda>i. a ! (i + s)) [0..<length a - s] = drop s a"
    using assms by (auto simp: list_eq_iff_nth_eq add.commute)
  finally show ?thesis .
qed

lemma fill_tail:
  assumes "s \<le> length a" "z = int (length a)"
  shows "foldM (\<lambda>k a. aset a (z - int s + int k) x) [0..<s] a = Some (take (length a - s) a @ replicate s x)"
proof -
  have "[length a - s..<length a] = map (\<lambda>k. k + (length a - s)) [0..<s]"
    using assms by (subst map_add_upt) simp
  moreover have "z - int s + int k = int (k + (length a - s))" for k
    using assms by simp
  moreover have "foldM (\<lambda>i a. aset a (int i) x) [length a - s..<length a] a
      = Some (take (length a - s) a @ replicate s x)"
    using assms by (subst foldM_fill [of _ _ _ _ x]) auto
  ultimately show ?thesis by (simp add: foldM_map add.commute)
qed

lemma clear_tail:
  assumes "c \<le> length a" "z = int (length a)"
  shows "foldM (\<lambda>i a. aset a (z - 1 - int i) x) [0..<c] a = Some (take (length a - c) a @ replicate c x)"
  using assms
proof (induction c)
  case 0
  then show ?case by simp
next
  case (Suc c)
  let ?b = "take (length a - c) a @ replicate c x"
  have ix: "z - 1 - int c = int (length a - Suc c)" using Suc.prems by simp
  have "aset ?b (z - 1 - int c) x = Some (?b[length a - Suc c := x])"
    unfolding ix using Suc.prems by (intro aset_in) simp
  moreover have "?b[length a - Suc c := x] = take (length a - Suc c) a @ replicate (Suc c) x"
    using Suc.prems by (intro nth_equalityI) (auto simp: nth_append nth_list_update)
  ultimately show ?case using Suc by simp
qed

lemma shift_words_right:
  fixes a :: "u64 list"
  assumes s: "s = 64 * c + r" "r < 64" "0 < s" "s \<le> 64 * length a" and len: "len = int (length a)" "len < 2 ^ 31"
  shows "\<exists>b. (if r = 0 then
                foldM (\<lambda>i a. do {
                    w \<leftarrow> aget a (int i + int c);
                    aset a (int i) w })
                  [0..<nat ((len - int c) mod 2 ^ 32)] a
              else do {
                ba \<leftarrow> foldM (\<lambda>i a. do {
                    w \<leftarrow> aget a (int i + int c);
                    v \<leftarrow> aget a (int i + 1 + int c);
                    aset a (int i) (drop_bit r w OR push_bit (64 - r) v) })
                  [0..<nat ((len - 1 - int c) mod 2 ^ 32)] a;
                w \<leftarrow> aget ba (len - 1);
                aset ba ((len - 1 - int c) mod 2 ^ 32) (drop_bit r w) }) = Some b
     \<and> length b = length a
     \<and> (\<forall>j k. j < length a - c \<longrightarrow> k < 64 \<longrightarrow> bit (b ! j) k =
          (64 * j + k + s < 64 * length a \<and> bit (a ! ((64 * j + k + s) div 64)) ((64 * j + k + s) mod 64)))"
proof (cases "r = 0")
  case True
  have c: "c \<le> length a" using s True by linarith
  have n: "nat ((len - int c) mod 2 ^ 32) = length a - c"
    using len c by (subst mod_pos_pos_trivial) auto
  show ?thesis
    unfolding n if_P [OF True]
    using True s c shift_data_right [OF c] word_index_split [of 0 _ _ c]
    by (intro exI [of _ "drop c a @ drop (length a - c) a"]) (auto simp: nth_append add.commute)
next
  case False
  have c: "c < length a" using s False by linarith
  have m: "(len - 1 - int c) mod 2 ^ 32 = int (length a - 1 - c)"
    using len c by (subst mod_pos_pos_trivial) auto
  let ?f = "\<lambda>i. drop_bit r (a ! (i + c)) OR push_bit (64 - r) (a ! (i + 1 + c))"
  let ?b = "map ?f [0..<length a - 1 - c] @ drop (length a - 1 - c) a"
  let ?b' = "?b[length a - 1 - c := drop_bit r (a ! (length a - 1))]"
  have 1: "foldM (\<lambda>i a. do {
                    w \<leftarrow> aget a (int i + int c);
                    v \<leftarrow> aget a (int i + 1 + int c);
                    aset a (int i) (drop_bit r w OR push_bit (64 - r) v) })
                  [0..<length a - 1 - c] a = Some ?b"
    using c by (intro foldM_up_pointwise) (auto simp: aget_def aset_def nat_add_distrib)
  have l: "len - 1 = int (length a - 1)" using c len by simp
  have 2: "aget ?b (len - 1) = Some (a ! (length a - 1))"
    unfolding l using c by (subst aget_in) (auto simp: nth_append)
  have 3: "aset ?b (int (length a - 1 - c)) x = Some (?b[length a - 1 - c := x])" for x
    using c by (intro aset_in) simp
  have bits: "bit (?b' ! j) k = (64 * j + k + s < 64 * length a
      \<and> bit (a ! ((64 * j + k + s) div 64)) ((64 * j + k + s) mod 64))"
    if "j < length a - c" "k < 64" for j k
  proof (cases "j = length a - 1 - c")
    case True
    then have "?b' ! j = drop_bit r (a ! (length a - 1))" using c by simp
    moreover have "64 * j + k + s < 64 * length a \<longleftrightarrow> k + r < 64" using True c s(1,2) that(2) by auto
    moreover have "j + c = length a - 1" using True c by simp
    ultimately show ?thesis using word_index_split [OF s(2) that(2), of j c] s(1)
      by (auto simp: bit_simps add.commute dest: bit_imp_le_length)
  next
    case j: False
    then have lt: "j < length a - 1 - c" using that by simp
    then have "?b' ! j = ?f j" by (simp add: nth_append)
    moreover have "64 * j + k + s < 64 * length a" using lt that s(1,2) by linarith
    ultimately show ?thesis
      using bit_funnel_right [of r k] that False s(2) word_index_split [OF s(2) that(2), of j c]
      by (simp add: s(1) add.commute)
  qed
  have len: "length ?b' = length a" using c by simp
  show ?thesis
    unfolding m if_not_P [OF False] using 1 2 3 bits len by (intro exI [of _ ?b']) simp
qed

lemma bm_shift_right_in:
  assumes wf: "bm_wf bm" and s: "s \<le> nat (bm_size bm)"
  shows "\<exists>bm'. bm_shift_right bm s = Some bm' \<and> bm_wf bm' \<and> bm_size bm' = bm_size bm
    \<and> bm_bits bm' = drop s (bm_bits bm) @ replicate s False
    \<and> data_arr bm' = drop s (data_arr bm) @ replicate s None"
proof (cases "s = 0")
  case True
  then show ?thesis using wf by (simp add: bm_shift_right_def)
next
  case False
  let ?a = "bit_arr bm" and ?d = "data_arr bm" and ?c = "s div 64"
  have len: "bit_arr_len bm = int (length ?a)" "bm_size bm = int (length ?d)" "length ?d = 64 * length ?a"
    using wf by (auto simp: bm_wf_def)
  have sl: "s \<le> 64 * length ?a" "?c \<le> length ?a" "s \<le> length ?d" using s len by auto
  have "bit_arr_len bm < 2 ^ 31" using wf by (simp add: bm_wf_def)
  then obtain b where b: "(if s mod 64 = 0 then
                foldM (\<lambda>i a. do {
                    w \<leftarrow> aget a (int i + int (s div 64));
                    aset a (int i) w })
                  [0..<nat ((bit_arr_len bm - int (s div 64)) mod 2 ^ 32)] ?a
              else do {
                ba \<leftarrow> foldM (\<lambda>i a. do {
                    w \<leftarrow> aget a (int i + int (s div 64));
                    v \<leftarrow> aget a (int i + 1 + int (s div 64));
                    aset a (int i) (drop_bit (s mod 64) w OR push_bit (64 - s mod 64) v) })
                  [0..<nat ((bit_arr_len bm - 1 - int (s div 64)) mod 2 ^ 32)] ?a;
                w \<leftarrow> aget ba (bit_arr_len bm - 1);
                aset ba ((bit_arr_len bm - 1 - int (s div 64)) mod 2 ^ 32) (drop_bit (s mod 64) w) }) = Some b"
    and lb: "length b = length ?a"
    and bits: "\<And>j k. j < length ?a - ?c \<Longrightarrow> k < 64 \<Longrightarrow> bit (b ! j) k =
          (64 * j + k + s < 64 * length ?a \<and> bit (?a ! ((64 * j + k + s) div 64)) ((64 * j + k + s) mod 64))"
    using shift_words_right [of s ?c "s mod 64" ?a "bit_arr_len bm"] False sl len by auto
  let ?b = "take (length ?a - ?c) b @ replicate ?c 0"
  let ?e = "drop s ?d @ replicate s None"
  have 1: "foldM (\<lambda>i a. aset a (bit_arr_len bm - 1 - int i) 0) [0..<?c] b = Some ?b"
    using clear_tail [of ?c b "bit_arr_len bm" 0] len lb sl by simp
  have n: "nat (bm_size bm - int s) = length ?d - s" using len by simp
  have 2: "foldM (\<lambda>k a. aset a (bm_size bm - int s + int k) None) [0..<s] (drop s ?d @ drop (length ?d - s) ?d) = Some ?e"
    using fill_tail [of s "drop s ?d @ drop (length ?d - s) ?d" "bm_size bm" None] len sl by simp
  have "bm_shift_right bm s = Some (bm\<lparr>bit_arr := ?b, data_arr := ?e\<rparr>)"
    using False b 1 2 shift_data_right [OF sl(3)] unfolding bm_shift_right_def Let_def n by simp
  moreover have "bit (?b ! j) k = (drop s (bm_bits bm) @ replicate s False) ! (64 * j + k)"
    if "j < length ?b" "k < 64" for j k
  proof (cases "j < length ?a - ?c")
    case True
    then show ?thesis
      using bits [OF True that(2)] sl len that lb
      by (auto simp: nth_append bm_bits_nth add.commute)
  next
    case F: False
    then have "\<not> 64 * j + k < nat (bm_size bm) - s" using len by (simp add: less_diff_conv)
    then show ?thesis using F that lb len sl by (auto simp: nth_append)
  qed
  ultimately show ?thesis
    using bm_bits_eqI [OF wf, of ?b ?e "drop s (bm_bits bm) @ replicate s False"] lb len sl by simp
qed

lemma shift_data_left:
  assumes "s \<le> length a"
  shows "foldM (\<lambda>i a. do { d \<leftarrow> aget a (int i - int s); aset a (int i) d }) (rev [s..<length a]) a
    = Some (take s a @ take (length a - s) a)"
proof -
  have "foldM (\<lambda>i a. do { d \<leftarrow> aget a (int i - int s); aset a (int i) d }) (rev [s..<length a]) a
    = Some (take s a @ map (\<lambda>i. a ! (i - s)) [s..<length a])"
    using assms by (intro foldM_down_pointwise) (auto simp: aget_def aset_def nat_diff_distrib)
  also have "map (\<lambda>i. a ! (i - s)) [s..<length a] = take (length a - s) a"
    using assms by (auto simp: list_eq_iff_nth_eq)
  finally show ?thesis .
qed

lemma fill_head:
  assumes "s \<le> length a"
  shows "foldM (\<lambda>i a. aset a (int i) x) [0..<s] a = Some (replicate s x @ drop s a)"
  using foldM_fill [of 0 s a "\<lambda>i a. aset a (int i) x" x] assms by simp

lemma shift_words_left:
  fixes a :: "u64 list"
  assumes s: "s = 64 * c + r" "r < 64" "0 < s" "s \<le> 64 * length a" and len: "len = int (length a)"
  shows "\<exists>b. (if r = 0 then
                foldM (\<lambda>i a. do {
                    w \<leftarrow> aget a (int i - int c);
                    aset a (int i) w }) (rev [c..<nat len]) a
              else do {
                ba \<leftarrow> foldM (\<lambda>i a. do {
                    w \<leftarrow> aget a (int i - int c);
                    v \<leftarrow> aget a (int i - 1 - int c);
                    aset a (int i) (push_bit r w OR drop_bit (64 - r) v) })
                  (rev [c + 1..<nat len]) a;
                w \<leftarrow> aget ba 0;
                aset ba (int c) (push_bit r w) }) = Some b
     \<and> length b = length a
     \<and> (\<forall>j k. c \<le> j \<longrightarrow> j < length a \<longrightarrow> k < 64 \<longrightarrow> bit (b ! j) k =
          (s \<le> 64 * j + k \<and> bit (a ! ((64 * j + k - s) div 64)) ((64 * j + k - s) mod 64)))"
proof (cases "r = 0")
  case True
  have c: "c \<le> length a" using s True by linarith
  have ix: "64 * j + k - 64 * c = 64 * (j - c) + k" if "c \<le> j" for j k using that by simp
  show ?thesis
    unfolding if_P [OF True] using True s c len shift_data_left [OF c]
    by (intro exI [of _ "take c a @ take (length a - c) a"]) (auto simp: nth_append ix)
next
  case False
  have c: "c < length a" using s False by linarith
  let ?f = "\<lambda>i. push_bit r (a ! (i - c)) OR drop_bit (64 - r) (a ! (i - 1 - c))"
  let ?b = "take (c + 1) a @ map ?f [c + 1..<length a]"
  let ?b' = "?b[c := push_bit r (a ! 0)]"
  have 1: "foldM (\<lambda>i a. do {
                    w \<leftarrow> aget a (int i - int c);
                    v \<leftarrow> aget a (int i - 1 - int c);
                    aset a (int i) (push_bit r w OR drop_bit (64 - r) v) })
                  (rev [c + 1..<length a]) a = Some ?b"
    using c by (intro foldM_down_pointwise) (auto simp: aget_def aset_def nat_diff_distrib)
  have lb: "length ?b = length a" using c by simp
  have 2: "aget ?b 0 = Some (a ! 0)"
    using c aget_in [of 0 ?b] unfolding lb by (cases a) (auto simp: nth_append)
  have 3: "aset ?b (int c) x = Some (?b[c := x])" for x
    using c lb by (intro aset_in) simp
  have bits: "bit (?b' ! j) k = (s \<le> 64 * j + k
      \<and> bit (a ! ((64 * j + k - s) div 64)) ((64 * j + k - s) mod 64))"
    if "c \<le> j" "j < length a" "k < 64" for j k
  proof (cases "j = c")
    case True
    then have "?b' ! j = push_bit r (a ! 0)" using c lb by simp
    moreover have "s \<le> 64 * j + k \<longleftrightarrow> r \<le> k" "64 * j + k - s = k - r" using True s(1) by auto
    ultimately show ?thesis using that by (auto simp: bit_simps)
  next
    case j: False
    then have lt: "c + 1 \<le> j" using that by simp
    then have "?b' ! j = ?f j" using that by (simp add: nth_append min_def)
    moreover have "s \<le> 64 * j + k" using lt s(1,2) by linarith
    ultimately show ?thesis
      using bit_funnel_left [of r k] that False s(1,2) word_index_split_minus [OF s(2) that(3), of c j] lt
      by simp
  qed
  have "nat len = length a" using len by simp
  then show ?thesis
    unfolding if_not_P [OF False] using 1 2 3 bits lb by (intro exI [of _ ?b']) simp
qed

lemma bm_shift_left_in:
  assumes wf: "bm_wf bm" and s: "s \<le> nat (bm_size bm)"
  shows "\<exists>bm'. bm_shift_left bm s = Some bm' \<and> bm_wf bm' \<and> bm_size bm' = bm_size bm
    \<and> bm_bits bm' = replicate s False @ take (nat (bm_size bm) - s) (bm_bits bm)
    \<and> data_arr bm' = replicate s None @ take (nat (bm_size bm) - s) (data_arr bm)"
proof (cases "s = 0")
  case True
  then show ?thesis using wf by (simp add: bm_shift_left_def bm_wf_def)
next
  case False
  let ?a = "bit_arr bm" and ?d = "data_arr bm" and ?c = "s div 64"
  have len: "bit_arr_len bm = int (length ?a)" "bm_size bm = int (length ?d)" "length ?d = 64 * length ?a"
    using wf by (auto simp: bm_wf_def)
  have sl: "s \<le> 64 * length ?a" "?c \<le> length ?a" "s \<le> length ?d" using s len by auto
  obtain b where b: "(if s mod 64 = 0 then
                foldM (\<lambda>i a. do {
                    w \<leftarrow> aget a (int i - int ?c);
                    aset a (int i) w }) (rev [?c..<nat (bit_arr_len bm)]) ?a
              else do {
                ba \<leftarrow> foldM (\<lambda>i a. do {
                    w \<leftarrow> aget a (int i - int ?c);
                    v \<leftarrow> aget a (int i - 1 - int ?c);
                    aset a (int i) (push_bit (s mod 64) w OR drop_bit (64 - s mod 64) v) })
                  (rev [?c + 1..<nat (bit_arr_len bm)]) ?a;
                w \<leftarrow> aget ba 0;
                aset ba (int ?c) (push_bit (s mod 64) w) }) = Some b"
    and lb: "length b = length ?a"
    and bits: "\<And>j k. ?c \<le> j \<Longrightarrow> j < length ?a \<Longrightarrow> k < 64 \<Longrightarrow> bit (b ! j) k =
          (s \<le> 64 * j + k \<and> bit (?a ! ((64 * j + k - s) div 64)) ((64 * j + k - s) mod 64))"
    using shift_words_left [of s ?c "s mod 64" ?a "bit_arr_len bm"] False sl len by auto
  let ?b = "replicate ?c 0 @ drop ?c b"
  let ?e = "replicate s None @ take (length ?d - s) ?d"
  let ?bs = "replicate s False @ take (nat (bm_size bm) - s) (bm_bits bm)"
  have 1: "foldM (\<lambda>i a. aset a (int i) 0) [0..<?c] b = Some ?b"
    using fill_head [of ?c b] lb sl by simp
  have 2: "foldM (\<lambda>i a. aset a (int i) None) [0..<s] (take s ?d @ take (length ?d - s) ?d) = Some ?e"
    using fill_head [of s "take s ?d @ take (length ?d - s) ?d"] sl by simp
  have n: "nat (bm_size bm) = length ?d" using len by simp
  have "bm_shift_left bm s = Some (bm\<lparr>bit_arr := ?b, data_arr := ?e\<rparr>)"
    using False b 1 2 shift_data_left [OF sl(3)] unfolding bm_shift_left_def Let_def n by simp
  moreover have "bit (?b ! j) k = ?bs ! (64 * j + k)"
    if "j < length ?b" "k < 64" for j k
  proof (cases "?c \<le> j")
    case True
    then show ?thesis
      using bits [OF True _ that(2)] sl len that lb
      by (auto simp: nth_append bm_bits_nth)
  next
    case F: False
    then have "64 * j + k < s" using that(2) by linarith
    then show ?thesis using F that lb len sl by (auto simp: nth_append)
  qed
  ultimately show ?thesis
    using bm_bits_eqI [OF wf, of ?b ?e ?bs] lb len sl by (simp add: nat_mult_distrib)
qed

section \<open>Extraction, extrema and iteration on the list view\<close>

lemma bm_extract64_pos_in:
  assumes wf: "bm_wf bm"
  shows "\<exists>w. bm_extract64_pos bm (int n) = Some w
    \<and> (\<forall>k<64. bit w k \<longleftrightarrow> n + k < nat (bm_size bm) \<and> bm_bits bm ! (n + k))"
proof (cases "n < nat (bm_size bm)")
  case False
  then have "bm_size bm \<le> int n" by simp
  then show ?thesis by (auto simp: bm_extract64_pos_def)
next
  case True
  obtain c r where n: "n = 64 * c + r" "r < 64" "n div 64 = c" "n mod 64 = r"
    by (metis mod_less_divisor mult_div_mod_eq zero_less_numeral)
  have len: "bit_arr_len bm = int (length (bit_arr bm))" "bm_size bm = 64 * int (length (bit_arr bm))"
    using wf by (auto simp: bm_wf_def)
  have c: "c < length (bit_arr bm)" using bm_wf_index [OF wf True] n by simp
  have int_n: "int n < bm_size bm" using True by simp
  have size: "n + k < nat (bm_size bm) \<longleftrightarrow> (if k + r < 64 then True else Suc c < length (bit_arr bm))"
    if "k < 64" for k
    using that n c len by (auto simp: nat_mult_distrib)
  have bits: "bm_bits bm ! (n + k) = (if k + r < 64 then bit (bit_arr bm ! c) (k + r)
      else bit (bit_arr bm ! Suc c) (k + r - 64))" if "k < 64" "n + k < nat (bm_size bm)" for k
    using that word_index_split [OF n(2) that(1), of 0 c] n(1) by (simp add: bm_bits_nth add.commute)
  show ?thesis
  proof (cases "r \<noteq> 0 \<and> Suc c < length (bit_arr bm)")
    case T: True
    let ?w = "drop_bit r (bit_arr bm ! c) OR push_bit (64 - r) (bit_arr bm ! Suc c)"
    have suc: "int c + 1 = int (Suc c)" by simp
    have "bm_extract64_pos bm (int n) = Some ?w"
      using int_n T c len n(3,4) by (simp add: bm_extract64_pos_def Let_def suc del: of_nat_Suc)
    moreover have "bit ?w k \<longleftrightarrow> n + k < nat (bm_size bm) \<and> bm_bits bm ! (n + k)" if "k < 64" for k
      using bit_funnel_right [of r k] that T n(2) size bits by auto
    ultimately show ?thesis by blast
  next
    case F: False
    let ?w = "drop_bit r (bit_arr bm ! c)"
    have "bm_extract64_pos bm (int n) = Some ?w"
      using int_n F c len n(3,4) by (auto simp: bm_extract64_pos_def Let_def)
    moreover have "bit ?w k \<longleftrightarrow> n + k < nat (bm_size bm) \<and> bm_bits bm ! (n + k)" if "k < 64" for k
      using that F n(2) size bits by (auto simp: bit_simps add.commute dest: bit_imp_le_length)
    ultimately show ?thesis by blast
  qed
qed

lemma bm_extract64_in:
  assumes wf: "bm_wf bm"
  shows "\<exists>w. bm_extract64 bm i = Some w
    \<and> (\<forall>k<64. bit w k \<longleftrightarrow> i + int k < 0 \<or> i + int k < bm_size bm \<and> bm_bits bm ! nat (i + int k))"
proof -
  have nonneg: "0 \<le> bm_size bm" using wf by (simp add: bm_wf_def)
  consider "i \<ge> bm_size bm" | "i < bm_size bm" "i + 64 \<le> 0"
    | "i < bm_size bm" "\<not> i + 64 \<le> 0" "i < 0" | "i < bm_size bm" "\<not> i + 64 \<le> 0" "0 \<le> i" by linarith
  then show ?thesis
  proof cases
    case 1
    then show ?thesis using nonneg by (auto simp: bm_extract64_def)
  next
    case 2
    then show ?thesis by (auto simp: bm_extract64_def)
  next
    case 3
    obtain w where w: "bm_extract64_pos bm 0 = Some w"
      "\<forall>k<64. bit w k \<longleftrightarrow> k < nat (bm_size bm) \<and> bm_bits bm ! k"
      using bm_extract64_pos_in [OF wf, of 0] by auto
    obtain s where s: "i = - int s" "0 < s" "s < 64" using 3 that [of "nat (- i)"] by auto
    let ?v = "push_bit s w OR (push_bit s 1 - 1)"
    have "bm_extract64 bm i = Some ?v"
      using 3 w s by (simp add: bm_extract64_def Let_def)
    moreover have "bit ?v k \<longleftrightarrow> i + int k < 0 \<or> i + int k < bm_size bm \<and> bm_bits bm ! nat (i + int k)"
      if "k < 64" for k
    proof -
      have m: "push_bit s 1 - 1 = (mask s :: u64)" by (simp add: mask_eq_exp_minus_1)
      have ix: "nat (i + int k) = k - s" if "s \<le> k" using that s by simp
      have "k - s < nat (bm_size bm) \<longleftrightarrow> i + int k < bm_size bm" if "s \<le> k" using that s by linarith
      moreover have "k - s < 64" using that by simp
      ultimately show ?thesis
        unfolding m using that s w(2) ix by (auto simp: bit_simps)
    qed
    ultimately show ?thesis by blast
  next
    case 4
    then obtain n where n: "i = int n" using nonneg_int_cases by blast
    show ?thesis
      using bm_extract64_pos_in [OF wf, of n] 4 n
      by (auto simp: bm_extract64_def zless_nat_eq_int_zless nat_add_distrib) 
  qed
qed

lemma bm_iter_loop_spec:
  "case bm_iter_loop ws idx of
     None \<Rightarrow> \<forall>j<length ws. ws ! j = 0
   | Some i \<Rightarrow> \<exists>j<length ws. ws ! j \<noteq> 0 \<and> (\<forall>j'<j. ws ! j' = 0) \<and> i = (idx + int j) * 64 + int (ctzll (ws ! j))"
proof (induction ws idx rule: bm_iter_loop.induct)
  case (2 w ws idx)
  show ?case
  proof (cases "w = 0")
    case True
    show ?thesis
    proof (cases "bm_iter_loop ws (idx + 1)")
      case None
      then show ?thesis using True 2 by (auto simp: less_Suc_eq_0_disj)
    next
      case (Some i)
      then obtain j where "j < length ws" "ws ! j \<noteq> 0" "\<forall>j'<j. ws ! j' = 0"
        "i = (idx + 1 + int j) * 64 + int (ctzll (ws ! j))"
        using True 2 by auto
      then show ?thesis using True Some
        by (simp, intro exI [of _ "Suc j"]) (auto simp: less_Suc_eq_0_disj algebra_simps)
    qed
  qed auto
qed simp

lemma bm_min_loop_iter: "bm_min_loop ws i = (case bm_iter_loop ws i of None \<Rightarrow> -1 | Some j \<Rightarrow> j)"
  by (induction ws i rule: bm_min_loop.induct) auto

text \<open>The first set bit of a word list at or after bit \<open>64 * idx\<close>, read through the list view.\<close>

lemma bm_iter_loop_bits:
  assumes wf: "bm_wf bm" and "idx \<le> length (bit_arr bm)"
  shows "case bm_iter_loop (drop idx (bit_arr bm)) (int idx) of
     None \<Rightarrow> \<forall>m. 64 * idx \<le> m \<longrightarrow> m < nat (bm_size bm) \<longrightarrow> \<not> bm_bits bm ! m
   | Some i \<Rightarrow> \<exists>m. i = int m \<and> 64 * idx \<le> m \<and> m < nat (bm_size bm) \<and> bm_bits bm ! m
       \<and> (\<forall>m'. 64 * idx \<le> m' \<longrightarrow> m' < m \<longrightarrow> \<not> bm_bits bm ! m')"
proof -
  let ?ws = "drop idx (bit_arr bm)"
  note len = bm_wf_size [OF wf]
  have word: "?ws ! (m div 64 - idx) = bit_arr bm ! (m div 64)" "m div 64 - idx < length ?ws"
    if "64 * idx \<le> m" "m < nat (bm_size bm)" for m
    using that assms(2) bm_wf_index(1) [OF wf that(2)] by (auto simp: less_diff_conv2)
  show ?thesis
  proof (cases "bm_iter_loop ?ws (int idx)")
    case None
    then have z: "\<forall>j<length ?ws. ?ws ! j = 0" using bm_iter_loop_spec [of ?ws "int idx"] by simp
    have "\<not> bm_bits bm ! m" if "64 * idx \<le> m" "m < nat (bm_size bm)" for m
      using z word [OF that] that(2) by (auto simp: bm_bits_nth)
    then show ?thesis using None by simp
  next
    case (Some i)
    then obtain j where j: "j < length ?ws" "?ws ! j \<noteq> 0" "\<forall>j'<j. ?ws ! j' = 0"
      "i = (int idx + int j) * 64 + int (ctzll (?ws ! j))"
      using bm_iter_loop_spec [of ?ws "int idx"] by auto
    note c = ctzll_bit [OF j(2)]
    let ?m = "64 * (idx + j) + ctzll (?ws ! j)"
    have wj: "?ws ! j = bit_arr bm ! (idx + j)" "idx + j < length (bit_arr bm)" using j(1) by auto
    have m: "i = int ?m" "64 * idx \<le> ?m" "?m < nat (bm_size bm)"
      using j(4) wj(2) c(1) len(1) by auto
    have set: "bm_bits bm ! ?m" using bm_word_bit [OF wf wj(2) c(1)] c(2) wj by simp
    have "\<not> bm_bits bm ! m'" if m': "64 * idx \<le> m'" "m' < ?m" for m'
    proof (cases "m' div 64 = idx + j")
      case True
      then have "m' mod 64 < ctzll (?ws ! j)" using m'(2) by (rule same_word(1))
      then show ?thesis using c(3) True wj m(3) m'(2) by (subst bm_bits_nth) auto
    next
      case False
      moreover have "m' div 64 < Suc (idx + j)" "idx \<le> m' div 64"
        using m' c(1) by (auto simp: div_less_iff_less_mult less_eq_div_iff_mult_less_eq)
      ultimately have "m' div 64 - idx < j" by simp
      then show ?thesis using j(3) word(1) [OF m'(1)] m(3) m'(2) by (subst bm_bits_nth) auto
    qed
    then have "\<exists>m. i = int m \<and> 64 * idx \<le> m \<and> m < nat (bm_size bm) \<and> bm_bits bm ! m
       \<and> (\<forall>m'. 64 * idx \<le> m' \<longrightarrow> m' < m \<longrightarrow> \<not> bm_bits bm ! m')"
      using m set by (intro exI [of _ ?m]) blast
    then show ?thesis using Some by simp
  qed
qed

lemma bm_min_in:
  assumes wf: "bm_wf bm"
  shows "bm_min bm = Some (-1) \<and> (\<forall>m<nat (bm_size bm). \<not> bm_bits bm ! m)
    \<or> (\<exists>m<nat (bm_size bm). bm_min bm = Some (int m) \<and> bm_bits bm ! m \<and> (\<forall>m'<m. \<not> bm_bits bm ! m'))"
proof -
  have "bit_arr_len bm = int (length (bit_arr bm))" using wf by (simp add: bm_wf_def)
  then show ?thesis
    using bm_iter_loop_bits [OF wf, of 0]
    by (auto simp: bm_min_def bm_min_loop_iter split: option.splits)
qed

lemma bm_max_loop_spec:
  "n \<le> length ws \<Longrightarrow> bm_max_loop ws n = -1 \<and> (\<forall>j<n. ws ! j = 0)
   \<or> (\<exists>j<n. ws ! j \<noteq> 0 \<and> (\<forall>j'. j < j' \<longrightarrow> j' < n \<longrightarrow> ws ! j' = 0)
        \<and> bm_max_loop ws n = int (64 * j + (63 - clzll (ws ! j))))"
proof (induction n)
  case (Suc n)
  show ?case
  proof (cases "ws ! n = 0")
    case True
    then show ?thesis using Suc by (auto simp: less_Suc_eq)
  next
    case False
    then have "bm_max_loop ws (Suc n) = int (64 * n + (63 - clzll (ws ! n)))"
      using clzll_bit(1) [OF False] by simp
    then show ?thesis using False by (intro disjI2 exI [of _ n] conjI) (auto simp del: bm_max_loop.simps)
  qed
qed simp

lemma bm_max_in:
  assumes wf: "bm_wf bm"
  shows "bm_max bm = Some (-1) \<and> (\<forall>m<nat (bm_size bm). \<not> bm_bits bm ! m)
    \<or> (\<exists>m<nat (bm_size bm). bm_max bm = Some (int m) \<and> bm_bits bm ! m
        \<and> (\<forall>m'. m < m' \<longrightarrow> m' < nat (bm_size bm) \<longrightarrow> \<not> bm_bits bm ! m'))"
proof -
  let ?a = "bit_arr bm"
  have len: "bit_arr_len bm = int (length ?a)" "nat (bm_size bm) = 64 * length ?a"
    using wf by (auto simp: bm_wf_def)
  have max: "bm_max bm = Some (bm_max_loop ?a (length ?a))" by (simp add: bm_max_def len)
  have div: "m div 64 < length ?a" if "m < nat (bm_size bm)" for m
    using bm_wf_index(1) [OF wf that] .
  from bm_max_loop_spec [OF order.refl, of ?a] show ?thesis
  proof (elim disjE exE conjE)
    fix j assume j: "j < length ?a" "?a ! j \<noteq> 0" "\<forall>j'. j < j' \<longrightarrow> j' < length ?a \<longrightarrow> ?a ! j' = 0"
      "bm_max_loop ?a (length ?a) = int (64 * j + (63 - clzll (?a ! j)))"
    note c = clzll_bit [OF j(2)]
    let ?m = "64 * j + (63 - clzll (?a ! j))"
    have "bm_bits bm ! ?m" using bm_word_bit [OF wf j(1), of "63 - clzll (?a ! j)"] c(2) by linarith
    moreover have "?m < nat (bm_size bm)" using j(1) len(2) by linarith
    moreover have "\<not> bm_bits bm ! m'" if "?m < m'" "m' < nat (bm_size bm)" for m'
    proof (cases "m' div 64 = j")
      case True
      then have "63 - clzll (?a ! j) < m' mod 64" using that(1) by (rule same_word(2))
      then show ?thesis using c(3) True that(2) by (simp add: bm_bits_nth)
    next
      case False
      then have "j < m' div 64" using that(1) by linarith
      then show ?thesis using j(3) div [OF that(2)] that(2) by (simp add: bm_bits_nth)
    qed
    ultimately show ?thesis using max j(4) by auto
  qed (use max div in \<open>auto simp: bm_bits_nth\<close>)
qed

lemma bm_next_set_bit_iter_in:
  assumes wf: "bm_wf bm" and n: "n < nat (bm_size bm)"
  shows "bm_next_set_bit_iter bm (int n) = Some (False, int n)
      \<and> (\<forall>m. n \<le> m \<longrightarrow> m < nat (bm_size bm) \<longrightarrow> \<not> bm_bits bm ! m)
    \<or> (\<exists>m. bm_next_set_bit_iter bm (int n) = Some (True, int m) \<and> n \<le> m \<and> m < nat (bm_size bm)
        \<and> bm_bits bm ! m \<and> (\<forall>m'. n \<le> m' \<longrightarrow> m' < m \<longrightarrow> \<not> bm_bits bm ! m'))"
proof -
  obtain q r where qr: "n = 64 * q + r" "r < 64" "n div 64 = q" "n mod 64 = r"
    by (metis mod_less_divisor mult_div_mod_eq zero_less_numeral)
  let ?a = "bit_arr bm"
  have len: "bit_arr_len bm = int (length ?a)" using wf by (simp add: bm_wf_def)
  have q: "q < length ?a" using bm_wf_index(1) [OF wf n] qr(3) by simp
  let ?v = "drop_bit r (?a ! q)"
  have suc: "int q + 1 = int (Suc q)" by simp
  have iter: "bm_next_set_bit_iter bm (int n) = (if ?v \<noteq> 0 then Some (True, int n + int (ctzll ?v))
     else case bm_iter_loop (drop (Suc q) ?a) (int (Suc q)) of
            Some i' \<Rightarrow> Some (True, i') | None \<Rightarrow> Some (False, int n))"
    using q len qr(3,4) by (simp add: bm_next_set_bit_iter_def Let_def suc del: of_nat_Suc)
  have bit_v: "bm_bits bm ! (64 * q + (r + k)) = bit ?v k" if "r + k < 64" for k
    using bm_word_bit [OF wf q that] by (simp add: bit_simps add.commute)
  have rest: "\<exists>k. m = 64 * q + (r + k) \<and> r + k < 64" if "n \<le> m" "m < 64 * Suc q" for m
    using that qr(1) by (intro exI [of _ "m - n"]) auto
  show ?thesis
  proof (cases "?v = 0")
    case False
    note c = ctzll_bit [OF False]
    have lt: "r + ctzll ?v < 64" using bit_imp_le_length [OF c(2) [unfolded bit_drop_bit_eq o_def]] by simp
    let ?m = "64 * q + (r + ctzll ?v)"
    have m: "int n + int (ctzll ?v) = int ?m" "n \<le> ?m" using qr(1) by simp_all
    have "?m < nat (bm_size bm)" using lt q bm_wf_size(1) [OF wf] by linarith
    moreover have "\<not> bm_bits bm ! m'" if m': "n \<le> m'" "m' < ?m" for m'
    proof -
      have "m' < 64 * Suc q" using m'(2) lt by simp
      then obtain k where k: "m' = 64 * q + (r + k)" "r + k < 64" using rest [OF m'(1)] by blast
      then have "k < ctzll ?v" using m'(2) by simp
      then show ?thesis using c(3) bit_v [OF k(2)] k(1) by simp
    qed
    moreover have "bm_next_set_bit_iter bm (int n) = Some (True, int ?m)" using iter False m(1) by simp
    ultimately show ?thesis using m(2) c(2) bit_v [OF lt] by blast
  next
    case True
    have low: "\<not> bm_bits bm ! m" if m: "n \<le> m" "m < 64 * Suc q" for m
    proof -
      obtain k where "m = 64 * q + (r + k)" "r + k < 64" using rest [OF m] by blast
      then show ?thesis using bit_v [of k] True by simp
    qed
    have "n \<le> 64 * Suc q" using qr(1,2) by simp
    then show ?thesis
      using iter True low bm_iter_loop_bits [OF wf, of "Suc q"] q
      by (cases "bm_iter_loop (drop (Suc q) ?a) (int (Suc q))") (force simp del: of_nat_Suc)+
  qed
qed

lemma bm_count_in:
  assumes wf: "bm_wf bm"
  shows "bm_count bm = Some (int (length (filter id (bm_bits bm))))"
proof -
  let ?a = "bit_arr bm"
  have len: "bit_arr_len bm = int (length ?a)" "nat (bm_size bm) = 64 * length ?a"
    using wf by (auto simp: bm_wf_def)
  have "foldM (\<lambda>i total. do { w \<leftarrow> aget ?a (int i); Some (total + int (popcountll w)) }) [0..<n] 0
      = Some (int (length (filter id (take (64 * n) (bm_bits bm)))))" if "n \<le> length ?a" for n
    using that
  proof (induction n)
    case (Suc n)
    have "take (64 * Suc n) (bm_bits bm) = take (64 * n) (bm_bits bm) @ map (bit (?a ! n)) [0..<64]"
    proof (intro nth_equalityI)
      fix i assume "i < length (take (64 * Suc n) (bm_bits bm))"
      then show "take (64 * Suc n) (bm_bits bm) ! i
          = (take (64 * n) (bm_bits bm) @ map (bit (?a ! n)) [0..<64]) ! i"
        using Suc.prems len(2) bm_word_bit [OF wf, of n "i - 64 * n"] by (auto simp: nth_append)
    qed (use Suc.prems len(2) in auto)
    moreover have "length (filter id (map (bit (?a ! n)) [0..<64])) = popcountll (?a ! n)"
      by (simp add: popcountll_def filter_map o_def)
    ultimately show ?case using Suc by (simp add: o_def)
  qed simp
  from this [OF order.refl] show ?thesis by (simp add: bm_count_def len)
qed

section \<open>The bitmap contract\<close>

text \<open>What the callers of \<open>bitmap.h\<close> rely on: a bitmap is a list of bits with a list of data
  pointers of the same length.  Inside the range every operation succeeds and acts on the two
  lists; outside it nothing changes.\<close>

locale bit_window =
  fixes inv :: "'b \<Rightarrow> bool"
    and bits :: "'b \<Rightarrow> bool list"
    and dat :: "'b \<Rightarrow> 'd option list"
    and clear :: "'b \<Rightarrow> 'b"
    and put :: "'b \<Rightarrow> int \<Rightarrow> 'd option \<Rightarrow> (bool \<times> 'b) option"
    and del :: "'b \<Rightarrow> int \<Rightarrow> 'b option"
    and lookup :: "'b \<Rightarrow> int \<Rightarrow> 'd option \<Rightarrow> (bool \<times> 'd option) option"
    and shr :: "'b \<Rightarrow> nat \<Rightarrow> 'b option"
  assumes dat_length: "inv b \<Longrightarrow> length (dat b) = length (bits b)"
    and clear_inv: "inv b \<Longrightarrow> inv (clear b)"
    and clear_bits: "inv b \<Longrightarrow> bits (clear b) = replicate (length (bits b)) False"
    and clear_dat: "inv b \<Longrightarrow> dat (clear b) = replicate (length (bits b)) None"
    and put_in: "inv b \<Longrightarrow> n < length (bits b) \<Longrightarrow>
      \<exists>b'. put b (int n) d = Some (True, b') \<and> inv b' \<and> bits b' = (bits b)[n := True] \<and> dat b' = (dat b)[n := d]"
    and put_out: "inv b \<Longrightarrow> i < 0 \<or> i \<ge> int (length (bits b)) \<Longrightarrow> put b i d = Some (False, b)"
    and del_in: "inv b \<Longrightarrow> n < length (bits b) \<Longrightarrow>
      \<exists>b'. del b (int n) = Some b' \<and> inv b' \<and> bits b' = (bits b)[n := False] \<and> dat b' = (dat b)[n := None]"
    and del_out: "inv b \<Longrightarrow> i < 0 \<or> i \<ge> int (length (bits b)) \<Longrightarrow> del b i = Some b"
    and lookup_in: "inv b \<Longrightarrow> n < length (bits b) \<Longrightarrow> lookup b (int n) old = Some (bits b ! n, dat b ! n)"
    and lookup_out: "inv b \<Longrightarrow> i < 0 \<or> i \<ge> int (length (bits b)) \<Longrightarrow> lookup b i old = Some (False, old)"
    and shr_in: "inv b \<Longrightarrow> s \<le> length (bits b) \<Longrightarrow>
      \<exists>b'. shr b s = Some b' \<and> inv b' \<and> bits b' = drop s (bits b) @ replicate s False
        \<and> dat b' = drop s (dat b) @ replicate s None"
begin

lemma in_range_cases:
  obtains "i < 0 \<or> i \<ge> int (length (bits b))" | n where "i = int n" "n < length (bits b)"
  by (metis nonneg_int_cases not_less of_nat_less_iff)

lemma lookup_total: "inv b \<Longrightarrow> \<exists>r. lookup b i old = Some r"
  by (rule in_range_cases [of i b]) (auto simp: lookup_in lookup_out)

lemma put_total: "inv b \<Longrightarrow> \<exists>r b'. put b i d = Some (r, b') \<and> inv b' \<and> length (bits b') = length (bits b)"
  by (rule in_range_cases [of i b]) (auto simp: put_out, metis put_in length_list_update)

lemma del_total: "inv b \<Longrightarrow> \<exists>b'. del b i = Some b' \<and> inv b' \<and> length (bits b') = length (bits b)"
  by (rule in_range_cases [of i b]) (auto simp: del_out, metis del_in length_list_update)

lemma lookup_put:
  assumes "inv b" "n < length (bits b)" "put b (int n) d = Some (r, b')"
  shows "lookup b' (int m) old = (if m = n then Some (True, d) else lookup b (int m) old)"
proof (cases "m < length (bits b)")
  case True
  then show ?thesis using assms put_in [of b n d] lookup_in [of b m old] lookup_in [of b' m old] dat_length [of b]
    by auto
next
  case False
  then show ?thesis using assms put_in [of b n d] lookup_out [of b "int m" old] lookup_out [of b' "int m" old]
    by auto
qed

text \<open>Advancing the window: bit \<open>m\<close> of the shifted bitmap is bit \<open>m + s\<close> of the old one, and
  positions shifted in are empty.\<close>

lemma lookup_shr:
  assumes "inv b" "s \<le> length (bits b)" "shr b s = Some b'" "m < length (bits b)"
  shows "lookup b' (int m) old =
    (if m + s < length (bits b) then lookup b (int (m + s)) old else Some (False, None))"
proof -
  have b': "inv b'" "bits b' = drop s (bits b) @ replicate s False" "dat b' = drop s (dat b) @ replicate s None"
    using shr_in [of b s] assms by auto
  show ?thesis
    using b' assms(2,4) lookup_in [OF b'(1), of m old] lookup_in [OF assms(1), of "m + s" old] dat_length [OF assms(1)]
    by (simp add: nth_append less_diff_conv add.commute [of s])
qed

lemma put_shr:
  assumes "inv b" "s \<le> n" "n < length (bits b)" "put b (int n) d = Some (r, b1)" "shr b1 s = Some b2"
  shows "\<exists>b3 b4. shr b s = Some b3 \<and> put b3 (int (n - s)) d = Some (True, b4)
    \<and> bits b4 = bits b2 \<and> dat b4 = dat b2"
proof -
  obtain b3 where b3: "shr b s = Some b3" "inv b3" "bits b3 = drop s (bits b) @ replicate s False"
    "dat b3 = drop s (dat b) @ replicate s None" using shr_in [of b s] assms by auto
  have b1: "inv b1" "bits b1 = (bits b)[n := True]" "dat b1 = (dat b)[n := d]"
    using put_in [of b n d] assms by auto
  then have b2: "bits b2 = drop s (bits b1) @ replicate s False" "dat b2 = drop s (dat b1) @ replicate s None"
    using shr_in [of b1 s] assms by auto
  obtain b4 where "put b3 (int (n - s)) d = Some (True, b4)" "bits b4 = (bits b3)[n - s := True]"
    "dat b4 = (dat b3)[n - s := d]" using put_in [of b3 "n - s" d] b3(2,3) assms(2,3) by fastforce
  moreover have "n - s < length (bits b) - s" using assms(2,3) by simp
  ultimately show ?thesis
    using b1 b2 b3 assms dat_length [of b] by (simp add: list_update_append drop_update_swap)
qed

end

interpretation bm: bit_window bm_wf bm_bits data_arr bm_clear bm_set bm_unset bm_get bm_shift_right
proof (unfold_locales, goal_cases)
  case (1 b)
  then show ?case by (simp add: bm_wf_def)
next
  case (5 b n d)
  then show ?case using bm_set_in [of b n d] by auto
next
  case (7 b n)
  then show ?case using bm_unset_in [of b n] by auto
next
  case (11 b s)
  then show ?case using bm_shift_right_in [of b s] by auto
next
  case (6 b i d)
  then show ?case using bm_out_of_range(1) [of i b d] by (simp add: bm_wf_def)
next
  case (8 b i)
  then show ?case using bm_out_of_range(2) [of i b] by (simp add: bm_wf_def)
next
  case (10 b i old)
  then show ?case using bm_out_of_range(3) [of i b old] by (simp add: bm_wf_def)
qed (simp_all add: bm_clear_ok bm_get_in)

end
