(* ===== verification/BitmapSpec.thy ===== *)
theory BitmapSpec
  imports Bitmap
begin

text \<open>
  Sequences of operations of \<open>src/util/bitmap.c\<close> against their list specification, the SACK
  window \<open>bm_extract64\<close>, and the loop \<open>for (i = 0; bm_next_set_bit_iter(bm, &i); i++)\<close> with which
  the callers visit the set bits.
\<close>

section \<open>Sequences of operations\<close>

datatype 'd bm_op = Bm_set int "'d option" | Bm_unset int | Bm_shift_left nat | Bm_shift_right nat | Bm_clear

fun bm_step :: "'d bm_op \<Rightarrow> 'd bitmap \<Rightarrow> 'd bitmap option" where
  "bm_step (Bm_set i d) bm = map_option snd (bm_set bm i d)"
| "bm_step (Bm_unset i) bm = bm_unset bm i"
| "bm_step (Bm_shift_left s) bm = bm_shift_left bm s"
| "bm_step (Bm_shift_right s) bm = bm_shift_right bm s"
| "bm_step Bm_clear bm = Some (bm_clear bm)"

text \<open>The specification: a list of slots, \<^const>\<open>None\<close> for a clear bit, \<open>Some d\<close> for a set bit with
  data \<open>d\<close>.\<close>

fun slot_step :: "'d bm_op \<Rightarrow> 'd option option list \<Rightarrow> 'd option option list" where
  "slot_step (Bm_set i d) xs = (if 0 \<le> i \<and> i < int (length xs) then xs[nat i := Some d] else xs)"
| "slot_step (Bm_unset i) xs = (if 0 \<le> i \<and> i < int (length xs) then xs[nat i := None] else xs)"
| "slot_step (Bm_shift_left s) xs = replicate s None @ take (length xs - s) xs"
| "slot_step (Bm_shift_right s) xs = drop s xs @ replicate s None"
| "slot_step Bm_clear xs = replicate (length xs) None"

fun bm_op_ok :: "nat \<Rightarrow> 'd bm_op \<Rightarrow> bool" where
  "bm_op_ok n (Bm_shift_left s) = (s \<le> n)"
| "bm_op_ok n (Bm_shift_right s) = (s \<le> n)"
| "bm_op_ok n _ = True"

definition bm_slots :: "'d bitmap \<Rightarrow> 'd option option list" where
  "bm_slots bm = map2 (\<lambda>b d. if b then Some d else None) (bm_bits bm) (data_arr bm)"

fun bm_each :: "nat \<Rightarrow> 'd bitmap \<Rightarrow> int \<Rightarrow> int list option" where
  "bm_each 0 bm i = None"
| "bm_each (Suc fuel) bm i = do {
     (found, j) \<leftarrow> bm_next_set_bit_iter bm i;
     if found then map_option ((#) j) (bm_each fuel bm (j + 1)) else Some [] }"

section \<open>Lemmas\<close>

lemma length_bm_slots [simp]: "bm_wf bm \<Longrightarrow> length (bm_slots bm) = nat (bm_size bm)"
  by (simp add: bm_slots_def bm_wf_def)

lemma map2_update: "length xs = length ys \<Longrightarrow> map2 f (xs[i := x]) (ys[i := y]) = (map2 f xs ys)[i := f x y]"
  by (simp add: zip_update map_update)

lemma map2_append_replicate:
  "length xs = length ys \<Longrightarrow> map2 f (xs @ replicate n a) (ys @ replicate n b) = map2 f xs ys @ replicate n (f a b)"
  "map2 f (replicate n a @ xs) (replicate n b @ ys) = replicate n (f a b) @ map2 f xs ys"
  by (simp_all add: zip_append map_replicate_const [symmetric] zip_replicate)

lemma bm_step_refines:
  assumes "bm_wf bm" "bm_op_ok (nat (bm_size bm)) f"
  shows "\<exists>bm'. bm_step f bm = Some bm' \<and> bm_wf bm' \<and> bm_size bm' = bm_size bm \<and> bm_slots bm' = slot_step f (bm_slots bm)"
proof -
  have l: "length (bm_bits bm) = length (data_arr bm)" using assms(1) by (simp add: bm_wf_def)
  show ?thesis
  proof (cases f)
    case (Bm_set i d)
    show ?thesis
    proof (cases "0 \<le> i \<and> i < bm_size bm")
      case True
      then show ?thesis
        using bm_set_in [OF assms(1), of "nat i" d] Bm_set l assms(1) by (auto simp: bm_slots_def map2_update)
    qed (use bm_out_of_range [of i bm] Bm_set assms(1) in auto)
  next
    case (Bm_unset i)
    show ?thesis
    proof (cases "0 \<le> i \<and> i < bm_size bm")
      case True
      then show ?thesis
        using bm_unset_in [OF assms(1), of "nat i"] Bm_unset l assms(1) by (auto simp: bm_slots_def map2_update)
    qed (use bm_out_of_range [of i bm] Bm_unset assms(1) in auto)
  next
    case (Bm_shift_left s)
    then show ?thesis
      using bm_shift_left_in [OF assms(1), of s] assms l
      by (auto simp: bm_slots_def map2_append_replicate take_zip take_map)
  next
    case (Bm_shift_right s)
    then show ?thesis
      using bm_shift_right_in [OF assms(1), of s] assms l
      by (auto simp: bm_slots_def map2_append_replicate drop_zip drop_map)
  next
    case Bm_clear
    then show ?thesis
      using bm_clear_ok [OF assms(1)] assms(1) l by (auto simp: bm_slots_def zip_replicate bm_wf_def)
  qed
qed

text \<open>C17: any sequence of the operations of the bitmap, at any indices and with shifts up to its
  size, stays inside its arrays, keeps it well formed and has the effect the same sequence has
  on a list of slots.\<close>

theorem bm_ops_refine:
  assumes "bm_wf bm" "\<forall>f \<in> set fs. bm_op_ok (nat (bm_size bm)) f"
  shows "\<exists>bm'. foldM bm_step fs bm = Some bm' \<and> bm_wf bm' \<and> bm_size bm' = bm_size bm
    \<and> bm_slots bm' = fold slot_step fs (bm_slots bm)"
  using assms
proof (induction fs arbitrary: bm)
  case (Cons f fs)
  then obtain bm1 where 1: "bm_step f bm = Some bm1" "bm_wf bm1" "bm_size bm1 = bm_size bm" "bm_slots bm1 = slot_step f (bm_slots bm)"
    using bm_step_refines [of bm f] by auto
  then show ?case using Cons.IH [OF 1(2)] Cons.prems(2) by simp
qed simp

theorem bm_ops_refine_witness:
  "\<exists>bm bm'. bm_create True True True 128 = Some bm \<and> foldM bm_step [Bm_set 5 (Some 1), Bm_set 70 (Some (2 :: nat)), Bm_shift_right 6] bm = Some bm'
     \<and> bm_wf bm' \<and> bm_size bm' = bm_size bm \<and> bm_slots bm' = fold slot_step [Bm_set 5 (Some 1), Bm_set 70 (Some 2), Bm_shift_right 6] (bm_slots bm)"
proof -
  obtain bm :: "nat bitmap" where bm: "bm_create True True True 128 = Some bm" "bm_wf bm" "bm_size bm = 128"
    using bm_create_ok [of 128] by auto
  then show ?thesis
    using bm_ops_refine [of bm "[Bm_set 5 (Some 1), Bm_set 70 (Some 2), Bm_shift_right 6]"] by auto
qed

text \<open>C18: the 64-bit window a SACK carries: bit \<open>k\<close> is set for a position below 0, and else tells
  whether bit \<open>i + k\<close> of the bitmap is set, with 0 past its end.\<close>

theorem bm_extract64_window:
  assumes "bm_wf bm"
  shows "\<exists>w. bm_extract64 bm i = Some w
    \<and> (\<forall>k<64. bit w k \<longleftrightarrow> i + int k < 0 \<or> i + int k < bm_size bm \<and> bm_slots bm ! nat (i + int k) \<noteq> None)"
proof -
  obtain w where w: "bm_extract64 bm i = Some w"
    "\<forall>k<64. bit w k \<longleftrightarrow> i + int k < 0 \<or> i + int k < bm_size bm \<and> bm_bits bm ! nat (i + int k)"
    using bm_extract64_in [OF assms] by blast
  have slot: "(bm_slots bm ! n \<noteq> None) = bm_bits bm ! n" if "n < nat (bm_size bm)" for n
    using that assms by (simp add: bm_slots_def bm_wf_def)
  have "(i + int k < 0 \<or> i + int k < bm_size bm \<and> bm_bits bm ! nat (i + int k))
      = (i + int k < 0 \<or> i + int k < bm_size bm \<and> bm_slots bm ! nat (i + int k) \<noteq> None)" for k
    using slot [of "nat (i + int k)"] by (cases "i + int k < 0"; cases "i + int k < bm_size bm") simp_all
  with w show ?thesis by auto
qed

theorem bm_extract64_window_witness:
  "\<exists>w. bm_extract64 (\<lparr>bit_arr = [6], bit_arr_len = 1, data_arr = replicate 64 (None :: nat option), bm_size = 64\<rparr>) 1 = Some w
     \<and> (\<forall>k<64. bit w k \<longleftrightarrow> 1 + int k < 0 \<or> 1 + int k < 64
          \<and> bm_slots \<lparr>bit_arr = [6], bit_arr_len = 1, data_arr = replicate 64 (None :: nat option), bm_size = 64\<rparr> ! nat (1 + int k) \<noteq> None)"
  using bm_extract64_window [of "\<lparr>bit_arr = [6], bit_arr_len = 1, data_arr = replicate 64 (None :: nat option), bm_size = 64\<rparr>" 1]
  by (simp add: bm_wf_def)

lemma bm_next_end: "bm_wf bm \<Longrightarrow> bm_next_set_bit_iter bm (bm_size bm) = Some (False, bm_size bm)"
proof -
  assume "bm_wf bm"
  then have "bm_size bm = int (64 * length (bit_arr bm))" "bit_arr_len bm = int (length (bit_arr bm))" by (auto simp: bm_wf_def)
  then show ?thesis by (simp only: bm_next_set_bit_iter_def Let_def int_sdiv_numeral) simp
qed

lemma bm_each_from:
  assumes "bm_wf bm" "n \<le> nat (bm_size bm)" "fuel > nat (bm_size bm) - n"
  shows "bm_each fuel bm (int n) = Some (map int (filter (\<lambda>n. bm_bits bm ! n) [n..<nat (bm_size bm)]))"
  using assms(2,3)
proof (induction fuel arbitrary: n)
  case (Suc fuel)
  let ?N = "nat (bm_size bm)"
  have N: "int ?N = bm_size bm" using assms(1) by (simp add: bm_wf_def)
  show ?case
  proof (cases "n < ?N")
    case False
    then have "int n = bm_size bm" using Suc.prems N by simp
    then show ?thesis using bm_next_end [OF assms(1)] False by simp
  next
    case True
    from bm_next_set_bit_iter_in [OF assms(1) True] show ?thesis
    proof (elim disjE exE conjE)
      fix m assume m: "bm_next_set_bit_iter bm (int n) = Some (True, int m)" "n \<le> m" "m < ?N" "bm_bits bm ! m"
        "\<forall>m'. n \<le> m' \<longrightarrow> m' < m \<longrightarrow> \<not> bm_bits bm ! m'"
      have "[n..<?N] = [n..<m] @ m # [Suc m..<?N]" using m(2,3) by (metis upt_conv_Cons less_imp_le_nat le_add_diff_inverse upt_add_eq_append)
      then have "filter (\<lambda>n. bm_bits bm ! n) [n..<?N] = m # filter (\<lambda>n. bm_bits bm ! n) [Suc m..<?N]"
        using m(4,5) by (simp add: filter_empty_conv)
      moreover have "bm_each fuel bm (int (Suc m)) = Some (map int (filter (\<lambda>n. bm_bits bm ! n) [Suc m..<?N]))"
        using Suc.prems m(2,3) by (intro Suc.IH) auto
      ultimately show ?thesis using m(1) by (simp add: add.commute)
    next
      assume "bm_next_set_bit_iter bm (int n) = Some (False, int n)" "\<forall>m. n \<le> m \<longrightarrow> m < ?N \<longrightarrow> \<not> bm_bits bm ! m"
      then show ?thesis by (simp add: filter_empty_conv)
    qed
  qed
qed simp

text \<open>C19: the visiting loop ends, with at most one round for each bit and one more, and visits
  exactly the set bits, each once and in ascending order.\<close>

theorem bm_each_set_bits:
  assumes "bm_wf bm" "nat (bm_size bm) < fuel"
  shows "bm_each fuel bm 0 = Some (map int (filter (\<lambda>n. bm_bits bm ! n) [0..<nat (bm_size bm)]))"
  using bm_each_from [OF assms(1), of 0 fuel] assms(2) by simp

theorem bm_each_set_bits_witness:
  "bm_each 65 \<lparr>bit_arr = [6], bit_arr_len = 1, data_arr = replicate 64 (None :: nat option), bm_size = 64\<rparr> 0
    = Some (map int (filter (\<lambda>n. bm_bits \<lparr>bit_arr = [6], bit_arr_len = 1, data_arr = replicate 64 (None :: nat option), bm_size = 64\<rparr> ! n) [0..<64]))"
  using bm_each_set_bits [of "\<lparr>bit_arr = [6], bit_arr_len = 1, data_arr = replicate 64 (None :: nat option), bm_size = 64\<rparr>" 65]
  by (simp add: bm_wf_def)
end
