(* ===== verification/Crc32c.thy ===== *)
theory Crc32c
  imports Prelude
begin

unbundle bit_operations_syntax

text \<open>
  The CRC-32C of \<open>src/util/crc32c.c\<close>: the byte-wise table algorithm, and its equivalence
  with the bit-serial division by the reflected Castagnoli polynomial that the comment of
  the table names (\<open>0x1EDC6F41\<close>, reflected \<open>0x82F63B78\<close>).
\<close>

definition crc32c_table :: "u32 list" where
  "crc32c_table = [
    0x00000000, 0xF26B8303, 0xE13B70F7, 0x1350F3F4, 0xC79A971F, 0x35F1141C,
    0x26A1E7E8, 0xD4CA64EB, 0x8AD958CF, 0x78B2DBCC, 0x6BE22838, 0x9989AB3B,
    0x4D43CFD0, 0xBF284CD3, 0xAC78BF27, 0x5E133C24, 0x105EC76F, 0xE235446C,
    0xF165B798, 0x030E349B, 0xD7C45070, 0x25AFD373, 0x36FF2087, 0xC494A384,
    0x9A879FA0, 0x68EC1CA3, 0x7BBCEF57, 0x89D76C54, 0x5D1D08BF, 0xAF768BBC,
    0xBC267848, 0x4E4DFB4B, 0x20BD8EDE, 0xD2D60DDD, 0xC186FE29, 0x33ED7D2A,
    0xE72719C1, 0x154C9AC2, 0x061C6936, 0xF477EA35, 0xAA64D611, 0x580F5512,
    0x4B5FA6E6, 0xB93425E5, 0x6DFE410E, 0x9F95C20D, 0x8CC531F9, 0x7EAEB2FA,
    0x30E349B1, 0xC288CAB2, 0xD1D83946, 0x23B3BA45, 0xF779DEAE, 0x05125DAD,
    0x1642AE59, 0xE4292D5A, 0xBA3A117E, 0x4851927D, 0x5B016189, 0xA96AE28A,
    0x7DA08661, 0x8FCB0562, 0x9C9BF696, 0x6EF07595, 0x417B1DBC, 0xB3109EBF,
    0xA0406D4B, 0x522BEE48, 0x86E18AA3, 0x748A09A0, 0x67DAFA54, 0x95B17957,
    0xCBA24573, 0x39C9C670, 0x2A993584, 0xD8F2B687, 0x0C38D26C, 0xFE53516F,
    0xED03A29B, 0x1F682198, 0x5125DAD3, 0xA34E59D0, 0xB01EAA24, 0x42752927,
    0x96BF4DCC, 0x64D4CECF, 0x77843D3B, 0x85EFBE38, 0xDBFC821C, 0x2997011F,
    0x3AC7F2EB, 0xC8AC71E8, 0x1C661503, 0xEE0D9600, 0xFD5D65F4, 0x0F36E6F7,
    0x61C69362, 0x93AD1061, 0x80FDE395, 0x72966096, 0xA65C047D, 0x5437877E,
    0x4767748A, 0xB50CF789, 0xEB1FCBAD, 0x197448AE, 0x0A24BB5A, 0xF84F3859,
    0x2C855CB2, 0xDEEEDFB1, 0xCDBE2C45, 0x3FD5AF46, 0x7198540D, 0x83F3D70E,
    0x90A324FA, 0x62C8A7F9, 0xB602C312, 0x44694011, 0x5739B3E5, 0xA55230E6,
    0xFB410CC2, 0x092A8FC1, 0x1A7A7C35, 0xE811FF36, 0x3CDB9BDD, 0xCEB018DE,
    0xDDE0EB2A, 0x2F8B6829, 0x82F63B78, 0x709DB87B, 0x63CD4B8F, 0x91A6C88C,
    0x456CAC67, 0xB7072F64, 0xA457DC90, 0x563C5F93, 0x082F63B7, 0xFA44E0B4,
    0xE9141340, 0x1B7F9043, 0xCFB5F4A8, 0x3DDE77AB, 0x2E8E845F, 0xDCE5075C,
    0x92A8FC17, 0x60C37F14, 0x73938CE0, 0x81F80FE3, 0x55326B08, 0xA759E80B,
    0xB4091BFF, 0x466298FC, 0x1871A4D8, 0xEA1A27DB, 0xF94AD42F, 0x0B21572C,
    0xDFEB33C7, 0x2D80B0C4, 0x3ED04330, 0xCCBBC033, 0xA24BB5A6, 0x502036A5,
    0x4370C551, 0xB11B4652, 0x65D122B9, 0x97BAA1BA, 0x84EA524E, 0x7681D14D,
    0x2892ED69, 0xDAF96E6A, 0xC9A99D9E, 0x3BC21E9D, 0xEF087A76, 0x1D63F975,
    0x0E330A81, 0xFC588982, 0xB21572C9, 0x407EF1CA, 0x532E023E, 0xA145813D,
    0x758FE5D6, 0x87E466D5, 0x94B49521, 0x66DF1622, 0x38CC2A06, 0xCAA7A905,
    0xD9F75AF1, 0x2B9CD9F2, 0xFF56BD19, 0x0D3D3E1A, 0x1E6DCDEE, 0xEC064EED,
    0xC38D26C4, 0x31E6A5C7, 0x22B65633, 0xD0DDD530, 0x0417B1DB, 0xF67C32D8,
    0xE52CC12C, 0x1747422F, 0x49547E0B, 0xBB3FFD08, 0xA86F0EFC, 0x5A048DFF,
    0x8ECEE914, 0x7CA56A17, 0x6FF599E3, 0x9D9E1AE0, 0xD3D3E1AB, 0x21B862A8,
    0x32E8915C, 0xC083125F, 0x144976B4, 0xE622F5B7, 0xF5720643, 0x07198540,
    0x590AB964, 0xAB613A67, 0xB831C993, 0x4A5A4A90, 0x9E902E7B, 0x6CFBAD78,
    0x7FAB5E8C, 0x8DC0DD8F, 0xE330A81A, 0x115B2B19, 0x020BD8ED, 0xF0605BEE,
    0x24AA3F05, 0xD6C1BC06, 0xC5914FF2, 0x37FACCF1, 0x69E9F0D5, 0x9B8273D6,
    0x88D28022, 0x7AB90321, 0xAE7367CA, 0x5C18E4C9, 0x4F48173D, 0xBD23943E,
    0xF36E6F75, 0x0105EC76, 0x12551F82, 0xE03E9C81, 0x34F4F86A, 0xC69F7B69,
    0xD5CF889D, 0x27A40B9E, 0x79B737BA, 0x8BDCB4B9, 0x988C474D, 0x6AE7C44E,
    0xBE2DA0A5, 0x4C4623A6, 0x5F16D052, 0xAD7D5351]"

definition crc32c_init :: u32 where
  "crc32c_init = NOT 0"

definition crc32c_step :: "u32 \<Rightarrow> u8 \<Rightarrow> u32" where
  "crc32c_step crc b = (crc32c_table ! unat ((crc XOR ucast b) AND 0xFF)) XOR drop_bit 8 crc"

text \<open>\<open>crc32c_update\<close> consumes \<open>length\<close> bytes from \<open>data\<close>; the list is that range of the buffer.\<close>

fun crc32c_update :: "u32 \<Rightarrow> bytes \<Rightarrow> u32" where
  "crc32c_update crc [] = crc"
| "crc32c_update crc (b # data) = crc32c_update (crc32c_step crc b) data"

definition htonl :: "u32 \<Rightarrow> u32" where
  "htonl w = push_bit 24 (w AND 0xFF) OR push_bit 8 (w AND 0xFF00)
           OR drop_bit 8 (w AND 0xFF0000) OR drop_bit 24 (w AND 0xFF000000)"

definition crc32c_finish :: "u32 \<Rightarrow> u32" where
  "crc32c_finish crc = htonl (NOT crc)"

definition crc32c :: "bytes \<Rightarrow> u32" where
  "crc32c data = crc32c_finish (crc32c_update crc32c_init data)"

section \<open>The bit-serial reference\<close>

definition crc_bit :: "u32 \<Rightarrow> u32" where
  "crc_bit c = (if bit c 0 then drop_bit 1 c XOR 0x82F63B78 else drop_bit 1 c)"

definition crc_byte :: "u32 \<Rightarrow> u8 \<Rightarrow> u32" where
  "crc_byte c b = (crc_bit ^^ 8) (c XOR ucast b)"

definition crc_serial :: "bytes \<Rightarrow> u32" where
  "crc_serial data = fold (\<lambda>b c. crc_byte c b) data (NOT 0)"

definition crc8 :: "u32 \<Rightarrow> u32" where
  "crc8 c = (crc_bit ^^ 8) c"

definition crc_tab :: "nat \<Rightarrow> u32 list" where
  "crc_tab k = map (\<lambda>i. crc8 (word_of_nat i)) [0..<2 ^ k]"

section \<open>Linearity of the bit step\<close>

lemma crc_bit_xor: "crc_bit (a XOR b) = crc_bit a XOR crc_bit b"
  by (simp add: crc_bit_def bit_xor_iff drop_bit_xor ac_simps)

lemma crc_bits_xor: "(crc_bit ^^ n) (a XOR b) = (crc_bit ^^ n) a XOR (crc_bit ^^ n) b"
  by (induction n arbitrary: a b) (simp_all add: funpow_Suc_right crc_bit_xor del: funpow.simps)

section \<open>The table\<close>

lemma crc8_unfold: "crc8 c = crc_bit (crc_bit (crc_bit (crc_bit (crc_bit (crc_bit (crc_bit (crc_bit c)))))))"
  by (simp add: crc8_def numeral_eq_Suc)

lemma crc_bit_odd: "crc_bit (numeral (num.Bit1 n)) = drop_bit 1 (numeral (num.Bit1 n)) XOR 0x82F63B78"
  by (simp add: crc_bit_def)

lemma crc_bit_even: "crc_bit (numeral (num.Bit0 n)) = drop_bit 1 (numeral (num.Bit0 n))"
  by (simp add: crc_bit_def)

lemma crc_bit_1: "crc_bit 1 = 0x82F63B78"
  by (simp add: crc_bit_def)

lemma crc8_basis:
  "crc8 1 = 0xF26B8303"
  "crc8 2 = 0xE13B70F7"
  "crc8 4 = 0xC79A971F"
  "crc8 8 = 0x8AD958CF"
  "crc8 16 = 0x105EC76F"
  "crc8 32 = 0x20BD8EDE"
  "crc8 64 = 0x417B1DBC"
  "crc8 128 = 0x82F63B78"
  by (simp_all add: crc8_unfold crc_bit_odd crc_bit_even crc_bit_1)

lemma crc_tab_Suc: "k < 8 \<Longrightarrow> crc_tab (Suc k) = crc_tab k @ map (\<lambda>x. crc8 (2 ^ k) XOR x) (crc_tab k)"
proof -
  assume k: "k < 8"
  have "word_of_nat (i + 2 ^ k) = (2 ^ k XOR word_of_nat i :: u32)" if "i < 2 ^ k" for i
  proof -
    have "\<not> bit i k" using that by (simp add: bit_iff_odd)
    then have "(2 ^ k :: u32) AND word_of_nat i = 0"
      by (simp add: and.commute [of "2 ^ k"] and_one_bit bit_simps)
    then show ?thesis using disjunctive_add_eq_xor [of "2 ^ k :: u32" "word_of_nat i"] by (simp add: add.commute)
  qed
  then have "map (\<lambda>i. crc8 (word_of_nat (i + 2 ^ k))) [0..<2 ^ k] = map (\<lambda>i. crc8 (2 ^ k) XOR crc8 (word_of_nat i)) [0..<2 ^ k]"
    by (simp add: crc8_def crc_bits_xor)
  moreover have "[0..<2 ^ Suc k] = [0..<2 ^ k] @ map (\<lambda>i. i + 2 ^ k) [0..<2 ^ k]"
    using upt_add_eq_append [of 0 "2 ^ k" "2 ^ k"] by (simp only: map_add_upt power_Suc mult_2 zero_le)
  ultimately show "crc_tab (Suc k) = crc_tab k @ map (\<lambda>x. crc8 (2 ^ k) XOR x) (crc_tab k)"
    by (simp add: crc_tab_def o_def)
qed

lemma crc_tab_0: "crc_tab 0 = [0]" by (simp add: crc_tab_def crc8_unfold crc_bit_def)

lemma crc_tab_8: "crc_tab 8 = crc32c_table"
proof -
  have "crc_tab 8 = crc_tab (Suc (Suc (Suc (Suc (Suc (Suc (Suc (Suc 0))))))))" by (simp add: numeral_eq_Suc)
  also have "\<dots> = crc32c_table"
    by (simp add: crc_tab_Suc crc_tab_0 crc8_basis crc32c_table_def del: Suc_numeral)
  finally show ?thesis .
qed

lemma crc_bits_even: "(\<And>i. i < n \<Longrightarrow> \<not> bit y i) \<Longrightarrow> (crc_bit ^^ n) y = drop_bit n y"
proof (induction n arbitrary: y)
  case (Suc n)
  have "crc_bit y = drop_bit 1 y" using Suc.prems [of 0] by (simp add: crc_bit_def)
  moreover have "(crc_bit ^^ n) (drop_bit 1 y) = drop_bit n (drop_bit 1 y)"
    using Suc.prems by (intro Suc.IH) (simp add: bit_simps)
  ultimately show ?case by (simp add: funpow_Suc_right del: funpow.simps)
qed simp

lemma crc8_table: "crc8 x = (crc32c_table ! unat (x AND 0xFF)) XOR drop_bit 8 x"
proof -
  have mask: "(0xFF :: u32) = mask 8" by (simp add: mask_eq_exp_minus_1)
  have x: "x = (x AND 0xFF) XOR (x AND NOT 0xFF)" by (simp add: mask bit_eq_iff bit_simps) blast
  have lt: "unat (x AND 0xFF) < 256"
    using word_and_le1 [of x "0xFF"] by (simp add: word_le_nat_alt)
  have "crc8 (x AND 0xFF) = crc_tab 8 ! unat (x AND 0xFF)" using lt by (simp add: crc_tab_def)
  moreover have "crc8 (x AND NOT 0xFF) = drop_bit 8 (x AND NOT 0xFF)"
    unfolding crc8_def by (rule crc_bits_even) (simp add: mask bit_simps)
  moreover have "drop_bit 8 (x AND NOT 0xFF) = drop_bit 8 x"
    by (auto simp: mask bit_eq_iff bit_simps dest: bit_imp_le_length)
  moreover have "crc8 x = crc8 (x AND 0xFF) XOR crc8 (x AND NOT 0xFF)"
    using x crc_bits_xor [of 8 "x AND 0xFF" "x AND NOT 0xFF"] by (metis crc8_def)
  ultimately show ?thesis by (simp add: crc_tab_8)
qed

lemma crc32c_step_byte: "crc32c_step c b = crc_byte c b"
proof -
  have "drop_bit 8 (c XOR ucast b) = drop_bit 8 c"
    by (auto simp: bit_eq_iff bit_simps dest: bit_imp_le_length)
  then show ?thesis
    using crc8_table [of "c XOR ucast b"] by (simp add: crc32c_step_def crc_byte_def crc8_def)
qed

lemma crc32c_update_fold: "crc32c_update c data = fold (\<lambda>b c. crc_byte c b) data c"
  by (induction c data rule: crc32c_update.induct) (simp_all add: crc32c_step_byte)

lemma crc32c_update_append: "crc32c_update c (xs @ ys) = crc32c_update (crc32c_update c xs) ys"
  by (simp add: crc32c_update_fold)

text \<open>C1: the table-driven CRC of the source is, on every input, the complement of the bit-serial
  division of the message by the reflected Castagnoli polynomial, in network byte order.\<close>

theorem crc32c_serial: "crc32c data = htonl (NOT (crc_serial data))"
  by (simp add: crc32c_def crc32c_finish_def crc32c_init_def crc_serial_def crc32c_update_fold)

lemma xor_cancel: "a XOR c = b XOR c \<longleftrightarrow> a = (b :: u32)"
proof
  assume "a XOR c = b XOR c"
  then have "(a XOR c) XOR c = (b XOR c) XOR c" by (rule arg_cong)
  then show "a = b" by (simp only: xor.assoc xor_self_eq xor.right_neutral)
qed simp

lemma crc_bit_inj: "crc_bit a = crc_bit b \<Longrightarrow> a = b"
proof -
  assume eq: "crc_bit a = crc_bit b"
  have top: "bit (crc_bit c) 31 = bit c 0" for c
    by (auto simp: crc_bit_def bit_simps dest: bit_imp_le_length)
  then have low: "bit a 0 = bit b 0" using eq by metis
  then have "drop_bit 1 a = drop_bit 1 b"
    using eq by (cases "bit a 0") (simp_all add: crc_bit_def xor_cancel)
  then have "bit a (Suc n) = bit b (Suc n)" for n
    by (metis bit_drop_bit_eq o_apply plus_1_eq_Suc)
  with low show "a = b" by (metis bit_eqI not0_implies_Suc)
qed

lemma crc_bits_inj: "(crc_bit ^^ n) a = (crc_bit ^^ n) b \<Longrightarrow> a = b"
  by (induction n) (auto dest: crc_bit_inj)

lemma ucast_u8_inj: "(ucast a :: u32) = ucast b \<longleftrightarrow> a = (b :: u8)"
proof
  have down: "ucast (ucast x :: u32) = x" for x :: u8 by (simp add: bit_eq_iff bit_simps)
  assume "(ucast a :: u32) = ucast b"
  then have "(ucast (ucast a :: u32) :: u8) = ucast (ucast b :: u32)" by (rule arg_cong)
  then show "a = b" by (simp only: down)
qed simp

lemma crc_byte_inj: "crc_byte c b = crc_byte c' b' \<Longrightarrow> c = c' \<longleftrightarrow> b = b'"
  using xor_cancel [of c _ c'] xor_cancel [of "ucast b" c "ucast b'"] crc_bits_inj [of 8]
  unfolding crc_byte_def by (metis ucast_u8_inj xor.commute)

lemma crc32c_update_inj: "crc32c_update c data = crc32c_update c' data \<Longrightarrow> c = c'"
  by (induction data arbitrary: c c') (auto simp: crc32c_step_byte dest: crc_byte_inj)

lemma htonl_bit:
  "bit (htonl w) n = (if n < 8 then bit w (n + 24) else if n < 16 then bit w (n + 8)
     else if n < 24 then bit w (n - 8) else n < 32 \<and> bit w (n - 24))"
proof -
  have m: "(0xFF :: u32) = mask 8" "(0xFF00 :: u32) = push_bit 8 (mask 8)"
    "(0xFF0000 :: u32) = push_bit 16 (mask 8)" "(0xFF000000 :: u32) = push_bit 24 (mask 8)"
    by (simp_all add: mask_eq_exp_minus_1)
  show ?thesis
    unfolding htonl_def m by (auto simp: bit_simps add.commute dest: bit_imp_le_length)
qed

lemma htonl_htonl [simp]: "htonl (htonl w) = w"
  by (rule bit_eqI) (auto simp: htonl_bit dest: bit_imp_le_length)

text \<open>C2: two messages that differ in at most one byte have the same checksum only if they are
  equal: the check value of a packet detects every corruption confined to one byte.\<close>

theorem crc32c_one_byte: "crc32c (xs @ a # ys) = crc32c (xs @ b # ys) \<longleftrightarrow> a = b"
proof
  assume "crc32c (xs @ a # ys) = crc32c (xs @ b # ys)"
  then have "htonl (htonl (NOT (crc32c_update crc32c_init (xs @ a # ys))))
    = htonl (htonl (NOT (crc32c_update crc32c_init (xs @ b # ys))))"
    by (simp add: crc32c_def crc32c_finish_def)
  then have "crc32c_update crc32c_init (xs @ a # ys) = crc32c_update crc32c_init (xs @ b # ys)"
    by (metis bit.double_compl htonl_htonl)
  then show "a = b"
    by (auto simp: crc32c_update_append crc32c_step_byte dest: crc32c_update_inj crc_byte_inj)
qed simp

end
