(* ===== verification/PktHdr.thy ===== *)
theory PktHdr
  imports Prelude
begin

unbundle bit_operations_syntax

text \<open>
  The wire format of \<open>src/uet_pkt_hdr.h\<close> and the header builders of
  \<open>src/util/uet_util.c\<close>: the numeric codes of the packet types, next headers, flags,
  NACK codes and control types, big-endian fields of a byte buffer with checked accesses
  (an access outside the buffer is \<^const>\<open>None\<close>), and the Ethernet, IPv4 and IPv6 headers.
\<close>

section \<open>Error numbers and sizes\<close>

abbreviation (input) EIO :: int where "EIO \<equiv> 5"
abbreviation (input) EAGAIN :: int where "EAGAIN \<equiv> 11"
abbreviation (input) ENOMEM :: int where "ENOMEM \<equiv> 12"
abbreviation (input) EFAULT :: int where "EFAULT \<equiv> 14"
abbreviation (input) EEXIST :: int where "EEXIST \<equiv> 17"
abbreviation (input) ENODEV :: int where "ENODEV \<equiv> 19"
abbreviation (input) EINVAL :: int where "EINVAL \<equiv> 22"
abbreviation (input) ENOSPC :: int where "ENOSPC \<equiv> 28"
abbreviation (input) ERANGE :: int where "ERANGE \<equiv> 34"
abbreviation (input) EPROTO :: int where "EPROTO \<equiv> 71"
abbreviation (input) ENOKEY :: int where "ENOKEY \<equiv> 126"

abbreviation (input) ETHHDR_LEN :: nat where "ETHHDR_LEN \<equiv> 14"
abbreviation (input) IPHDR_LEN :: nat where "IPHDR_LEN \<equiv> 20"
abbreviation (input) IPV6HDR_LEN :: nat where "IPV6HDR_LEN \<equiv> 40"
abbreviation (input) UDPHDR_LEN :: nat where "UDPHDR_LEN \<equiv> 8"
abbreviation (input) VLAN_TAG_LEN :: nat where "VLAN_TAG_LEN \<equiv> 4"
abbreviation (input) UET_MAX_VLAN_TAGS :: nat where "UET_MAX_VLAN_TAGS \<equiv> 2"
abbreviation (input) ENTROPY_LEN :: nat where "ENTROPY_LEN \<equiv> 4"
abbreviation (input) UET_SEC_LEN :: nat where "UET_SEC_LEN \<equiv> 12"
abbreviation (input) UET_SEC_SSI_LEN :: nat where "UET_SEC_SSI_LEN \<equiv> 16"
abbreviation (input) UET_SEC_MAX_HDR_LEN :: nat where "UET_SEC_MAX_HDR_LEN \<equiv> 16"
abbreviation (input) UET_SEC_TAG_LEN :: nat where "UET_SEC_TAG_LEN \<equiv> 16"
abbreviation (input) CRC_LEN :: nat where "CRC_LEN \<equiv> 4"
abbreviation (input) PDS_PRLG_LEN :: nat where "PDS_PRLG_LEN \<equiv> 2"
abbreviation (input) PDS_REQ_LEN :: nat where "PDS_REQ_LEN \<equiv> 12"
abbreviation (input) PDS_ACK_LEN :: nat where "PDS_ACK_LEN \<equiv> 12"
abbreviation (input) PDS_ACK_EPSN_LEN :: nat where "PDS_ACK_EPSN_LEN \<equiv> 16"
abbreviation (input) PDS_ACK_CC_LEN :: nat where "PDS_ACK_CC_LEN \<equiv> 32"
abbreviation (input) PDS_ACK_CCX_LEN :: nat where "PDS_ACK_CCX_LEN \<equiv> 40"
abbreviation (input) PDS_NACK_LEN :: nat where "PDS_NACK_LEN \<equiv> 16"
abbreviation (input) PDS_CTRL_LEN :: nat where "PDS_CTRL_LEN \<equiv> 16"
abbreviation (input) PDS_RUDI_LEN :: nat where "PDS_RUDI_LEN \<equiv> 8"
abbreviation (input) PDS_UUD_LEN :: nat where "PDS_UUD_LEN \<equiv> 4"
abbreviation (input) PDS_DEF_RSP_LEN :: nat where "PDS_DEF_RSP_LEN \<equiv> 12"
abbreviation (input) SES_REQ_STD_LEN :: nat where "SES_REQ_STD_LEN \<equiv> 44"
abbreviation (input) SES_ATOMIC_EXT_LEN :: nat where "SES_ATOMIC_EXT_LEN \<equiv> 4"
abbreviation (input) SES_RNDV_EXT_LEN :: nat where "SES_RNDV_EXT_LEN \<equiv> 24"
abbreviation (input) SES_SYNC_EXT_LEN :: nat where "SES_SYNC_EXT_LEN \<equiv> 4"
abbreviation (input) SES_RSP_LEN :: nat where "SES_RSP_LEN \<equiv> 12"
abbreviation (input) SES_RSP_D_LEN :: nat where "SES_RSP_D_LEN \<equiv> 20"

section \<open>Numeric codes of the wire format\<close>

abbreviation (input) UET_PDS_TYPE_SECURITY :: u8 where "UET_PDS_TYPE_SECURITY \<equiv> 0x01"
abbreviation (input) UET_PDS_TYPE_RUD_REQ :: u8 where "UET_PDS_TYPE_RUD_REQ \<equiv> 0x02"
abbreviation (input) UET_PDS_TYPE_ROD_REQ :: u8 where "UET_PDS_TYPE_ROD_REQ \<equiv> 0x03"
abbreviation (input) UET_PDS_TYPE_RUDI_REQ :: u8 where "UET_PDS_TYPE_RUDI_REQ \<equiv> 0x04"
abbreviation (input) UET_PDS_TYPE_RUDI_RESP :: u8 where "UET_PDS_TYPE_RUDI_RESP \<equiv> 0x05"
abbreviation (input) UET_PDS_TYPE_UUD_REQ :: u8 where "UET_PDS_TYPE_UUD_REQ \<equiv> 0x06"
abbreviation (input) UET_PDS_TYPE_ACK :: u8 where "UET_PDS_TYPE_ACK \<equiv> 0x07"
abbreviation (input) UET_PDS_TYPE_ACK_CC :: u8 where "UET_PDS_TYPE_ACK_CC \<equiv> 0x08"
abbreviation (input) UET_PDS_TYPE_ACK_CCX :: u8 where "UET_PDS_TYPE_ACK_CCX \<equiv> 0x09"
abbreviation (input) UET_PDS_TYPE_NACK :: u8 where "UET_PDS_TYPE_NACK \<equiv> 0x0a"
abbreviation (input) UET_PDS_TYPE_CTRL :: u8 where "UET_PDS_TYPE_CTRL \<equiv> 0x0b"

abbreviation (input) UET_HDR_NONE :: u8 where "UET_HDR_NONE \<equiv> 0x0"
abbreviation (input) UET_HDR_REQ_SMALL :: u8 where "UET_HDR_REQ_SMALL \<equiv> 0x1"
abbreviation (input) UET_HDR_REQ_MEDIUM :: u8 where "UET_HDR_REQ_MEDIUM \<equiv> 0x2"
abbreviation (input) UET_HDR_REQ_STD :: u8 where "UET_HDR_REQ_STD \<equiv> 0x3"
abbreviation (input) UET_HDR_RSP :: u8 where "UET_HDR_RSP \<equiv> 0x4"
abbreviation (input) UET_HDR_RSP_DATA :: u8 where "UET_HDR_RSP_DATA \<equiv> 0x5"
abbreviation (input) UET_HDR_RSP_DATA_SMALL :: u8 where "UET_HDR_RSP_DATA_SMALL \<equiv> 0x6"

abbreviation (input) UET_PDS_REQ_FLAGS_RETX :: u8 where "UET_PDS_REQ_FLAGS_RETX \<equiv> 0x10"
abbreviation (input) UET_PDS_REQ_FLAGS_AR :: u8 where "UET_PDS_REQ_FLAGS_AR \<equiv> 0x08"
abbreviation (input) UET_PDS_REQ_FLAGS_SYN :: u8 where "UET_PDS_REQ_FLAGS_SYN \<equiv> 0x04"
abbreviation (input) UET_PDS_ACK_FLAGS_EPSN :: u8 where "UET_PDS_ACK_FLAGS_EPSN \<equiv> 0x40"
abbreviation (input) UET_PDS_ACK_FLAGS_REQ_CLR :: u8 where "UET_PDS_ACK_FLAGS_REQ_CLR \<equiv> 0x02"
abbreviation (input) UET_PDS_NACK_FLAGS_RETX :: u8 where "UET_PDS_NACK_FLAGS_RETX \<equiv> 0x10"
abbreviation (input) UET_PDS_CTRL_FLAGS_AR :: u8 where "UET_PDS_CTRL_FLAGS_AR \<equiv> 0x08"
abbreviation (input) UET_PDS_CTRL_FLAGS_SYN :: u8 where "UET_PDS_CTRL_FLAGS_SYN \<equiv> 0x04"

abbreviation (input) UET_PDS_CTRL_TYPE_ACK_REQ :: u8 where "UET_PDS_CTRL_TYPE_ACK_REQ \<equiv> 0x1"
abbreviation (input) UET_PDS_CTRL_TYPE_CLEAR :: u8 where "UET_PDS_CTRL_TYPE_CLEAR \<equiv> 0x2"
abbreviation (input) UET_PDS_CTRL_TYPE_CLOSE :: u8 where "UET_PDS_CTRL_TYPE_CLOSE \<equiv> 0x4"
abbreviation (input) UET_PDS_CTRL_TYPE_CLOSE_REQ :: u8 where "UET_PDS_CTRL_TYPE_CLOSE_REQ \<equiv> 0x5"
abbreviation (input) UET_PDS_CTRL_TYPE_PROBE :: u8 where "UET_PDS_CTRL_TYPE_PROBE \<equiv> 0x6"

abbreviation (input) UET_NACK_NONE :: u8 where "UET_NACK_NONE \<equiv> 0x00"
abbreviation (input) UET_NACK_TRIMMED :: u8 where "UET_NACK_TRIMMED \<equiv> 0x01"
abbreviation (input) UET_NACK_TRIMMED_LAST_HOP :: u8 where "UET_NACK_TRIMMED_LAST_HOP \<equiv> 0x02"
abbreviation (input) UET_NACK_TRIMMED_ACK :: u8 where "UET_NACK_TRIMMED_ACK \<equiv> 0x03"
abbreviation (input) UET_NACK_NO_PDC_AVAIL :: u8 where "UET_NACK_NO_PDC_AVAIL \<equiv> 0x04"
abbreviation (input) UET_NACK_NO_CCC_AVAIL :: u8 where "UET_NACK_NO_CCC_AVAIL \<equiv> 0x05"
abbreviation (input) UET_NACK_NO_BITMAP :: u8 where "UET_NACK_NO_BITMAP \<equiv> 0x06"
abbreviation (input) UET_NACK_NO_PKT_BUF :: u8 where "UET_NACK_NO_PKT_BUF \<equiv> 0x07"
abbreviation (input) UET_NACK_NO_GTD_DEL_AVAIL :: u8 where "UET_NACK_NO_GTD_DEL_AVAIL \<equiv> 0x08"
abbreviation (input) UET_NACK_NO_SES_MSG_AVAIL :: u8 where "UET_NACK_NO_SES_MSG_AVAIL \<equiv> 0x09"
abbreviation (input) UET_NACK_NO_RESOURCE :: u8 where "UET_NACK_NO_RESOURCE \<equiv> 0x0a"
abbreviation (input) UET_NACK_PSN_OOR_WINDOW :: u8 where "UET_NACK_PSN_OOR_WINDOW \<equiv> 0x0b"
abbreviation (input) UET_NACK_ROD_OOO :: u8 where "UET_NACK_ROD_OOO \<equiv> 0x0d"
abbreviation (input) UET_NACK_INV_DPDCID :: u8 where "UET_NACK_INV_DPDCID \<equiv> 0x0e"
abbreviation (input) UET_NACK_PDC_HDR_MISMATCH :: u8 where "UET_NACK_PDC_HDR_MISMATCH \<equiv> 0x0f"
abbreviation (input) UET_NACK_CLOSING :: u8 where "UET_NACK_CLOSING \<equiv> 0x10"
abbreviation (input) UET_NACK_CLOSING_IN_ERR :: u8 where "UET_NACK_CLOSING_IN_ERR \<equiv> 0x11"
abbreviation (input) UET_NACK_PKT_NOT_RCVD :: u8 where "UET_NACK_PKT_NOT_RCVD \<equiv> 0x12"
abbreviation (input) UET_NACK_GTD_RESP_UNAVAIL :: u8 where "UET_NACK_GTD_RESP_UNAVAIL \<equiv> 0x13"
abbreviation (input) UET_NACK_ACK_WITH_DATA :: u8 where "UET_NACK_ACK_WITH_DATA \<equiv> 0x14"
abbreviation (input) UET_NACK_INVALID_SYN :: u8 where "UET_NACK_INVALID_SYN \<equiv> 0x15"
abbreviation (input) UET_NACK_PDC_MODE_MISMATCH :: u8 where "UET_NACK_PDC_MODE_MISMATCH \<equiv> 0x16"
abbreviation (input) UET_NACK_NEW_START_PSN :: u8 where "UET_NACK_NEW_START_PSN \<equiv> 0x17"
abbreviation (input) UET_NACK_RCVD_SES_PROCG :: u8 where "UET_NACK_RCVD_SES_PROCG \<equiv> 0x18"
abbreviation (input) UET_NACK_UNEXP_EVENT :: u8 where "UET_NACK_UNEXP_EVENT \<equiv> 0x19"
abbreviation (input) UET_NACK_RCVR_INFER_LESS :: u8 where "UET_NACK_RCVR_INFER_LESS \<equiv> 0x1a"
abbreviation (input) UET_NACK_EXP_NACK_NORMAL :: u8 where "UET_NACK_EXP_NACK_NORMAL \<equiv> 0xfd"
abbreviation (input) UET_NACK_EXP_NACK_ERR :: u8 where "UET_NACK_EXP_NACK_ERR \<equiv> 0xfe"
abbreviation (input) UET_NACK_EXP_NACK_FATAL :: u8 where "UET_NACK_EXP_NACK_FATAL \<equiv> 0xff"

abbreviation (input) UET_READ :: u8 where "UET_READ \<equiv> 0x02"
abbreviation (input) UET_ATOMIC :: u8 where "UET_ATOMIC \<equiv> 0x03"
abbreviation (input) UET_FETCH_ATOMIC :: u8 where "UET_FETCH_ATOMIC \<equiv> 0x04"
abbreviation (input) UET_RNDV_SEND :: u8 where "UET_RNDV_SEND \<equiv> 0x06"
abbreviation (input) UET_RNDV_TSEND :: u8 where "UET_RNDV_TSEND \<equiv> 0x0a"
abbreviation (input) UET_TSEND_ATOMIC :: u8 where "UET_TSEND_ATOMIC \<equiv> 0x0d"
abbreviation (input) UET_TSEND_FETCH_ATOMIC :: u8 where "UET_TSEND_FETCH_ATOMIC \<equiv> 0x0e"
abbreviation (input) UET_SYNC_WRITE :: u8 where "UET_SYNC_WRITE \<equiv> 0x10"
abbreviation (input) UET_SYNC_ATOMIC :: u8 where "UET_SYNC_ATOMIC \<equiv> 0x11"
abbreviation (input) UET_DEFAULT_RESPONSE :: u8 where "UET_DEFAULT_RESPONSE \<equiv> 0x00"

abbreviation (input) ETH_P_IP :: u16 where "ETH_P_IP \<equiv> 0x0800"
abbreviation (input) ETH_P_IPV6 :: u16 where "ETH_P_IPV6 \<equiv> 0x86DD"
abbreviation (input) ETH_P_8021Q :: u16 where "ETH_P_8021Q \<equiv> 0x8100"
abbreviation (input) IPPROTO_UDP :: u8 where "IPPROTO_UDP \<equiv> 17"

section \<open>Big-endian fields in a byte buffer\<close>

text \<open>\<open>rdN b i\<close> is \<open>ntohX\<close> of the \<open>N\<close>-bit field at offset \<open>i\<close>; \<open>wr b i d\<close> overwrites
  the bytes at offset \<open>i\<close> with \<open>d\<close>.\<close>

definition rd8 :: "bytes \<Rightarrow> nat \<Rightarrow> u8 option" where
  "rd8 b i = (if i < length b then Some (b ! i) else None)"

definition rdn :: "bytes \<Rightarrow> nat \<Rightarrow> nat \<Rightarrow> bytes option" where
  "rdn b i n = (if i + n \<le> length b then Some (take n (drop i b)) else None)"

definition be_val :: "bytes \<Rightarrow> 'w::len word" where
  "be_val bs = foldl (\<lambda>acc x. push_bit 8 acc OR ucast x) 0 bs"

definition rd16 :: "bytes \<Rightarrow> nat \<Rightarrow> u16 option" where
  "rd16 b i = map_option be_val (rdn b i 2)"

definition rd32 :: "bytes \<Rightarrow> nat \<Rightarrow> u32 option" where
  "rd32 b i = map_option be_val (rdn b i 4)"

definition rd64 :: "bytes \<Rightarrow> nat \<Rightarrow> u64 option" where
  "rd64 b i = map_option be_val (rdn b i 8)"

definition be16 :: "u16 \<Rightarrow> bytes" where
  "be16 w = [ucast (drop_bit 8 w), ucast w]"

definition be32 :: "u32 \<Rightarrow> bytes" where
  "be32 w = [ucast (drop_bit 24 w), ucast (drop_bit 16 w), ucast (drop_bit 8 w), ucast w]"

definition be64 :: "u64 \<Rightarrow> bytes" where
  "be64 w = [ucast (drop_bit 56 w), ucast (drop_bit 48 w), ucast (drop_bit 40 w), ucast (drop_bit 32 w),
             ucast (drop_bit 24 w), ucast (drop_bit 16 w), ucast (drop_bit 8 w), ucast w]"

definition wr :: "bytes \<Rightarrow> nat \<Rightarrow> bytes \<Rightarrow> bytes option" where
  "wr b i d = (if i + length d \<le> length b then Some (take i b @ d @ drop (i + length d) b) else None)"

text \<open>\<open>htons\<close> on the little-endian machine the provider runs on.\<close>

definition htons :: "u16 \<Rightarrow> u16" where
  "htons w = push_bit 8 w OR drop_bit 8 w"

section \<open>The prologue fields\<close>

definition prlg :: "u8 \<Rightarrow> u8 \<Rightarrow> u8 \<Rightarrow> u16" where
  "prlg ty nxt fl = push_bit 11 (ucast ty) OR push_bit 7 (ucast nxt) OR ucast fl"

definition prlg_type :: "u16 \<Rightarrow> u8" where
  "prlg_type w = ucast (drop_bit 11 (w AND 0xf800))"

definition prlg_next :: "u16 \<Rightarrow> u8" where
  "prlg_next w = ucast (drop_bit 7 (w AND 0x0780))"

definition prlg_flags :: "u16 \<Rightarrow> u8" where
  "prlg_flags w = ucast (w AND 0x007f)"

section \<open>Ethernet and IP headers\<close>

text \<open>The checksum loop adds the big-endian 16-bit words of the header into an
  \<open>unsigned long\<close> and folds the carries until the sum fits 16 bits.\<close>

fun be_words :: "bytes \<Rightarrow> nat list" where
  "be_words (x # y # bs) = (unat x * 256 + unat y) # be_words bs"
| "be_words _ = []"

function csum_fold :: "nat \<Rightarrow> nat" where
  "csum_fold s = (let s' = s div 65536 + s mod 65536 in if s' < 65536 then s' else csum_fold s')"
  by pat_completeness auto
termination
proof (relation "measure id", goal_cases)
  case (2 s s')
  let ?q = "s div 65536"
  have eq: "65536 * ?q + s mod 65536 = s" by simp
  have "?q \<noteq> 0" using 2 by (auto simp: mod_less_divisor)
  then have "?q < 65536 * ?q" by simp
  then have "?q + s mod 65536 < s" using eq by linarith
  then show ?case using 2 by simp
qed simp

declare csum_fold.simps [simp del]

definition uet_csum :: "bytes \<Rightarrow> u16" where
  "uet_csum b = NOT (word_of_nat (csum_fold (sum_list (be_words b))))"

text \<open>\<open>uet_ipv4_csum\<close> reads \<open>ihl * 4\<close> bytes and returns the sum in network order; the byte list
  is that big-endian field.\<close>

definition uet_ipv4_csum :: "bytes \<Rightarrow> nat \<Rightarrow> u16 option" where
  "uet_ipv4_csum b ip = do {
     v \<leftarrow> rd8 b ip;
     h \<leftarrow> rdn b ip (4 * unat (v AND 0x0f));
     Some (uet_csum h) }"

definition set_ipv4_csum :: "bytes \<Rightarrow> nat \<Rightarrow> bytes option" where
  "set_ipv4_csum b ip = do {
     b \<leftarrow> wr b (ip + 10) [0, 0];
     c \<leftarrow> uet_ipv4_csum b ip;
     wr b (ip + 10) (be16 c) }"

definition uet_build_ipv4_hdr ::
  "u8 \<Rightarrow> bytes \<Rightarrow> nat \<Rightarrow> bytes \<Rightarrow> bytes \<Rightarrow> u16 \<Rightarrow> u8 \<Rightarrow> bool \<Rightarrow> bytes option" where
  "uet_build_ipv4_hdr ipproto b ip dip sip tot_len tos crc_en = do {
     b \<leftarrow> wr b ip ([0x45, tos] @ be16 (tot_len + (if crc_en then 4 else 0)) @ [0, 0] @ be16 0x4000
                  @ [64, ipproto]);
     b \<leftarrow> wr b (ip + 12) (sip @ dip);
     set_ipv4_csum b ip }"

definition uet_update_ipv4_tl :: "bytes \<Rightarrow> nat \<Rightarrow> u16 \<Rightarrow> bytes option" where
  "uet_update_ipv4_tl b ip tot_len = do {
     b \<leftarrow> wr b (ip + 2) (be16 tot_len);
     set_ipv4_csum b ip }"

definition uet_build_ipv6_hdr ::
  "u8 \<Rightarrow> bytes \<Rightarrow> nat \<Rightarrow> bytes \<Rightarrow> bytes \<Rightarrow> u16 \<Rightarrow> u8 \<Rightarrow> bool \<Rightarrow> bytes option" where
  "uet_build_ipv6_hdr ipproto b ip dip sip payload_len tc crc_en =
     wr b ip ([0x60 OR drop_bit 4 tc, push_bit 4 tc, 0, 0]
              @ be16 (payload_len + (if crc_en then 4 else 0)) @ [ipproto, 64] @ sip @ dip)"

definition uet_update_ipv6_pl :: "bytes \<Rightarrow> nat \<Rightarrow> u16 \<Rightarrow> bytes option" where
  "uet_update_ipv6_pl b ip payload_len = wr b (ip + 4) (be16 payload_len)"

definition uet_build_eth_hdr :: "bytes \<Rightarrow> nat \<Rightarrow> bytes \<Rightarrow> bytes \<Rightarrow> bool \<Rightarrow> bytes option" where
  "uet_build_eth_hdr b eth dmac smac is_ipv6 =
     wr b eth (dmac @ smac @ be16 (if is_ipv6 then ETH_P_IPV6 else ETH_P_IP))"

section \<open>Reference definitions\<close>

definition be_bytes :: "nat \<Rightarrow> 'w::len word \<Rightarrow> bytes" where
  "be_bytes m w = map (\<lambda>i. ucast (drop_bit (8 * i) w)) (rev [0..<m])"

section \<open>Lemmas\<close>

lemma length_be [simp]: "length (be16 v) = 2" "length (be32 w) = 4" "length (be64 x) = 8"
  by (simp_all add: be16_def be32_def be64_def)

lemma be_val_foldl:
  "foldl (\<lambda>acc x. push_bit 8 acc OR ucast x) acc bs = push_bit (8 * length bs) acc OR (be_val bs :: 'w::len word)"
proof (induction bs arbitrary: acc rule: rev_induct)
  case Nil
  then show ?case by (simp add: be_val_def)
next
  case (snoc x bs)
  have "be_val (bs @ [x]) = (push_bit 8 (be_val bs) OR ucast x :: 'w word)" by (simp add: be_val_def)
  then show ?case using snoc by (simp add: push_bit_or or.assoc push_bit_push_bit add.commute)
qed

lemma be_val_Cons: "be_val (x # bs) = (push_bit (8 * length bs) (ucast x) OR be_val bs :: 'w::len word)"
  using be_val_foldl [of "ucast x" bs] by (simp add: be_val_def)

lemma bit_be_val_bytes:
  "bit (be_val (be_bytes m w) :: 'w::len word) n \<longleftrightarrow> n < 8 * m \<and> bit w n" for w :: "'w::len word"
proof (induction m)
  case 0
  then show ?case by (simp add: be_bytes_def be_val_def)
next
  case (Suc m)
  have "be_bytes (Suc m) w = ucast (drop_bit (8 * m) w) # be_bytes m w" "length (be_bytes m w) = m"
    by (simp_all add: be_bytes_def)
  then show ?case
    using Suc by (auto simp: be_val_Cons bit_simps dest: bit_imp_le_length)
qed

lemma be_val_be_bytes: "LENGTH('w) \<le> 8 * m \<Longrightarrow> be_val (be_bytes m w) = (w :: 'w::len word)"
  by (rule bit_word_eqI) (simp add: bit_be_val_bytes)

lemma be_as_bytes: "be16 v = be_bytes 2 v" "be32 w = be_bytes 4 w" "be64 x = be_bytes 8 x"
  by (simp_all add: be16_def be32_def be64_def be_bytes_def upt_conv_Cons rev_append numeral_eq_Suc)

lemma be_val_be [simp]: "be_val (be16 v) = v" "be_val (be32 w) = w" "be_val (be64 x) = x"
  by (simp_all add: be_as_bytes be_val_be_bytes)

lemma wr_length: "wr b i d = Some b' \<Longrightarrow> length b' = length b"
  by (auto simp: wr_def split: if_splits)

lemma wr_in: "i + length d \<le> length b \<Longrightarrow> \<exists>b'. wr b i d = Some b'"
  by (simp add: wr_def)

lemma rdn_wr_same: "wr b i d = Some b' \<Longrightarrow> n = length d \<Longrightarrow> rdn b' i n = Some d"
  by (auto simp: wr_def rdn_def split: if_splits)

lemma wr_nth:
  assumes "wr b i d = Some b'" "k < length b"
  shows "b' ! k = (if i \<le> k \<and> k < i + length d then d ! (k - i) else b ! k)"
  using assms by (auto simp: wr_def nth_append min_def split: if_splits)

lemma rdn_cong:
  assumes "\<And>k. i \<le> k \<Longrightarrow> k < i + n \<Longrightarrow> b ! k = b' ! k" "i + n \<le> length b" "i + n \<le> length b'"
  shows "rdn b i n = rdn b' i n"
  using assms by (auto simp: rdn_def intro!: nth_equalityI)

lemma rdn_wr_other:
  assumes "wr b i d = Some b'" "j + n \<le> i \<or> i + length d \<le> j"
  shows "rdn b' j n = rdn b j n"
proof (cases "j + n \<le> length b")
  case True
  then show ?thesis
    using assms wr_length [OF assms(1)] by (intro rdn_cong) (auto simp: wr_nth [OF assms(1)])
next
  case False
  then show ?thesis using wr_length [OF assms(1)] by (simp add: rdn_def)
qed

lemma rd_wr_same:
  "wr b i (be16 v) = Some b' \<Longrightarrow> rd16 b' i = Some v"
  "wr b i (be32 w) = Some b' \<Longrightarrow> rd32 b' i = Some w"
  "wr b i (be64 x) = Some b' \<Longrightarrow> rd64 b' i = Some x"
  by (simp_all add: rd16_def rd32_def rd64_def rdn_wr_same)

lemma rd_wr_other:
  assumes "wr b i d = Some b'"
  shows "j + 2 \<le> i \<or> i + length d \<le> j \<Longrightarrow> rd16 b' j = rd16 b j"
    and "j + 4 \<le> i \<or> i + length d \<le> j \<Longrightarrow> rd32 b' j = rd32 b j"
    and "j + 8 \<le> i \<or> i + length d \<le> j \<Longrightarrow> rd64 b' j = rd64 b j"
  by (simp_all add: rd16_def rd32_def rd64_def rdn_wr_other [OF assms])

lemma rdn_split: "rdn b i (m + n) = Some d \<Longrightarrow> rdn b i m = Some (take m d) \<and> rdn b (i + m) n = Some (drop m d)"
  by (auto simp: rdn_def take_drop add_ac split: if_splits)

lemma rdn_length: "rdn b i n = Some d \<Longrightarrow> length d = n \<and> i + n \<le> length b"
  by (auto simp: rdn_def split: if_splits)

lemma rdn_in: "i + n \<le> length b \<Longrightarrow> rdn b i n = Some (take n (drop i b))"
  by (simp add: rdn_def)

lemma prlg_masks: "(0xf800 :: u16) = push_bit 11 (mask 5)" "(0x0780 :: u16) = push_bit 7 (mask 4)" "(0x007f :: u16) = mask 7"
  by (simp_all add: mask_eq_exp_minus_1 push_bit_eq_mult)

lemma prlg_fields:
  assumes "take_bit 5 ty = ty" "take_bit 4 nxt = nxt" "take_bit 7 fl = fl"
  shows "prlg_type (prlg ty nxt fl) = ty" "prlg_next (prlg ty nxt fl) = nxt" "prlg_flags (prlg ty nxt fl) = fl"
proof -
  have b: "bit ty n \<Longrightarrow> n < 5" "bit nxt n \<Longrightarrow> n < 4" "bit fl n \<Longrightarrow> n < 7" for n
    using assms by (metis bit_take_bit_iff)+
  show "prlg_type (prlg ty nxt fl) = ty"
    by (rule bit_word_eqI) (auto simp: prlg_type_def prlg_def prlg_masks bit_simps dest: b)
  show "prlg_next (prlg ty nxt fl) = nxt"
    by (rule bit_word_eqI) (auto simp: prlg_next_def prlg_def prlg_masks bit_simps dest: b)
  show "prlg_flags (prlg ty nxt fl) = fl"
    by (rule bit_word_eqI) (auto simp: prlg_flags_def prlg_def prlg_masks bit_simps dest: b)
qed

lemma csum_fold_lt: "csum_fold s < 65536"
proof (induction s rule: csum_fold.induct)
  case (1 s)
  then show ?case by (subst csum_fold.simps) (simp add: Let_def)
qed

lemma csum_fold_mod: "csum_fold s mod 65535 = s mod 65535"
proof (induction s rule: csum_fold.induct)
  case (1 s)
  have "s = 65535 * (s div 65536) + (s div 65536 + s mod 65536)"
    using mult_div_mod_eq [of 65536 s] by linarith
  then have "(s div 65536 + s mod 65536) mod 65535 = s mod 65535"
    by (metis mod_mult_self4)
  then show ?case using 1 by (subst csum_fold.simps) (simp add: Let_def)
qed

lemma csum_fold_le: "csum_fold s \<le> s"
proof (induction s rule: csum_fold.induct)
  case (1 s)
  have "s div 65536 + s mod 65536 \<le> s"
    using mult_div_mod_eq [of 65536 s] by linarith
  then show ?case using 1 by (subst csum_fold.simps) (auto simp: Let_def)
qed

lemma csum_fold_pos: "0 < s \<Longrightarrow> 0 < csum_fold s"
proof (induction s rule: csum_fold.induct)
  case (1 s)
  have "0 < s div 65536 + s mod 65536"
    using 1(2) mult_div_mod_eq [of 65536 s] by (metis add_is_0 gr0I mult_0_right)
  then show ?case using 1(1) by (subst csum_fold.simps) (auto simp: Let_def)
qed

lemma csum_complete: "csum_fold (s + (65535 - csum_fold s)) = 65535"
proof -
  let ?t = "s + (65535 - csum_fold s)"
  have le: "csum_fold s \<le> 65535" using csum_fold_lt [of s] by simp
  have "65535 dvd s - csum_fold s"
    using mod_eq_dvd_iff_nat [OF csum_fold_le [of s], of 65535] csum_fold_mod [of s] by simp
  moreover have "?t = (s - csum_fold s) + 65535" using csum_fold_le [of s] le by linarith
  ultimately have m: "?t mod 65535 = 0" by (simp flip: dvd_eq_mod_eq_0)
  have "65535 \<le> ?t" using csum_fold_le [of s] le by linarith
  then have "0 < csum_fold ?t" by (intro csum_fold_pos) linarith
  moreover have "csum_fold ?t mod 65535 = 0" using m csum_fold_mod [of ?t] by simp
  ultimately show ?thesis using csum_fold_lt [of ?t] by (auto elim!: dvdE simp flip: dvd_eq_mod_eq_0)
qed

lemma be_words_append: "even (length xs) \<Longrightarrow> be_words (xs @ ys) = be_words xs @ be_words ys"
proof (induction xs rule: be_words.induct)
  case (1 x y bs)
  then show ?case by simp
qed auto

lemma be_words_be16: "be_words (be16 w) = [unat w]"
proof -
  have "unat w = unat w div 256 * 256 + unat w mod 256" by simp
  moreover have "unat (ucast (drop_bit 8 w) :: u8) = unat w div 256" "unat (ucast w :: u8) = unat w mod 256"
    using unsigned_less [where ?'a = nat and w = w]
    by (simp_all add: unsigned_ucast_eq unat_div take_bit_eq_mod drop_bit_eq_div less_mult_imp_div_less)
  ultimately show ?thesis by (simp add: be16_def)
qed

lemma unat_not_u16: "unat (NOT w) = 65535 - unat w" for w :: u16
proof -
  have "NOT w = - 1 - w" by (simp add: not_eq_complement)
  moreover have "unat (- 1 - w) = unat (- 1 :: u16) - unat w" by (rule unat_sub) simp
  moreover have "unat (- 1 :: u16) = 65535" by (simp add: unsigned_minus_1_eq_mask mask_eq_exp_minus_1)
  ultimately show ?thesis by simp
qed

lemma uet_csum_verifies:
  assumes "even (length xs)" "w = uet_csum (xs @ [0, 0] @ ys)"
  shows "uet_csum (xs @ be16 w @ ys) = 0"
proof -
  let ?s = "sum_list (be_words (xs @ [0, 0] @ ys))"
  have z: "be_words ([0, 0] @ ys) = 0 # be_words ys" by simp
  have "csum_fold ?s < 65536" by (rule csum_fold_lt)
  then have "unat w = 65535 - csum_fold ?s"
    unfolding assms(2) uet_csum_def unat_not_u16 by (simp add: unat_of_nat)
  then have "sum_list (be_words (xs @ be16 w @ ys)) = ?s + (65535 - csum_fold ?s)"
    using assms(1) by (simp add: be_words_append [of xs] be_words_append [of "be16 w"] be_words_be16 z)
  then show ?thesis by (simp add: uet_csum_def csum_complete)
qed

lemma set_ipv4_csum_verifies:
  assumes "set_ipv4_csum b ip = Some b'" "rd8 b ip = Some v" "3 \<le> unat (v AND 0x0f)"
  shows "uet_ipv4_csum b' ip = Some 0"
proof -
  define n where "n = 4 * unat (v AND 0x0f)"
  have n: "12 \<le> n" using assms(3) by (simp add: n_def)
  let ?P = "take 10 (drop ip b)" and ?Q = "take (n - 12) (drop (ip + 12) b)"
  have ip: "ip < length b" "b ! ip = v" using assms(2) by (auto simp: rd8_def split: if_splits)
  obtain b0 c where 1: "wr b (ip + 10) [0, 0] = Some b0" "uet_ipv4_csum b0 ip = Some c"
    "wr b0 (ip + 10) (be16 c) = Some b'"
    using assms(1) by (auto simp: set_ipv4_csum_def bind_eq_Some_conv)
  have len: "ip + 12 \<le> length b" using 1(1) by (auto simp: wr_def split: if_splits)
  have b0: "b0 = take (ip + 10) b @ [0, 0] @ drop (ip + 12) b" using 1(1) len by (auto simp: wr_def add.commute)
  have b': "b' = take (ip + 10) b @ be16 c @ drop (ip + 12) b" 
  proof -
    have "take (ip + 10) b0 = take (ip + 10) b" "drop (ip + 12) b0 = drop (ip + 12) b" "length b0 = length b"
      using len by (simp_all add: b0)
    then show ?thesis using 1(3) by (auto simp: wr_def add.commute split: if_splits)
  qed
  have r: "rd8 (take (ip + 10) b @ ys) ip = Some v" for ys
    using ip len by (simp add: rd8_def nth_append)
  have s: "take n (drop ip (take (ip + 10) b @ [x, y] @ drop (ip + 12) b)) = ?P @ [x, y] @ ?Q" for x y
    using n len by (simp add: take_Cons' drop_take numeral_eq_Suc)
  have d: "ip + n \<le> length b" and c: "c = uet_csum (?P @ [0, 0] @ ?Q)"
    using 1(2) r [of "[0, 0] @ drop (ip + 12) b"] s [of 0 0] len
    by (auto simp: uet_ipv4_csum_def b0 rdn_def n_def split: if_splits)
  have "rdn b' ip n = Some (?P @ be16 c @ ?Q)"
    using d len s by (simp add: b' rdn_def be16_def)
  moreover have "uet_csum (?P @ be16 c @ ?Q) = 0"
    using c len by (intro uet_csum_verifies) (simp_all add: min_def)
  ultimately show ?thesis
    using r [of "be16 c @ drop (ip + 12) b"] by (simp add: uet_ipv4_csum_def b' n_def)
qed

lemma rd8_wr_other: "wr b i d = Some b' \<Longrightarrow> j < i \<or> i + length d \<le> j \<Longrightarrow> rd8 b' j = rd8 b j"
  using wr_length [of b i d b'] by (auto simp: rd8_def wr_nth)

lemma set_ipv4_csum_rd8: "set_ipv4_csum b ip = Some b' \<Longrightarrow> rd8 b' ip = rd8 b ip"
  by (auto simp: set_ipv4_csum_def bind_eq_Some_conv rd8_wr_other)

lemma rd8_wr_hd: "wr b i (x # xs) = Some b' \<Longrightarrow> rd8 b' i = Some x"
  using wr_length [of b i "x # xs" b'] by (auto simp: rd8_def wr_nth) (auto simp: wr_def split: if_splits)

lemma set_ipv4_csum_total:
  assumes "rd8 b ip = Some v" "ip + 4 * unat (v AND 0x0f) \<le> length b" "ip + 12 \<le> length b"
  shows "\<exists>b'. set_ipv4_csum b ip = Some b'"
proof -
  obtain b0 where b0: "wr b (ip + 10) [0, 0] = Some b0" using assms(3) wr_in [of "ip + 10" "[0, 0]" b] by auto
  have "rd8 b0 ip = Some v" using rd8_wr_other [OF b0, of ip] assms(1) by simp
  then obtain c where c: "uet_ipv4_csum b0 ip = Some c"
    using assms(2) wr_length [OF b0] by (simp add: uet_ipv4_csum_def rdn_def)
  show ?thesis
    using wr_in [of "ip + 10" "be16 c" b0] assms(3) wr_length [OF b0] by (simp add: set_ipv4_csum_def b0 c)
qed

lemma uet_build_ipv4_hdr_total:
  assumes "ip + 20 \<le> length b" "length sip = 4" "length dip = 4"
  shows "\<exists>b'. uet_build_ipv4_hdr ipproto b ip dip sip tot tos crc_en = Some b'"
proof -
  let ?h = "0x45 # tos # be16 (tot + (if crc_en then 4 else 0)) @ [0, 0] @ be16 0x4000 @ [64, ipproto]"
  obtain b1 where b1: "wr b ip ?h = Some b1" using assms(1) wr_in [of ip ?h b] by auto
  obtain b2 where b2: "wr b1 (ip + 12) (sip @ dip) = Some b2"
    using assms wr_in [of "ip + 12" "sip @ dip" b1] wr_length [OF b1] by auto
  have "rd8 b2 ip = Some 0x45" using rd8_wr_other [OF b2, of ip] rd8_wr_hd [OF b1] by simp
  then obtain b3 where "set_ipv4_csum b2 ip = Some b3"
    using set_ipv4_csum_total [of b2 ip] wr_length [OF b1] wr_length [OF b2] assms(1) by auto
  then show ?thesis using b1 b2 by (simp add: uet_build_ipv4_hdr_def)
qed

text \<open>C7: an IPv4 header the provider builds passes its own receive check: whatever the
  addresses, length and type of service, the checksum over the built header is zero, and it is
  so again after the total length was updated for a security header.\<close>

theorem ipv4_hdr_csum_valid:
  assumes "uet_build_ipv4_hdr ipproto b ip dip sip tot_len tos crc_en = Some b1" "length sip = 4" "length dip = 4"
  shows "uet_ipv4_csum b1 ip = Some 0 \<and>
    (\<forall>tl b2. uet_update_ipv4_tl b1 ip tl = Some b2 \<longrightarrow> uet_ipv4_csum b2 ip = Some 0)"
proof -
  obtain b' b'' where w: "wr b ip ([0x45, tos] @ be16 (tot_len + (if crc_en then 4 else 0)) @ [0, 0] @ be16 0x4000
      @ [64, ipproto]) = Some b'" "wr b' (ip + 12) (sip @ dip) = Some b''" "set_ipv4_csum b'' ip = Some b1"
    using assms(1) by (auto simp: uet_build_ipv4_hdr_def bind_eq_Some_conv simp del: append_Cons)
  have "rd8 b' ip = Some 0x45" using w(1) by (auto intro: rd8_wr_hd)
  then have v: "rd8 b'' ip = Some 0x45" using rd8_wr_other [OF w(2), of ip] by simp
  have "uet_ipv4_csum b1 ip = Some 0" by (rule set_ipv4_csum_verifies [OF w(3) v]) simp
  moreover have "uet_ipv4_csum b2 ip = Some 0" if upd: "uet_update_ipv4_tl b1 ip tl = Some b2" for tl b2
  proof -
    obtain b3 where u: "wr b1 (ip + 2) (be16 tl) = Some b3" "set_ipv4_csum b3 ip = Some b2"
      using upd unfolding uet_update_ipv4_tl_def bind_eq_Some_conv by blast
    have "rd8 b3 ip = Some 0x45"
      using rd8_wr_other [OF u(1), of ip] set_ipv4_csum_rd8 [OF w(3)] v by simp
    then show ?thesis by (rule set_ipv4_csum_verifies [OF u(2)]) simp
  qed
  ultimately show ?thesis by blast
qed

theorem ipv4_hdr_csum_valid_witness:
  "\<exists>b1. uet_build_ipv4_hdr 0xfd (replicate 20 0) 0 [10, 0, 0, 1] [10, 0, 0, 2] 100 0 True = Some b1
    \<and> uet_ipv4_csum b1 0 = Some 0 \<and>
    (\<forall>tl b2. uet_update_ipv4_tl b1 0 tl = Some b2 \<longrightarrow> uet_ipv4_csum b2 0 = Some 0)"
proof -
  have "\<exists>b1. uet_build_ipv4_hdr 0xfd (replicate 20 0) 0 [10, 0, 0, 1] [10, 0, 0, 2] 100 0 True = Some b1"
    by (rule uet_build_ipv4_hdr_total) simp_all
  then obtain b1 where b1: "uet_build_ipv4_hdr 0xfd (replicate 20 0) 0 [10, 0, 0, 1] [10, 0, 0, 2] 100 0 True = Some b1"
    by blast
  then show ?thesis using ipv4_hdr_csum_valid [OF b1] by simp
qed

end
