(* ===== verification/Parse.thy ===== *)
theory Parse
  imports PktHdr
begin

unbundle bit_operations_syntax

text \<open>
  The packet parser \<open>uet_parse_pkt\<close> of \<open>src/util/uet_util.c\<close> and the receive filter of
  \<open>src/util/uet_pkt_chk.c\<close>.  The parser reads a buffer that may be longer than the
  received packet; a read outside the buffer is \<^const>\<open>None\<close>.  Pointers of
  \<open>struct uet_parsed_pkt\<close> are offsets into the buffer it was parsed from, which the record
  carries along; lengths keep their 16 bits.
\<close>

section \<open>The instance and the parse result\<close>

record uet_inst =
  uet_ipproto :: u8
  uet_udp_port :: u16
  max_payload_len :: nat
  nic_mac_addr :: bytes
  nic_ipv4_addr :: u32
  nic_ipv6_addr :: bytes
  l2_hdr_size :: nat
  min_ip_pkt_size :: nat
  max_pkt_size :: nat
  tx_timeout :: int
  max_tx_retries :: int
  msl :: int
  ack_ip_tos :: u8
  max_ack_data :: u16
  per_pkt_ack_enabled :: bool
  ack_gen_trigger :: u32
  ack_gen_min_pkt_add :: u32
  ack_type :: u8
  default_msg_ip_tos :: u8

record uet_parsed_pkt =
  pp_data :: bytes
  pp_pkt_len :: u16
  eth_len :: u16
  ethertype :: u16
  pp_ip :: nat
  ip_len :: u16
  ip_payload_len :: u16
  ip_protocol :: u8
  pp_is_ipv6 :: bool
  udp_len :: u16
  entropy_len :: u16
  entropy_val :: u16
  pp_sec :: "nat option"
  sec_len :: u16
  sec_an :: u8
  sec_sdi :: u32
  sec_ssi_valid :: bool
  sec_ssi :: u32
  sec_epoch :: u16
  sec_tsc :: u64
  pp_pds :: nat
  pds_len :: u16
  pds_type :: u8
  pds_flags :: u8
  pds_cack_psn :: u32
  pds_psn :: u32
  pds_rudi_pkt_id :: u32
  pds_spdcid :: u16
  pds_dpdcid :: u16
  pds_cc_type :: u8
  pds_cc_flags :: u8
  pds_mpr :: u8
  pds_sack_base_psn :: u32
  pds_sack_bitmap :: u64
  pds_cc_state :: u64
  pds_ccx_state :: u64
  pds_syn_off :: u8
  pds_clear_psn :: u32
  pds_nack_code :: u8
  pds_payload :: u32
  pds_probe_opaque :: u16
  pds_pdc_info :: u8
  pds_ctrl_payload :: u32
  pds_ctrl_type :: u8
  next_hdr :: u8
  pp_ses :: nat
  ses_len :: u16
  ses_opcode :: u8
  ses_msg_id :: u16
  hdr_len :: u16
  trailer_len :: u16
  pp_payload :: nat
  ses_payload_len :: u16
  pkt_payload_len :: u16

definition pp_zero :: uet_parsed_pkt where
  "pp_zero = \<lparr>pp_data = [], pp_pkt_len = 0, eth_len = 0, ethertype = 0, pp_ip = 0, ip_len = 0,
     ip_payload_len = 0, ip_protocol = 0, pp_is_ipv6 = False, udp_len = 0, entropy_len = 0, entropy_val = 0,
     pp_sec = None, sec_len = 0, sec_an = 0, sec_sdi = 0, sec_ssi_valid = False, sec_ssi = 0, sec_epoch = 0,
     sec_tsc = 0, pp_pds = 0, pds_len = 0, pds_type = 0, pds_flags = 0, pds_cack_psn = 0, pds_psn = 0,
     pds_rudi_pkt_id = 0, pds_spdcid = 0, pds_dpdcid = 0, pds_cc_type = 0, pds_cc_flags = 0, pds_mpr = 0,
     pds_sack_base_psn = 0, pds_sack_bitmap = 0, pds_cc_state = 0, pds_ccx_state = 0, pds_syn_off = 0,
     pds_clear_psn = 0, pds_nack_code = 0, pds_payload = 0, pds_probe_opaque = 0, pds_pdc_info = 0,
     pds_ctrl_payload = 0, pds_ctrl_type = 0, next_hdr = 0, pp_ses = 0, ses_len = 0, ses_opcode = 0,
     ses_msg_id = 0, hdr_len = 0, trailer_len = 0, pp_payload = 0, ses_payload_len = 0, pkt_payload_len = 0\<rparr>"

section \<open>Field helpers\<close>

text \<open>A parser stage returns the error code (0 to continue), the result so far and \<open>cur_len\<close>.\<close>

type_synonym pstage = "(int \<times> uet_parsed_pkt \<times> u16) option"

definition pthen :: "pstage \<Rightarrow> (uet_parsed_pkt \<Rightarrow> u16 \<Rightarrow> pstage) \<Rightarrow> pstage" where
  "pthen m f = do {
     (rc, pp, cur_len) \<leftarrow> m;
     if rc \<noteq> 0 then Some (rc, pp, cur_len) else f pp cur_len }"

definition uet_parse_chk_next_field :: "uet_parsed_pkt \<Rightarrow> u16 \<Rightarrow> u16 \<Rightarrow> int" where
  "uet_parse_chk_next_field pp field_offset field_len =
     (if unat field_offset + unat field_len > unat (pp_pkt_len pp) then - EFAULT else 0)"

definition uet_is_valid_ipv6_ext_hdr :: "u8 \<Rightarrow> bool" where
  "uet_is_valid_ipv6_ext_hdr ipproto \<longleftrightarrow> ipproto = 0 \<or> ipproto = 43 \<or> ipproto = 60 \<or> ipproto = 135"

text \<open>The chain of IPv6 extension headers.  The fuel is spent only by a chain that never ends.\<close>

fun ipv6_ext_loop :: "uet_inst \<Rightarrow> bytes \<Rightarrow> nat \<Rightarrow> uet_parsed_pkt \<Rightarrow> (int \<times> uet_parsed_pkt) option" where
  "ipv6_ext_loop uet b 0 pp = None"
| "ipv6_ext_loop uet b (Suc n) pp =
     (if ip_protocol pp = uet_ipproto uet \<or> ip_protocol pp = IPPROTO_UDP then Some (0, pp)
      else if \<not> uet_is_valid_ipv6_ext_hdr (ip_protocol pp) then Some (- EINVAL, pp)
      else if uet_parse_chk_next_field pp (eth_len pp + ip_len pp) 2 \<noteq> 0
        then Some (uet_parse_chk_next_field pp (eth_len pp + ip_len pp) 2, pp)
      else do {
        nh \<leftarrow> rd8 b (pp_ip pp + unat (ip_len pp));
        hl \<leftarrow> rd8 b (pp_ip pp + unat (ip_len pp) + 1);
        ipv6_ext_loop uet b n
          (pp\<lparr>ip_protocol := nh, ip_len := ip_len pp + push_bit 3 (ucast hl + 1)\<rparr>) })"

definition IPV6_EXT_FUEL :: nat where
  "IPV6_EXT_FUEL = 8192"

definition uet_get_ipv6_nexthdr :: "uet_inst \<Rightarrow> bytes \<Rightarrow> uet_parsed_pkt \<Rightarrow> (int \<times> uet_parsed_pkt) option" where
  "uet_get_ipv6_nexthdr uet b pp = do {
     pl \<leftarrow> rd16 b (pp_ip pp + 4);
     nh \<leftarrow> rd8 b (pp_ip pp + 6);
     ipv6_ext_loop uet b IPV6_EXT_FUEL
       (pp\<lparr>ip_len := 40, ip_payload_len := pl, ip_protocol := nh\<rparr>) }"

definition uet_get_ses_req_payload_len :: "bytes \<Rightarrow> uet_parsed_pkt \<Rightarrow> u16 \<Rightarrow> u16 option" where
  "uet_get_ses_req_payload_len b pp max_pl = do {
     req_len \<leftarrow> rd32 b (pp_ses pp + 40);
     ver_flags \<leftarrow> rd8 b (pp_ses pp + 1);
     if ver_flags AND 0x01 \<noteq> 0 then
       let pl = (if ses_opcode pp = UET_READ then max_pl else pkt_payload_len pp) in
       Some (if unat pl > unat req_len then ucast req_len else pl)
     else do {
       w \<leftarrow> rd64 b (pp_ses pp + 32);
       Some (ucast (drop_bit 32 (w AND 0x00003fff00000000))) } }"

section \<open>The stages of the parser\<close>

fun parse_eth_loop :: "uet_inst \<Rightarrow> bytes \<Rightarrow> nat \<Rightarrow> nat \<Rightarrow> uet_parsed_pkt \<Rightarrow> pstage" where
  "parse_eth_loop uet b etype_off tags_left pp = do {
     et \<leftarrow> rd16 b etype_off;
     let pp = pp\<lparr>ethertype := et\<rparr>;
     if et = ETH_P_IP \<or> et = ETH_P_IPV6 then Some (0, pp, eth_len pp)
     else if et = ETH_P_8021Q then
       (case tags_left of
          0 \<Rightarrow> Some (- EINVAL, pp, eth_len pp)
        | Suc n \<Rightarrow> parse_eth_loop uet b (etype_off + VLAN_TAG_LEN) n (pp\<lparr>eth_len := eth_len pp + 4\<rparr>))
     else if et = ucast (uet_ipproto uet) then Some (0, pp, eth_len pp)
     else Some (- EINVAL, pp, eth_len pp) }"

definition parse_ip :: "uet_inst \<Rightarrow> bytes \<Rightarrow> uet_parsed_pkt \<Rightarrow> u16 \<Rightarrow> pstage" where
  "parse_ip uet b pp cur_len = (let pp = pp\<lparr>pp_ip := unat cur_len\<rparr> in do {
     v \<leftarrow> rd8 b (pp_ip pp);
     let ver = drop_bit 4 (v AND 0xf0);
     let et = (if ethertype pp = ucast (uet_ipproto uet) then
                 (if ver = 4 then ETH_P_IP else if ver = 6 then ETH_P_IPV6 else 0)
               else ethertype pp);
     if et = ETH_P_IP then do {
       proto \<leftarrow> rd8 b (pp_ip pp + 9);
       tl \<leftarrow> rd16 b (pp_ip pp + 2);
       let pp = pp\<lparr>pp_is_ipv6 := False, ip_protocol := proto, ip_len := push_bit 2 (ucast (v AND 0x0f)),
                   ip_payload_len := tl - 20\<rparr>;
       Some (0, pp, cur_len + ip_len pp) }
     else if et = ETH_P_IPV6 then do {
       (rc, pp) \<leftarrow> uet_get_ipv6_nexthdr uet b (pp\<lparr>pp_is_ipv6 := True\<rparr>);
       Some (rc, pp, if rc \<noteq> 0 then cur_len else cur_len + ip_len pp) }
     else Some (- EINVAL, pp, cur_len) })"

definition parse_entropy :: "uet_inst \<Rightarrow> bytes \<Rightarrow> uet_parsed_pkt \<Rightarrow> u16 \<Rightarrow> pstage" where
  "parse_entropy uet b pp cur_len =
     (if ip_protocol pp = uet_ipproto uet then do {
        e \<leftarrow> rd16 b (unat cur_len);
        Some (0, pp\<lparr>entropy_val := e, entropy_len := 4\<rparr>, cur_len + 4) }
      else if ip_protocol pp = IPPROTO_UDP then
        (if uet_parse_chk_next_field pp cur_len 8 \<noteq> 0
         then Some (uet_parse_chk_next_field pp cur_len 8, pp, cur_len)
         else do {
           dport \<leftarrow> rd16 b (unat cur_len + 2);
           if dport \<noteq> uet_udp_port uet then Some (- EINVAL, pp, cur_len)
           else do {
             sport \<leftarrow> rd16 b (unat cur_len);
             Some (0, pp\<lparr>entropy_val := sport, udp_len := 8\<rparr>, cur_len + 8) } })
      else Some (- EINVAL, pp, cur_len))"

text \<open>The security header, when the prologue announces one; the last component is the
  prologue of the PDS header behind it.\<close>

definition parse_sec :: "bytes \<Rightarrow> uet_parsed_pkt \<Rightarrow> u16 \<Rightarrow> (int \<times> uet_parsed_pkt \<times> u16 \<times> u16) option" where
  "parse_sec b pp cur_len =
     (if uet_parse_chk_next_field pp cur_len 2 \<noteq> 0
      then Some (uet_parse_chk_next_field pp cur_len 2, pp, cur_len, 0)
      else do {
        w \<leftarrow> rd16 b (unat cur_len);
        if prlg_type w = UET_PDS_TYPE_SECURITY then do {
          t \<leftarrow> rd32 b (unat cur_len);
          let pp = pp\<lparr>pp_sec := Some (unat cur_len), pds_type := prlg_type w,
                      sec_an := (if t AND 0x01000000 \<noteq> 0 then 1 else 0), sec_sdi := t AND 0x00ffffff\<rparr>;
          pp \<leftarrow> (if t AND 0x04000000 \<noteq> 0 then do {
                   ssi \<leftarrow> rd32 b (unat cur_len + 4);
                   e \<leftarrow> rd64 b (unat cur_len + 8);
                   Some (pp\<lparr>sec_ssi_valid := True, sec_ssi := ssi, sec_tsc := e, sec_len := 16\<rparr>) }
                 else do {
                   e \<leftarrow> rd64 b (unat cur_len + 4);
                   Some (pp\<lparr>sec_ssi_valid := False, sec_tsc := e, sec_len := 12\<rparr>) });
          let pp = pp\<lparr>sec_epoch := ucast (drop_bit 48 (sec_tsc pp)),
                      sec_tsc := sec_tsc pp AND 0x0000ffffffffffff\<rparr>;
          let cur_len = cur_len + sec_len pp;
          if uet_parse_chk_next_field pp cur_len 2 \<noteq> 0
          then Some (uet_parse_chk_next_field pp cur_len 2, pp, cur_len, 0)
          else do {
            w \<leftarrow> rd16 b (unat cur_len);
            Some (0, pp\<lparr>pds_type := prlg_type w, trailer_len := 16\<rparr>, cur_len, w) } }
        else Some (0, pp\<lparr>pds_type := prlg_type w, trailer_len := 4\<rparr>, cur_len, w) })"

definition parse_req :: "bytes \<Rightarrow> uet_parsed_pkt \<Rightarrow> uet_parsed_pkt option" where
  "parse_req b pp = (let h = pp_pds pp in do {
     psn \<leftarrow> rd32 b (h + 4);
     spdcid \<leftarrow> rd16 b (h + 8);
     cpo \<leftarrow> rd16 b (h + 2);
     last \<leftarrow> rd16 b (h + 10);
     let pp = pp\<lparr>pds_len := 12, pds_psn := psn, pds_spdcid := spdcid, pds_clear_psn := scast cpo + psn\<rparr>;
     Some (if pds_flags pp AND UET_PDS_REQ_FLAGS_SYN \<noteq> 0
           then pp\<lparr>pds_syn_off := ucast (last AND 0x0fff)\<rparr> else pp\<lparr>pds_dpdcid := last\<rparr>) })"

definition parse_ack :: "bytes \<Rightarrow> uet_parsed_pkt \<Rightarrow> uet_parsed_pkt option" where
  "parse_ack b pp = (let h = pp_pds pp in do {
     cack \<leftarrow> rd32 b (h + 4);
     off \<leftarrow> rd16 b (h + 2);
     spdcid \<leftarrow> rd16 b (h + 8);
     dpdcid \<leftarrow> rd16 b (h + 10);
     let pp = pp\<lparr>pds_len := 12, pds_cack_psn := cack, pds_psn := scast off + cack,
                 pds_spdcid := spdcid, pds_dpdcid := dpdcid\<rparr>;
     pp \<leftarrow> (if pds_type pp = UET_PDS_TYPE_ACK_CC \<or> pds_type pp = UET_PDS_TYPE_ACK_CCX then do {
              tf \<leftarrow> rd8 b (h + 12);
              mpr \<leftarrow> rd8 b (h + 13);
              so \<leftarrow> rd16 b (h + 14);
              bm \<leftarrow> rd64 b (h + 16);
              st \<leftarrow> rd64 b (h + 24);
              Some (pp\<lparr>pds_len := 32, pds_cc_type := drop_bit 4 (tf AND 0xf0), pds_cc_flags := tf AND 0x0f,
                       pds_mpr := mpr, pds_sack_base_psn := scast so + cack, pds_sack_bitmap := bm,
                       pds_cc_state := st\<rparr>) }
            else Some pp);
     pp \<leftarrow> (if pds_type pp = UET_PDS_TYPE_ACK_CCX then do {
              x \<leftarrow> rd64 b (h + 32);
              Some (pp\<lparr>pds_len := 40, pds_ccx_state := x\<rparr>) }
            else Some pp);
     if pds_type pp = UET_PDS_TYPE_ACK \<and> pds_flags pp AND UET_PDS_ACK_FLAGS_EPSN \<noteq> 0 then do {
       e \<leftarrow> rd32 b (h + 12);
       Some (pp\<lparr>pds_payload := e, pds_len := 16\<rparr>) }
     else Some pp })"

definition parse_nack :: "bytes \<Rightarrow> uet_parsed_pkt \<Rightarrow> uet_parsed_pkt option" where
  "parse_nack b pp = (let h = pp_pds pp in do {
     psn \<leftarrow> rd32 b (h + 4);
     spdcid \<leftarrow> rd16 b (h + 8);
     dpdcid \<leftarrow> rd16 b (h + 10);
     code \<leftarrow> rd8 b (h + 2);
     pl \<leftarrow> rd32 b (h + 12);
     Some (pp\<lparr>pds_len := 16, pds_psn := psn, pds_spdcid := spdcid, pds_dpdcid := dpdcid,
              pds_nack_code := code, pds_payload := pl\<rparr>) })"

definition parse_ctrl :: "bytes \<Rightarrow> uet_parsed_pkt \<Rightarrow> uet_parsed_pkt option" where
  "parse_ctrl b pp = (let h = pp_pds pp in do {
     psn \<leftarrow> rd32 b (h + 4);
     spdcid \<leftarrow> rd16 b (h + 8);
     opaque \<leftarrow> rd16 b (h + 2);
     last \<leftarrow> rd16 b (h + 10);
     pl \<leftarrow> rd32 b (h + 12);
     let pp = pp\<lparr>pds_len := 16, pds_ctrl_type := next_hdr pp, pds_psn := psn, pds_spdcid := spdcid,
                 pds_ctrl_payload := pl\<rparr>;
     let pp = (if pds_ctrl_type pp = UET_PDS_CTRL_TYPE_PROBE then pp\<lparr>pds_probe_opaque := opaque\<rparr> else pp);
     Some (if pds_flags pp AND UET_PDS_CTRL_FLAGS_SYN \<noteq> 0
           then pp\<lparr>pds_pdc_info := ucast (drop_bit 12 (last AND 0xf000)), pds_syn_off := ucast (last AND 0x0fff)\<rparr>
           else pp\<lparr>pds_dpdcid := last\<rparr>) })"

definition ses_ext_len :: "u8 \<Rightarrow> u16" where
  "ses_ext_len opcode =
     (if opcode = UET_ATOMIC \<or> opcode = UET_FETCH_ATOMIC \<or> opcode = UET_TSEND_ATOMIC
         \<or> opcode = UET_TSEND_FETCH_ATOMIC then 4
      else if opcode = UET_RNDV_SEND \<or> opcode = UET_RNDV_TSEND then 24
      else if opcode = UET_SYNC_WRITE then 4
      else if opcode = UET_SYNC_ATOMIC then 8 else 0)"

definition parse_ses_req :: "uet_inst \<Rightarrow> bytes \<Rightarrow> uet_parsed_pkt \<Rightarrow> u16 \<Rightarrow> pstage" where
  "parse_ses_req uet b pp cur_len =
     (if uet_parse_chk_next_field pp cur_len 44 \<noteq> 0
      then Some (uet_parse_chk_next_field pp cur_len 44, pp, cur_len)
      else do {
        op \<leftarrow> rd8 b (pp_ses pp);
        mid \<leftarrow> rd16 b (pp_ses pp + 2);
        let op = op AND 0x3f;
        let pp = pp\<lparr>ses_opcode := op, ses_msg_id := mid, ses_len := 44 + ses_ext_len op\<rparr>;
        let cur_len = cur_len + ses_len pp;
        let pp = pp\<lparr>pp_payload := unat cur_len, hdr_len := cur_len,
                    pkt_payload_len := pp_pkt_len pp - (cur_len + trailer_len pp)\<rparr>;
        pl \<leftarrow> uet_get_ses_req_payload_len b pp (word_of_nat (max_payload_len uet));
        let pp = pp\<lparr>ses_payload_len := pl\<rparr>;
        if op \<noteq> UET_READ then
          (if uet_parse_chk_next_field pp cur_len pl \<noteq> 0
           then Some (uet_parse_chk_next_field pp cur_len pl, pp, cur_len)
           else Some (0, pp, cur_len + pl))
        else Some (0, pp, cur_len) })"

definition parse_ses_rsp :: "bytes \<Rightarrow> uet_parsed_pkt \<Rightarrow> u16 \<Rightarrow> pstage" where
  "parse_ses_rsp b pp cur_len = do {
     op \<leftarrow> rd8 b (pp_ses pp);
     mid \<leftarrow> rd16 b (pp_ses pp + 2);
     let pp = pp\<lparr>ses_opcode := op AND 0x3f, ses_msg_id := mid\<rparr>;
     if uet_parse_chk_next_field pp cur_len 12 \<noteq> 0
     then Some (uet_parse_chk_next_field pp cur_len 12, pp, cur_len)
     else Some (0, pp\<lparr>ses_len := 12, hdr_len := cur_len + 12\<rparr>, cur_len + 12) }"

definition parse_ses_rsp_d :: "bytes \<Rightarrow> uet_parsed_pkt \<Rightarrow> u16 \<Rightarrow> pstage" where
  "parse_ses_rsp_d b pp cur_len =
     (if uet_parse_chk_next_field pp cur_len 20 \<noteq> 0
      then Some (uet_parse_chk_next_field pp cur_len 20, pp, cur_len)
      else do {
        op \<leftarrow> rd8 b (pp_ses pp);
        mid \<leftarrow> rd16 b (pp_ses pp + 2);
        w \<leftarrow> rd32 b (pp_ses pp + 8);
        let pp = pp\<lparr>ses_len := 20, pp_payload := pp_ses pp + 20, hdr_len := cur_len,
                    ses_opcode := op AND 0x3f, ses_msg_id := mid,
                    pkt_payload_len := pp_pkt_len pp - (cur_len + trailer_len pp),
                    ses_payload_len := ucast (w AND 0x3fff)\<rparr>;
        if uet_parse_chk_next_field pp cur_len (ses_payload_len pp) \<noteq> 0
        then Some (uet_parse_chk_next_field pp cur_len (ses_payload_len pp), pp, cur_len)
        else Some (0, pp, cur_len + ses_payload_len pp) })"

definition parse_ses :: "uet_inst \<Rightarrow> bytes \<Rightarrow> uet_parsed_pkt \<Rightarrow> u16 \<Rightarrow> pstage" where
  "parse_ses uet b pp cur_len = (let pp = pp\<lparr>pp_ses := unat cur_len\<rparr> in
     if next_hdr pp = UET_HDR_NONE then Some (0, pp\<lparr>ses_len := 0, ses_payload_len := 0\<rparr>, cur_len)
     else if next_hdr pp = UET_HDR_REQ_STD then parse_ses_req uet b pp cur_len
     else if next_hdr pp = UET_HDR_RSP then parse_ses_rsp b pp cur_len
     else if next_hdr pp = UET_HDR_RSP_DATA then parse_ses_rsp_d b pp cur_len
     else Some (- EINVAL, pp, cur_len))"

definition parse_pds :: "uet_inst \<Rightarrow> bytes \<Rightarrow> uet_parsed_pkt \<Rightarrow> u16 \<Rightarrow> u16 \<Rightarrow> pstage" where
  "parse_pds uet b pp cur_len w =
     (let pp = pp\<lparr>pp_pds := unat cur_len, next_hdr := prlg_next w, pds_flags := prlg_flags w\<rparr> in
      if pds_type pp = UET_PDS_TYPE_RUD_REQ \<or> pds_type pp = UET_PDS_TYPE_ROD_REQ then do {
        pp \<leftarrow> parse_req b pp;
        parse_ses uet b pp (cur_len + pds_len pp) }
      else if pds_type pp = UET_PDS_TYPE_UUD_REQ then parse_ses uet b (pp\<lparr>pds_len := 4\<rparr>) (cur_len + 4)
      else if pds_type pp = UET_PDS_TYPE_ACK \<or> pds_type pp = UET_PDS_TYPE_ACK_CC
          \<or> pds_type pp = UET_PDS_TYPE_ACK_CCX then do {
        pp \<leftarrow> parse_ack b pp;
        parse_ses uet b pp (cur_len + pds_len pp) }
      else if pds_type pp = UET_PDS_TYPE_NACK then do {
        pp \<leftarrow> parse_nack b pp;
        Some (0, pp, cur_len) }
      else if pds_type pp = UET_PDS_TYPE_CTRL then do {
        pp \<leftarrow> parse_ctrl b pp;
        Some (0, pp, cur_len) }
      else if pds_type pp = UET_PDS_TYPE_RUDI_REQ \<or> pds_type pp = UET_PDS_TYPE_RUDI_RESP then do {
        pid \<leftarrow> rd32 b (pp_pds pp + 4);
        parse_ses uet b (pp\<lparr>pds_len := 8, pds_rudi_pkt_id := pid\<rparr>) (cur_len + 8) }
      else Some (- EINVAL, pp, cur_len))"

definition uet_parse_pkt :: "uet_inst \<Rightarrow> bytes \<Rightarrow> nat \<Rightarrow> (int \<times> uet_parsed_pkt) option" where
  "uet_parse_pkt uet b pkt_len = map_option (\<lambda>(rc, pp, cur_len). (rc, pp))
     (pthen (pthen (pthen
        (parse_eth_loop uet b 12 UET_MAX_VLAN_TAGS
           (pp_zero\<lparr>pp_data := b, pp_pkt_len := word_of_nat pkt_len, eth_len := 14\<rparr>))
        (parse_ip uet b))
        (parse_entropy uet b))
        (\<lambda>pp cur_len. do {
           (rc, pp, cur_len, w) \<leftarrow> parse_sec b pp cur_len;
           if rc \<noteq> 0 then Some (rc, pp, cur_len) else parse_pds uet b pp cur_len w }))"

section \<open>The receive filter\<close>

record pkt_kind =
  pkt_is_ack :: bool
  pkt_is_rd_rsp :: bool
  pkt_is_ctrl :: bool
  pkt_is_nack :: bool

definition uet_pds_pkt_type_valid :: "bytes \<Rightarrow> bool \<Rightarrow> (bool \<times> pkt_kind) option" where
  "uet_pds_pkt_type_valid b is_ipv6 =
     (let none = \<lparr>pkt_is_ack = False, pkt_is_rd_rsp = False, pkt_is_ctrl = False, pkt_is_nack = False\<rparr>;
          h = ETHHDR_LEN + (if is_ipv6 then IPV6HDR_LEN else IPHDR_LEN) + ENTROPY_LEN in do {
        w \<leftarrow> rd16 b h;
        w \<leftarrow> (if prlg_type w = UET_PDS_TYPE_SECURITY then do {
                t \<leftarrow> rd32 b h;
                rd16 b (h + (if t AND 0x04000000 \<noteq> 0 then UET_SEC_SSI_LEN else UET_SEC_LEN)) }
              else Some w);
        let ty = prlg_type w;
        let nxt = prlg_next w;
        let req = (ty = UET_PDS_TYPE_ROD_REQ \<or> ty = UET_PDS_TYPE_RUD_REQ);
        let ack = (ty = UET_PDS_TYPE_ACK \<or> ty = UET_PDS_TYPE_ACK_CC \<or> ty = UET_PDS_TYPE_ACK_CCX);
        Some (if ty = UET_PDS_TYPE_UUD_REQ then (True, none)
          else if ty = UET_PDS_TYPE_NACK then (True, none\<lparr>pkt_is_nack := True\<rparr>)
          else if ty = UET_PDS_TYPE_CTRL then (True, none\<lparr>pkt_is_ctrl := True\<rparr>)
          else if ty = UET_PDS_TYPE_RUDI_REQ \<or> ty = UET_PDS_TYPE_RUDI_RESP then (True, none)
          else if \<not> req \<and> \<not> ack then (False, none)
          else if nxt = UET_HDR_REQ_SMALL \<or> nxt = UET_HDR_REQ_MEDIUM \<or> nxt = UET_HDR_REQ_STD then (req, none)
          else if nxt = UET_HDR_NONE \<or> nxt = UET_HDR_RSP then (ack, none\<lparr>pkt_is_ack := ack\<rparr>)
          else if nxt = UET_HDR_RSP_DATA \<or> nxt = UET_HDR_RSP_DATA_SMALL then
            (if ack then (True, none\<lparr>pkt_is_ack := True\<rparr>) else (True, none\<lparr>pkt_is_rd_rsp := True\<rparr>))
          else (False, none)) })"

text \<open>\<open>tot_len\<close> is compared as it lies in memory, so both sides are byte-swapped.\<close>

definition uet_pds_rx_pkt_chk :: "uet_inst \<Rightarrow> bytes \<Rightarrow> nat \<Rightarrow> (bool \<times> pkt_kind) option" where
  "uet_pds_rx_pkt_chk uet b pkt_size =
     (let none = \<lparr>pkt_is_ack = False, pkt_is_rd_rsp = False, pkt_is_ctrl = False, pkt_is_nack = False\<rparr> in do {
        dmac \<leftarrow> rdn b 0 6;
        et \<leftarrow> rd16 b 12;
        if dmac \<noteq> nic_mac_addr uet then Some (False, none)
        else if et = ETH_P_IPV6 then do {
          v \<leftarrow> rd8 b 14;
          nh \<leftarrow> rd8 b 20;
          pl \<leftarrow> rd16 b 18;
          if drop_bit 4 v \<noteq> 6 then Some (False, none)
          else if nh \<noteq> uet_ipproto uet then Some (False, none)
          else if unat pl + IPV6HDR_LEN + ETHHDR_LEN > pkt_size then Some (False, none)
          else uet_pds_pkt_type_valid b True }
        else if et = ETH_P_IP then do {
          v \<leftarrow> rd8 b 14;
          proto \<leftarrow> rd8 b 23;
          tl \<leftarrow> rd16 b 16;
          if drop_bit 4 v \<noteq> 4 then Some (False, none)
          else if v AND 0x0f \<noteq> 5 then Some (False, none)
          else if proto \<noteq> uet_ipproto uet then Some (False, none)
          else if htons tl < htons (word_of_nat (min_ip_pkt_size uet)) then Some (False, none)
          else if htons tl > htons (word_of_nat pkt_size - word_of_nat (l2_hdr_size uet)) then Some (False, none)
          else do {
            c \<leftarrow> uet_ipv4_csum b 14;
            if c \<noteq> 0 then Some (False, none) else uet_pds_pkt_type_valid b False } }
        else Some (False, none) })"

end
