(* ===== verification/ParseSpec.thy ===== *)
theory ParseSpec
  imports Parse
begin

unbundle bit_operations_syntax

text \<open>
  Properties of the packet parser of \<open>src/util/uet_util.c\<close> and of the receive filter of
  \<open>src/util/uet_pkt_chk.c\<close>.
\<close>

section \<open>Reference definitions\<close>

definition uet0 :: uet_inst where
  "uet0 = \<lparr>uet_ipproto = 253, uet_udp_port = 4793, max_payload_len = 4096, nic_mac_addr = replicate 6 0, nic_ipv4_addr = 0,
     nic_ipv6_addr = replicate 16 0, l2_hdr_size = 14, min_ip_pkt_size = 36, max_pkt_size = 1514, tx_timeout = 5, max_tx_retries = 5,
     msl = 2000, ack_ip_tos = 0, max_ack_data = 16, per_pkt_ack_enabled = False, ack_gen_trigger = 16384, ack_gen_min_pkt_add = 1024,
     ack_type = 0, default_msg_ip_tos = 0\<rparr>"

definition req_payload_ok :: "uet_parsed_pkt \<Rightarrow> bool" where
  "req_payload_ok pp \<longleftrightarrow> (next_hdr pp = UET_HDR_REQ_STD \<and> ses_opcode pp \<noteq> UET_READ \<longrightarrow>
     unat (hdr_len pp) + unat (ses_payload_len pp) \<le> unat (pp_pkt_len pp) \<and> pp_payload pp = unat (hdr_len pp))"

abbreviation (input) keeps_len :: "uet_parsed_pkt \<Rightarrow> int \<times> uet_parsed_pkt \<times> 'c \<Rightarrow> bool" where
  "keeps_len pp r \<equiv> pp_pkt_len (fst (snd r)) = pp_pkt_len pp"

definition demo_req :: bytes where
  "demo_req =
    [0, 0, 0, 0, 0, 0, 0, 0, 0, 0, 0, 0, 8, 0, 69, 0, 0, 0, 0, 0, 0, 0, 0, 253, 0, 0, 0, 0, 0, 0, 0, 0,
     0, 0, 0, 0, 0, 0, 17, 128, 0, 0, 0, 0, 0, 0, 0, 0, 0, 0, 1, 1, 0, 0, 0, 0, 0, 0, 0, 0, 0, 0, 0, 0,
     0, 0, 0, 0, 0, 0, 0, 0, 0, 0, 0, 0, 0, 0, 0, 0, 0, 0, 0, 0, 0, 0, 0, 0, 0, 0, 0, 0, 0, 4, 1, 2, 3,
     4, 0, 0, 0, 0]"

text \<open>A frame of 286 bytes with an IPv4 total length of 272, the protocol of UET, a correct header
  checksum and a request.\<close>

definition frame272 :: bytes where
  "frame272 = replicate 12 0 @ [8, 0, 0x45, 0, 1, 16, 0, 0, 0, 0, 0, 253, 0xb8, 0xf2] @ replicate 12 0 @ [17, 128] @ replicate 246 0"

section \<open>The chain of IPv6 extension headers\<close>

lemma ext_hdr_len: "unat (push_bit 3 (ucast (hl :: u8) + 1) :: u16) = 8 * (unat hl + 1)"
proof -
  have h: "unat hl < 256" using unsigned_less [where ?'a = nat and w = hl] by simp
  have p: "unat (push_bit 3 x) = 8 * unat x" if "unat x \<le> 256" for x :: u16
    using that by (simp add: push_bit_eq_mult unat_word_ariths)
  have "unat (ucast hl :: u16) = unat hl" using h by (simp add: unsigned_ucast_eq take_bit_nat_eq_self)
  then have "unat (ucast hl + 1 :: u16) = unat hl + 1" using h by (simp add: unat_word_ariths)
  then show ?thesis using p h by simp
qed

lemma ipv6_ext_loop_total:
  assumes "unat (pp_pkt_len pp) \<le> length b" "unat (pp_pkt_len pp) \<le> 60000" "pp_ip pp = unat (eth_len pp)" "unat (eth_len pp) \<le> 100"
    and "unat (ip_len pp) \<le> unat (pp_pkt_len pp) + 2048" "unat (pp_pkt_len pp) < 8 * fuel + unat (ip_len pp)"
  shows "\<exists>rc pp'. ipv6_ext_loop uet b (Suc fuel) pp = Some (rc, pp')
    \<and> (rc = 0 \<longrightarrow> ip_protocol pp' \<in> {uet_ipproto uet, IPPROTO_UDP} \<and> unat (ip_len pp') \<le> unat (pp_pkt_len pp) + 2048)"
  using assms
proof (induction fuel arbitrary: pp)
  case 0
  have "unat (eth_len pp + ip_len pp) = unat (eth_len pp) + unat (ip_len pp)"
    using 0 by (simp add: unat_word_ariths)
  then show ?case using 0 by (simp add: uet_parse_chk_next_field_def)
next
  case (Suc fuel)
  let ?o = "eth_len pp + ip_len pp"
  have off: "unat ?o = unat (eth_len pp) + unat (ip_len pp)"
    using Suc.prems by (simp add: unat_word_ariths)
  show ?case
  proof (cases "(ip_protocol pp = uet_ipproto uet \<or> ip_protocol pp = IPPROTO_UDP) \<or> \<not> uet_is_valid_ipv6_ext_hdr (ip_protocol pp)
      \<or> uet_parse_chk_next_field pp ?o 2 \<noteq> 0")
    case True
    then show ?thesis using Suc.prems by (auto simp: uet_parse_chk_next_field_def)
  next
    case False
    then have fit: "unat (eth_len pp) + unat (ip_len pp) + 2 \<le> unat (pp_pkt_len pp)"
      using off by (simp add: uet_parse_chk_next_field_def split: if_splits)
    let ?i = "pp_ip pp + unat (ip_len pp)"
    have rd: "rd8 b ?i = Some (b ! ?i)" "rd8 b (?i + 1) = Some (b ! (?i + 1))"
      using fit Suc.prems by (simp_all add: rd8_def)
    let ?pp = "pp\<lparr>ip_protocol := b ! ?i, ip_len := ip_len pp + push_bit 3 (ucast (b ! (?i + 1)) + 1)\<rparr>"
    have "unat (b ! (?i + 1)) < 256" using unsigned_less [where ?'a = nat and w = "b ! (?i + 1)"] by simp
    then have len: "unat (ip_len ?pp) = unat (ip_len pp) + 8 * (unat (b ! (?i + 1)) + 1)"
      "8 * (unat (b ! (?i + 1)) + 1) \<le> 2048"
      using fit Suc.prems(2) ext_hdr_len [of "b ! (?i + 1)"] by (simp_all add: unat_word_ariths)
    have "ipv6_ext_loop uet b (Suc (Suc fuel)) pp = ipv6_ext_loop uet b (Suc fuel) ?pp"
      using False rd by simp
    then show ?thesis using Suc.IH [of ?pp] Suc.prems fit len by auto
  qed
qed

text \<open>C20: the walk over the IPv6 extension headers ends: for a frame of at most 60000 bytes that
  lies in its buffer, whatever its contents, the loop stops within its bound of 8192 headers,
  reads nothing outside the frame, and a success names UDP or the UET protocol as the next
  header.\<close>

theorem ipv6_nexthdr_terminates:
  assumes "unat (pp_pkt_len pp) \<le> 60000" "unat (pp_pkt_len pp) \<le> length b"
    and "pp_ip pp = unat (eth_len pp)" "unat (eth_len pp) \<le> 100" "unat (eth_len pp) + 40 \<le> length b"
  shows "\<exists>rc pp'. uet_get_ipv6_nexthdr uet b pp = Some (rc, pp')
    \<and> (rc = 0 \<longrightarrow> ip_protocol pp' \<in> {uet_ipproto uet, IPPROTO_UDP} \<and> unat (ip_len pp') \<le> unat (pp_pkt_len pp) + 2048)"
proof -
  have fuel: "IPV6_EXT_FUEL = Suc 8191" by (simp add: IPV6_EXT_FUEL_def)
  obtain pl nh where "rd16 b (pp_ip pp + 4) = Some pl" "rd8 b (pp_ip pp + 6) = Some nh"
    using assms(3,5) by (simp add: rd8_def rd16_def rdn_def)
  then show ?thesis
    using ipv6_ext_loop_total [of "pp\<lparr>ip_len := 40, ip_payload_len := pl, ip_protocol := nh\<rparr>" b 8191 uet] assms
    by (simp add: uet_get_ipv6_nexthdr_def fuel del: ipv6_ext_loop.simps)
qed

theorem ipv6_nexthdr_terminates_witness:
  "\<exists>rc pp'. uet_get_ipv6_nexthdr uet0 (replicate 60 0) (pp_zero\<lparr>pp_pkt_len := 60, eth_len := 14, pp_ip := 14\<rparr>) = Some (rc, pp')
    \<and> (rc = 0 \<longrightarrow> ip_protocol pp' \<in> {uet_ipproto uet0, IPPROTO_UDP} \<and> unat (ip_len pp') \<le> 60 + 2048)"
  using ipv6_nexthdr_terminates [of "pp_zero\<lparr>pp_pkt_len := 60, eth_len := 14, pp_ip := 14\<rparr>" "replicate 60 0" uet0] by simp

section \<open>The payload of a request\<close>

lemma parse_ses_payload:
  "pred_option (\<lambda>(rc, pp', c). pp_pkt_len pp' = pp_pkt_len pp \<and> (rc = 0 \<longrightarrow> req_payload_ok pp')) (parse_ses uet b pp cur_len)"
  unfolding parse_ses_def parse_ses_req_def parse_ses_rsp_def parse_ses_rsp_d_def
  by (intro opt_vcg) (simp_all add: req_payload_ok_def uet_parse_chk_next_field_def split: if_splits)

lemma parse_ack_keeps:
  "pred_option (\<lambda>pp'. pp_pkt_len pp' = pp_pkt_len pp \<and> pds_type pp' = pds_type pp) (parse_ack b pp)"
  unfolding parse_ack_def
  by (intro opt_vcg) (auto simp: bind_eq_Some_conv split: if_splits)

lemma parse_pds_keeps:
  "pred_option (\<lambda>pp'. pp_pkt_len pp' = pp_pkt_len pp \<and> pds_type pp' = pds_type pp) (parse_req b pp)"
  "pred_option (\<lambda>pp'. pp_pkt_len pp' = pp_pkt_len pp \<and> pds_type pp' = pds_type pp) (parse_nack b pp)"
  "pred_option (\<lambda>pp'. pp_pkt_len pp' = pp_pkt_len pp \<and> pds_type pp' = pds_type pp) (parse_ctrl b pp)"
  unfolding parse_req_def parse_nack_def parse_ctrl_def
  by (intro opt_vcg; simp)+

lemma parse_pds_payload:
  "pred_option (\<lambda>(rc, pp', c). pp_pkt_len pp' = pp_pkt_len pp
     \<and> (rc = 0 \<longrightarrow> pds_type pp' \<notin> {UET_PDS_TYPE_NACK, UET_PDS_TYPE_CTRL} \<longrightarrow> req_payload_ok pp')) (parse_pds uet b pp cur_len w)"
  unfolding parse_pds_def
  by (intro opt_let opt_if parse_pds_keeps [THEN opt_call] parse_ack_keeps [THEN opt_call] opt_bind opt_conseq [OF parse_ses_payload] opt_Some)
    (auto simp: case_prod_beta)

lemma parse_eth_keeps: "pred_option (keeps_len pp) (parse_eth_loop uet b off n pp)"
proof (induction n arbitrary: off pp)
  case 0
  then show ?case by (subst parse_eth_loop.simps) (intro opt_vcg; simp)
next
  case (Suc n)
  show ?case
    by (subst parse_eth_loop.simps)
      (intro opt_let opt_bind opt_if opt_Some; simp add: opt_conseq [OF Suc] del: parse_eth_loop.simps)
qed

lemma ipv6_ext_keeps: "pred_option (\<lambda>(rc, pp'). pp_pkt_len pp' = pp_pkt_len pp) (ipv6_ext_loop uet b n pp)"
proof (induction n arbitrary: pp)
  case (Suc n)
  show ?case
    by (subst ipv6_ext_loop.simps) (intro opt_bind opt_if opt_Some opt_conseq [OF Suc]; auto)
qed simp

lemma ipv6_nexthdr_keeps: "pred_option (\<lambda>(rc, pp'). pp_pkt_len pp' = pp_pkt_len pp) (uet_get_ipv6_nexthdr uet b pp)"
  unfolding uet_get_ipv6_nexthdr_def
  by (intro opt_bind opt_conseq [OF ipv6_ext_keeps]) auto

lemma parse_ip_keeps: "pred_option (keeps_len pp) (parse_ip uet b pp c)"
  unfolding parse_ip_def
  by (intro opt_let opt_if opt_call [OF ipv6_nexthdr_keeps] opt_bind opt_Some) (auto intro: opt_Some)

lemma parse_entropy_keeps: "pred_option (keeps_len pp) (parse_entropy uet b pp c)"
  unfolding parse_entropy_def by (intro opt_vcg) simp_all

lemma parse_sec_keeps: "pred_option (keeps_len pp) (parse_sec b pp c)"
  unfolding parse_sec_def by (intro opt_vcg) (auto simp: bind_eq_Some_conv split: if_splits)

lemma pthen_rule:
  "pred_option P m \<Longrightarrow> (\<And>rc pp c. P (rc, pp, c) \<Longrightarrow> rc \<noteq> 0 \<Longrightarrow> Q (rc, pp, c)) \<Longrightarrow>
    (\<And>pp c. P (0, pp, c) \<Longrightarrow> pred_option Q (f pp c)) \<Longrightarrow> pred_option Q (pthen m f)"
  unfolding pthen_def by (cases m) auto

text \<open>C21: the payload of a parsed request lies in the packet: when the parser succeeds on a packet
  that is neither a NACK nor a control packet, and the packet carries a standard request other
  than a read, the payload starts behind the headers and ends within the packet.\<close>

theorem parse_req_payload_in_packet:
  assumes "uet_parse_pkt uet b pkt_len = Some (0, pp)" "pds_type pp \<notin> {UET_PDS_TYPE_NACK, UET_PDS_TYPE_CTRL}"
    and "next_hdr pp = UET_HDR_REQ_STD" "ses_opcode pp \<noteq> UET_READ" "pkt_len < 2 ^ 16"
  shows "unat (hdr_len pp) + unat (ses_payload_len pp) \<le> pkt_len \<and> pp_payload pp = unat (hdr_len pp)"
proof -
  let ?P = "\<lambda>(rc, pp, c :: u16). pp_pkt_len pp = word_of_nat pkt_len"
  let ?pp = "pp_zero\<lparr>pp_data := b, pp_pkt_len := word_of_nat pkt_len, eth_len := 14\<rparr>"
  have "pred_option (\<lambda>(rc, pp, c). pp_pkt_len pp = word_of_nat pkt_len \<and> (rc = 0 \<longrightarrow> pds_type pp \<notin> {UET_PDS_TYPE_NACK, UET_PDS_TYPE_CTRL} \<longrightarrow> req_payload_ok pp))
     (pthen (pthen (pthen (parse_eth_loop uet b 12 UET_MAX_VLAN_TAGS ?pp) (parse_ip uet b)) (parse_entropy uet b))
        (\<lambda>pp cur_len. do {
           (rc, pp, cur_len, w) \<leftarrow> parse_sec b pp cur_len;
           if rc \<noteq> 0 then Some (rc, pp, cur_len) else parse_pds uet b pp cur_len w }))"
    (is "pred_option ?Q _")
  proof (intro pthen_rule [where P = ?P and Q = ?Q] pthen_rule [where P = ?P and Q = ?P], goal_cases)
    case 1
    show ?case using parse_eth_keeps [of ?pp] by (rule opt_conseq) auto
  next
    case (3 pp c)
    then show ?case by (intro opt_conseq [OF parse_ip_keeps]) auto
  next
    case (5 pp c)
    then show ?case by (intro opt_conseq [OF parse_entropy_keeps]) auto
  next
    case (7 pp c)
    then show ?case
      by (intro opt_call [OF parse_sec_keeps]) (auto intro!: opt_Some opt_conseq [OF parse_pds_payload])
  qed auto
  then show ?thesis using assms by (auto simp: uet_parse_pkt_def req_payload_ok_def unat_of_nat)
qed

lemmas rd_eval = rd8_def rd16_def rd32_def rd64_def rdn_def be_val_def

lemma demo_req_reads:
  "rd16 demo_req 12 = Some 0x0800" "rd8 demo_req 14 = Some 0x45" "rd8 demo_req 23 = Some 253" "rd16 demo_req 16 = Some 0"
  "rd16 demo_req 34 = Some 0" "rd16 demo_req 38 = Some 0x1180" "rd32 demo_req 42 = Some 0" "rd16 demo_req 46 = Some 0"
  "rd16 demo_req 40 = Some 0" "rd16 demo_req 48 = Some 0" "rd8 demo_req 50 = Some 1" "rd16 demo_req 52 = Some 0"
  "rd32 demo_req 90 = Some 4" "rd8 demo_req 51 = Some 1"
  by (simp_all add: demo_req_def rd_eval)

lemma demo_req_parse: "\<exists>pp. uet_parse_pkt uet0 demo_req 102 = Some (0, pp) \<and> pds_type pp = UET_PDS_TYPE_RUD_REQ
   \<and> next_hdr pp = UET_HDR_REQ_STD \<and> ses_opcode pp = 1 \<and> unat (ses_payload_len pp) = 4"
proof -
  have eth: "parse_eth_loop uet0 demo_req 12 n pp = Some (0, pp\<lparr>ethertype := ETH_P_IP\<rparr>, eth_len pp)" for n pp
    by (subst parse_eth_loop.simps) (simp add: demo_req_reads)
  show ?thesis
    unfolding uet_parse_pkt_def pthen_def eth
    by (simp add: demo_req_reads uet0_def pp_zero_def parse_ip_def parse_entropy_def parse_sec_def parse_pds_def parse_req_def
      parse_ses_def parse_ses_req_def uet_get_ses_req_payload_len_def uet_parse_chk_next_field_def prlg_type_def prlg_next_def prlg_flags_def ses_ext_len_def Let_def)
qed

theorem parse_req_payload_in_packet_witness:
  "\<exists>pp. uet_parse_pkt uet0 demo_req 102 = Some (0, pp) \<and> unat (ses_payload_len pp) = 4
    \<and> unat (hdr_len pp) + unat (ses_payload_len pp) \<le> 102 \<and> pp_payload pp = unat (hdr_len pp)"
proof -
  obtain pp where pp: "uet_parse_pkt uet0 demo_req 102 = Some (0, pp)" "pds_type pp = UET_PDS_TYPE_RUD_REQ"
    "next_hdr pp = UET_HDR_REQ_STD" "ses_opcode pp = 1" "unat (ses_payload_len pp) = 4"
    using demo_req_parse by blast
  then show ?thesis using parse_req_payload_in_packet [OF pp(1)] by simp
qed

section \<open>The payload of a response with data\<close>

text \<open>C22: for a response with data the check of the payload starts at the response header and not
  behind it: a header whose length field leaves the payload up to 20 bytes past the end of the
  packet is accepted, and the payload the parser reports runs over the end of the packet.\<close>

theorem parse_rsp_data_overrun:
  assumes "rd8 b (pp_ses pp) = Some op" "rd16 b (pp_ses pp + 2) = Some mid" "rd32 b (pp_ses pp + 8) = Some w"
    and "pp_ses pp = unat cur" "unat cur + 20 \<le> unat (pp_pkt_len pp)"
    and "unat (w AND 0x3fff) + unat cur \<le> unat (pp_pkt_len pp)" "unat (pp_pkt_len pp) < unat (w AND 0x3fff) + unat cur + 20"
  shows "\<exists>pp' c. parse_ses_rsp_d b pp cur = Some (0, pp', c) \<and> pp_pkt_len pp' = pp_pkt_len pp
    \<and> unat (pp_pkt_len pp) < pp_payload pp' + unat (ses_payload_len pp')"
proof -
  have "unat (w AND 0x3fff) < 2 ^ 16"
    using assms(6) unsigned_less [where ?'a = nat and w = "pp_pkt_len pp"] by simp
  then have u: "unat (ucast (w AND 0x3fff) :: u16) = unat (w AND 0x3fff)"
    by (simp add: unsigned_ucast_eq take_bit_nat_eq_self)
  show ?thesis
    using assms u by (simp add: parse_ses_rsp_d_def uet_parse_chk_next_field_def)
qed

theorem parse_rsp_data_overrun_witness:
  "\<exists>pp' c. parse_ses_rsp_d (replicate 100 0 @ [0, 0, 0, 0, 0, 0, 0, 0, 0, 0, 0, 25, 0, 0, 0, 0, 0, 0, 0, 0, 1, 2, 3, 4, 5])
      (pp_zero\<lparr>pp_pkt_len := 125, pp_ses := 100\<rparr>) 100 = Some (0, pp', c)
    \<and> pp_pkt_len pp' = pp_pkt_len (pp_zero\<lparr>pp_pkt_len := 125, pp_ses := 100\<rparr>)
    \<and> unat (pp_pkt_len (pp_zero\<lparr>pp_pkt_len := 125, pp_ses := 100\<rparr>)) < pp_payload pp' + unat (ses_payload_len pp')"
  by (rule parse_rsp_data_overrun [where op = 0 and mid = 0 and w = 25]) (simp_all add: rd_eval nth_append)

section \<open>The IPv4 length check of the receive filter\<close>

lemma unat_htons: "unat (htons w) = 256 * (unat w mod 256) + unat w div 256"
proof -
  have 0: "push_bit 8 w AND drop_bit 8 w = 0"
    by (rule bit_word_eqI) (auto simp: bit_simps dest: bit_imp_le_length)
  have w: "unat w < 65536" using unsigned_less [where ?'a = nat and w = w] by simp
  have "unat (push_bit 8 w) = 256 * (unat w mod 256)"
    by (simp add: push_bit_eq_mult unat_word_ariths mult_mod_right mult.commute)
  moreover have "unat (drop_bit 8 w) = unat w div 256" by (simp add: drop_bit_eq_div unat_div)
  moreover have "push_bit 8 w OR drop_bit 8 w = push_bit 8 w + drop_bit 8 w"
    using word_plus_and_or [of "push_bit 8 w" "drop_bit 8 w"] 0 by simp
  moreover have "256 * (unat w mod 256) + unat w div 256 < 65536" using w by (simp add: less_mult_imp_div_less)
  ultimately show ?thesis by (simp add: htons_def unat_word_ariths)
qed

lemma frame272_reads:
  "length frame272 = 286" "rd16 frame272 12 = Some 0x0800" "rd16 frame272 16 = Some 272" "rd8 frame272 14 = Some 0x45"
  "rdn frame272 14 20 = Some [0x45, 0, 1, 16, 0, 0, 0, 0, 0, 253, 0xb8, 0xf2, 0, 0, 0, 0, 0, 0, 0, 0]" "rd16 frame272 38 = Some 0x1180"
  by (simp_all add: frame272_def rd_eval nth_append)
    (simp add: numeral_eq_Suc)

lemma frame272_csum: "uet_ipv4_csum frame272 14 = Some 0"
  by (simp add: uet_ipv4_csum_def frame272_reads uet_csum_def csum_fold.simps)

lemma frame272_type: "\<exists>kind. uet_pds_pkt_type_valid frame272 False = Some (True, kind)"
  by (simp add: uet_pds_pkt_type_valid_def frame272_reads prlg_type_def prlg_next_def)

text \<open>C23: the receive filter compares the total length of the IPv4 header in the byte order of the
  network: a packet is refused whenever the low byte of its total length is below the low byte
  of the minimum, although its total length is in range.\<close>

theorem rx_chk_refuses_valid_length:
  assumes "rd16 b 12 = Some ETH_P_IP" "rd16 b 16 = Some tl16" "34 \<le> length b"
    and "unat tl16 mod 256 < min_ip_pkt_size uet" "min_ip_pkt_size uet < 256"
  shows "\<exists>kind. uet_pds_rx_pkt_chk uet b pkt_size = Some (False, kind)"
proof -
  have "unat (word_of_nat (min_ip_pkt_size uet) :: u16) = min_ip_pkt_size uet" using assms(5) by (simp add: unat_of_nat)
  then have "htons tl16 < htons (word_of_nat (min_ip_pkt_size uet))"
    using assms(4,5) unsigned_less [where ?'a = nat and w = tl16] by (simp add: word_less_nat_alt unat_htons)
  moreover obtain d v p where "rdn b 0 6 = Some d" "rd8 b 14 = Some v" "rd8 b 23 = Some p"
    using assms(3) by (simp add: rdn_def rd8_def)
  ultimately show ?thesis
    using assms(1,2) by (simp add: uet_pds_rx_pkt_chk_def Let_def)
qed

theorem rx_chk_refuses_valid_length_witness:
  "length frame272 = 286 \<and> rd16 frame272 16 = Some 272 \<and> uet_ipv4_csum frame272 14 = Some 0
    \<and> (\<exists>kind. uet_pds_pkt_type_valid frame272 False = Some (True, kind))
    \<and> (\<exists>kind. uet_pds_rx_pkt_chk uet0 frame272 286 = Some (False, kind))"
  using rx_chk_refuses_valid_length [of frame272 272 uet0 286] frame272_reads frame272_csum frame272_type by (simp add: uet0_def)

end
