(* ===== verification/Gcm.thy ===== *)
theory Gcm
  imports Aes
begin

unbundle bit_operations_syntax

text \<open>
  Galois/counter mode of \<open>src/crypto/gcm.c\<close>: multiplication in the field of the hash, the
  start, update and finish calls, and the two one-shot calls the security layer uses. The
  buffers are values; a write past the end of the tag buffer is \<^const>\<open>None\<close>. The lemmas
  show that the hash multiplication is linear in its second argument, that an update is the
  byte-by-byte absorption of the ciphertext whatever the offset it starts at, and so that
  splitting a message over several updates does not change the result.
\<close>

section \<open>Blocks\<close>

definition get_be32 :: "bytes \<Rightarrow> nat \<Rightarrow> u32" where
  "get_be32 b i = push_bit 24 (ucast (b ! i)) OR push_bit 16 (ucast (b ! (i + 1)))
     OR push_bit 8 (ucast (b ! (i + 2))) OR ucast (b ! (i + 3))"

definition put_be32 :: "u32 \<Rightarrow> bytes \<Rightarrow> nat \<Rightarrow> bytes" where
  "put_be32 n b i = b[i := ucast (drop_bit 24 n), i + 1 := ucast (drop_bit 16 n),
     i + 2 := ucast (drop_bit 8 n), i + 3 := ucast n]"

definition xor_block :: "bytes \<Rightarrow> bytes \<Rightarrow> bytes" where
  "xor_block dst src = map2 (XOR) dst src"

definition shift_right_quad :: "nat \<Rightarrow> bytes \<Rightarrow> bytes" where
  "shift_right_quad i v =
     (let val = drop_bit 1 (get_be32 v i);
          val = (if 0 < i \<and> v ! (i - 1) AND 1 \<noteq> 0 then val OR 0x80000000 else val)
      in put_be32 val v i)"

definition shift_right_block :: "bytes \<Rightarrow> bytes" where
  "shift_right_block v = shift_right_quad 0 (shift_right_quad 4 (shift_right_quad 8 (shift_right_quad 12 v)))"

definition zero_block :: bytes where
  "zero_block = replicate 16 0"

section \<open>Multiplication in GF(2^128)\<close>

definition gcm_mult_step :: "bytes \<Rightarrow> nat \<Rightarrow> nat \<Rightarrow> bytes \<times> bytes \<Rightarrow> bytes \<times> bytes" where
  "gcm_mult_step x i j = (\<lambda>(z, v).
     (if x ! i AND push_bit (7 - j) 1 \<noteq> 0 then xor_block z v else z,
      if v ! 15 AND 1 \<noteq> 0 then (let v = shift_right_block v in v[0 := v ! 0 XOR 0xe1])
      else shift_right_block v))"

definition gcm_mult :: "bytes \<Rightarrow> bytes \<Rightarrow> bytes" where
  "gcm_mult x y = fst (fold (\<lambda>i. fold (gcm_mult_step x i) [0..<8]) [0..<16] (zero_block, y))"

section \<open>Context\<close>

abbreviation (input) GCM_ENCRYPT :: int where "GCM_ENCRYPT \<equiv> 1"
abbreviation (input) GCM_DECRYPT :: int where "GCM_DECRYPT \<equiv> 0"

record gcm_context =
  gcm_aes :: aes_context
  gcm_h :: bytes
  gcm_iv :: bytes
  gcm_hash :: bytes
  gcm_mode :: int

definition gcm_init :: gcm_context where
  "gcm_init = \<lparr>gcm_aes = aes_init, gcm_h = zero_block, gcm_iv = zero_block, gcm_hash = zero_block, gcm_mode = 0\<rparr>"

definition gcm_setkey :: "gcm_context \<Rightarrow> bytes \<Rightarrow> nat \<Rightarrow> gcm_context option" where
  "gcm_setkey ctx key keybits =
     (case aes_setkey_enc key keybits of None \<Rightarrow> None
      | Some aes \<Rightarrow> Some (ctx\<lparr>gcm_aes := aes, gcm_h := aes_encrypt aes zero_block\<rparr>))"

section \<open>Start, update, finish\<close>

fun gcm_aad :: "bytes \<Rightarrow> bytes \<Rightarrow> bytes \<Rightarrow> bytes" where
  "gcm_aad h hash p =
     (if p = [] then hash
      else let use_len = (if length p < 16 then length p else 16);
               hash = fold (\<lambda>i hash. hash[i := hash ! i XOR p ! i]) [0..<use_len] hash
           in gcm_aad h (gcm_mult h hash) (drop use_len p))"

declare gcm_aad.simps [simp del]

definition gcm_start :: "gcm_context \<Rightarrow> int \<Rightarrow> bytes \<Rightarrow> bytes \<Rightarrow> int \<times> gcm_context" where
  "gcm_start ctx mode iv aad =
     (if length iv \<noteq> 12 \<or> length aad div 2 ^ 61 \<noteq> 0 then (-1, ctx)
      else (0, ctx\<lparr>gcm_iv := iv @ replicate 4 0, gcm_mode := mode,
                   gcm_hash := gcm_aad (gcm_h ctx) zero_block aad\<rparr>))"

definition gcm_proc_block :: "int \<Rightarrow> bytes \<Rightarrow> nat \<Rightarrow> nat \<Rightarrow> bytes \<Rightarrow> bytes \<Rightarrow> bytes \<times> bytes" where
  "gcm_proc_block mode hash byte_offset num_bytes ectr input =
     fold (\<lambda>i (hash, output).
        let k = byte_offset + i;
            hash = (if mode = GCM_DECRYPT then hash[k := hash ! k XOR input ! i] else hash);
            out = ectr ! k XOR input ! i;
            hash = (if mode = GCM_ENCRYPT then hash[k := hash ! k XOR out] else hash)
        in (hash, output @ [out])) [0..<num_bytes] (hash, [])"

definition gcm_iv_ctr :: "gcm_context \<Rightarrow> nat \<Rightarrow> bytes" where
  "gcm_iv_ctr ctx offset =
     aes_encrypt (gcm_aes ctx)
       (put_be32 (if offset = 1 then 1 else of_nat (offset div 16 + 2)) (take 12 (gcm_iv ctx) @ replicate 4 0) 12)"

fun gcm_blocks :: "gcm_context \<Rightarrow> nat \<Rightarrow> bytes \<Rightarrow> bytes \<Rightarrow> gcm_context \<times> nat \<times> bytes \<times> bytes" where
  "gcm_blocks ctx offset input output =
     (if 16 \<le> length input then
        let (hash, out) = gcm_proc_block (gcm_mode ctx) (gcm_hash ctx) 0 16 (gcm_iv_ctr ctx offset) input
        in gcm_blocks (ctx\<lparr>gcm_hash := gcm_mult (gcm_h ctx) hash\<rparr>) (offset + 16) (drop 16 input) (output @ out)
      else (ctx, offset, input, output))"

declare gcm_blocks.simps [simp del]

definition gcm_tail :: "gcm_context \<Rightarrow> nat \<Rightarrow> nat \<Rightarrow> nat \<Rightarrow> bytes \<Rightarrow> gcm_context \<times> bytes" where
  "gcm_tail ctx offset poff plen input =
     (let (hash, out) = gcm_proc_block (gcm_mode ctx) zero_block poff plen (gcm_iv_ctr ctx offset) input
      in (if poff = 0 then ctx\<lparr>gcm_hash := gcm_mult (gcm_h ctx) (xor_block (gcm_hash ctx) hash)\<rparr>
          else ctx\<lparr>gcm_hash := xor_block (gcm_hash ctx) (gcm_mult (gcm_h ctx) hash)\<rparr>, out))"

definition gcm_update :: "gcm_context \<Rightarrow> nat \<Rightarrow> bytes \<Rightarrow> gcm_context \<times> bytes" where
  "gcm_update ctx offset input =
     (if input = [] then (ctx, [])
      else
        let (ctx, offset, input, output) =
          (if offset mod 16 \<noteq> 0 \<or> length input < 16 then
             let poff = offset mod 16;
                 plen = (if length input > 16 - poff then 16 - poff else length input);
                 offset = offset div 16 * 16;
                 (ctx, out) = gcm_tail ctx offset poff plen input
             in (ctx, offset + 16, drop plen input, out)
           else (ctx, offset, input, []))
        in if input = [] then (ctx, output)
           else let (ctx, offset, input, output) = gcm_blocks ctx offset input output
                in if input = [] then (ctx, output)
                   else let (ctx, out) = gcm_tail ctx offset 0 (length input) input
                        in (ctx, output @ out))"

text \<open>The tag buffer is written in place: \<open>tag_len\<close> bytes by the copy of the encrypted counter
  block and sixteen by the exclusive or with the hash.\<close>

definition gcm_finish :: "gcm_context \<Rightarrow> nat \<Rightarrow> nat \<Rightarrow> bytes \<Rightarrow> nat \<Rightarrow> (int \<times> gcm_context \<times> bytes) option" where
  "gcm_finish ctx total_data_len aad_len tag tag_len =
     (let orig_len = of_nat (total_data_len * 8) :: u64; orig_aad_len = of_nat (aad_len * 8) :: u64 in
      if 16 < tag_len \<or> tag_len < 4 then Some (-1, ctx, tag)
      else if length tag < tag_len then None
      else let tag = take tag_len (gcm_iv_ctr ctx 1) @ drop tag_len tag in
        if orig_len \<noteq> 0 \<or> orig_aad_len \<noteq> 0 then
          if length tag < 16 then None
          else let w = put_be32 (ucast (drop_bit 32 orig_aad_len)) zero_block 0;
                   w = put_be32 (ucast orig_aad_len) w 4;
                   w = put_be32 (ucast (drop_bit 32 orig_len)) w 8;
                   w = put_be32 (ucast orig_len) w 12;
                   hash = gcm_mult (gcm_h ctx) (xor_block (gcm_hash ctx) w)
               in Some (0, ctx\<lparr>gcm_hash := hash\<rparr>, xor_block (take 16 tag) hash @ drop 16 tag)
        else Some (0, ctx, tag))"

text \<open>\<open>output\<close> is the content of the output buffer before the call: a refused start leaves it
  as it is.\<close>

definition gcm_crypt_and_tag :: "gcm_context \<Rightarrow> int \<Rightarrow> bytes \<Rightarrow> bytes \<Rightarrow> bytes \<Rightarrow> bytes \<Rightarrow> nat \<Rightarrow> bytes
    \<Rightarrow> (int \<times> gcm_context \<times> bytes \<times> bytes) option" where
  "gcm_crypt_and_tag ctx mode iv aad input output tag_len tag =
     (let (ret, ctx) = gcm_start ctx mode iv aad in
      if ret \<noteq> 0 then Some (ret, ctx, output, tag)
      else let (ctx, out) = gcm_update ctx 0 input in
        case gcm_finish ctx (length input) (length aad) tag tag_len of None \<Rightarrow> None
        | Some (ret, ctx, tag) \<Rightarrow> Some (ret, ctx, out, tag))"

definition tag_diff :: "bytes \<Rightarrow> bytes \<Rightarrow> nat \<Rightarrow> u8" where
  "tag_diff tag check_tag tag_len = fold (\<lambda>i diff. diff OR (tag ! i XOR check_tag ! i)) [0..<tag_len] 0"

definition gcm_auth_decrypt :: "gcm_context \<Rightarrow> bytes \<Rightarrow> bytes \<Rightarrow> bytes \<Rightarrow> nat \<Rightarrow> bytes \<Rightarrow> bytes
    \<Rightarrow> (int \<times> bytes) option" where
  "gcm_auth_decrypt ctx iv aad tag tag_len input output =
     (case gcm_crypt_and_tag ctx GCM_DECRYPT iv aad input output tag_len (replicate 16 0) of None \<Rightarrow> None
      | Some (ret, ctx, output, check_tag) \<Rightarrow>
          if ret \<noteq> 0 then Some (ret, output)
          else if tag_diff tag check_tag tag_len \<noteq> 0 then Some (-1, replicate (length input) 0)
          else Some (0, output))"

section \<open>Reference definitions\<close>

definition shr_byte :: "bytes \<Rightarrow> nat \<Rightarrow> u8" where
  "shr_byte v k = drop_bit 1 (v ! k) OR (if 0 < k \<and> v ! (k - 1) AND 1 \<noteq> 0 then 0x80 else 0)"

definition reduce_step :: "bytes \<Rightarrow> bytes" where
  "reduce_step v = (if v ! 15 AND 1 \<noteq> 0 then (let v = shift_right_block v in v[0 := v ! 0 XOR 0xe1])
      else shift_right_block v)"

definition xor_rel :: "bytes \<times> bytes \<Rightarrow> bytes \<times> bytes \<Rightarrow> bytes \<times> bytes \<Rightarrow> bool" where
  "xor_rel p q s \<longleftrightarrow> length (fst p) = 16 \<and> length (snd p) = 16 \<and> length (fst q) = 16 \<and> length (snd q) = 16
     \<and> s = (xor_block (fst p) (fst q), xor_block (snd p) (snd q))"

definition pad_block :: "nat \<Rightarrow> bytes \<Rightarrow> bytes" where
  "pad_block off cs = replicate off 0 @ cs @ replicate (16 - off - length cs) 0"

definition absorb :: "bytes \<Rightarrow> nat \<Rightarrow> u8 \<Rightarrow> bytes \<Rightarrow> bytes" where
  "absorb h p c hash =
     (if p mod 16 = 0 then gcm_mult h (xor_block hash (pad_block 0 [c]))
      else xor_block hash (gcm_mult h (pad_block (p mod 16) [c])))"

fun absorb_all :: "bytes \<Rightarrow> nat \<Rightarrow> bytes \<Rightarrow> bytes \<Rightarrow> bytes" where
  "absorb_all h p [] hash = hash"
| "absorb_all h p (c # cs) hash = absorb_all h (p + 1) cs (absorb h p c hash)"

definition cipher_of :: "int \<Rightarrow> bytes \<Rightarrow> bytes \<Rightarrow> bytes" where
  "cipher_of mode input output = (if mode = GCM_DECRYPT then input else output)"

definition keystream :: "gcm_context \<Rightarrow> nat \<Rightarrow> u8" where
  "keystream ctx p = gcm_iv_ctr ctx (p div 16 * 16) ! (p mod 16)"

definition stream_xor :: "gcm_context \<Rightarrow> nat \<Rightarrow> bytes \<Rightarrow> bytes" where
  "stream_xor ctx p input = map (\<lambda>i. keystream ctx (p + i) XOR input ! i) [0..<length input]"

definition gcm_bytewise :: "gcm_context \<Rightarrow> nat \<Rightarrow> bytes \<Rightarrow> gcm_context \<times> bytes" where
  "gcm_bytewise ctx p input =
     (let out = stream_xor ctx p input
      in (ctx\<lparr>gcm_hash := absorb_all (gcm_h ctx) p (cipher_of (gcm_mode ctx) input out) (gcm_hash ctx)\<rparr>, out))"

definition gcm_ready :: "gcm_context \<Rightarrow> bool" where
  "gcm_ready ctx \<longleftrightarrow> length (gcm_hash ctx) = 16 \<and> gcm_mode ctx \<in> {GCM_DECRYPT, GCM_ENCRYPT}"

section \<open>Lemmas\<close>

lemma quad_bytes:
  fixes a b c d :: u8 and t :: bool
  defines "w \<equiv> push_bit 24 (ucast a) OR push_bit 16 (ucast b) OR push_bit 8 (ucast c) OR ucast d :: u32"
  defines "s \<equiv> if t then drop_bit 1 w OR 0x80000000 else drop_bit 1 w"
  shows "ucast (drop_bit 24 s) = drop_bit 1 a OR (if t then 0x80 else 0)"
    and "ucast (drop_bit 16 s) = drop_bit 1 b OR push_bit 7 (a AND 1)"
    and "ucast (drop_bit 8 s) = drop_bit 1 c OR push_bit 7 (b AND 1)"
    and "ucast s = drop_bit 1 d OR push_bit 7 (c AND 1)"
proof -
  have top: "bit (0x80000000 :: int) n \<longleftrightarrow> n = 31" for n
    using bit_exp_iff [where 'a = int, of 31 n] by simp
  have top8: "bit (0x80 :: int) n \<longleftrightarrow> n = 7" for n
    using bit_exp_iff [where 'a = int, of 7 n] by simp
  have sb: "bit s n \<longleftrightarrow> n < 32 \<and> (if n = 31 then t else bit w (n + 1))" for n
    by (auto simp: s_def bit_simps top w_def)
  show "ucast (drop_bit 24 s) = drop_bit 1 a OR (if t then 0x80 else 0)"
    by (rule bit_word_eqI) (auto simp: bit_simps sb w_def top8 dest: bit_imp_le_length)
  show "ucast (drop_bit 16 s) = drop_bit 1 b OR push_bit 7 (a AND 1)"
    by (rule bit_word_eqI) (auto simp: bit_simps sb w_def top8 dest: bit_imp_le_length)
  show "ucast (drop_bit 8 s) = drop_bit 1 c OR push_bit 7 (b AND 1)"
    by (rule bit_word_eqI) (auto simp: bit_simps sb w_def top8 dest: bit_imp_le_length)
  show "ucast s = drop_bit 1 d OR push_bit 7 (c AND 1)"
    by (rule bit_word_eqI) (auto simp: bit_simps sb w_def top8 dest: bit_imp_le_length)
qed

lemma push_low_bit: "push_bit 7 (a AND 1) = (if a AND 1 \<noteq> 0 then 0x80 else (0 :: u8))"
proof -
  have "a AND 1 = 0 \<or> a AND 1 = 1"
    by (metis and_one_eq parity_cases)
  then show ?thesis
  proof
    assume e: "a AND 1 = 0"
    show ?thesis unfolding e by simp
  next
    assume e: "a AND 1 = 1"
    show ?thesis unfolding e by simp
  qed
qed

lemma shift_right_quad_eq:
  assumes "i + 3 < length v"
  shows "shift_right_quad i v = v[i := shr_byte v i, i + 1 := shr_byte v (i + 1),
    i + 2 := shr_byte v (i + 2), i + 3 := shr_byte v (i + 3)]"
proof -
  have idx: "i + 1 - 1 = i" "i + 2 - 1 = i + 1" "i + 3 - 1 = i + 2" "0 < i + 1" "0 < i + 2" "0 < i + 3"
    by auto
  note q = quad_bytes [where a = "v ! i" and b = "v ! (i + 1)" and c = "v ! (i + 2)" and d = "v ! (i + 3)"
      and t = "0 < i \<and> v ! (i - 1) AND 1 \<noteq> 0"]
  show ?thesis
    unfolding shift_right_quad_def put_be32_def get_be32_def Let_def q push_low_bit shr_byte_def
    by (simp only: idx simp_thms)
qed

lemma shift_right_quad_nth:
  assumes "i + 3 < length v"
  shows "shift_right_quad i v ! k = (if i \<le> k \<and> k < i + 4 then shr_byte v k else v ! k)"
proof -
  have "i \<le> k \<and> k < i + 4 \<longleftrightarrow> k = i \<or> k = i + 1 \<or> k = i + 2 \<or> k = i + 3"
    by linarith
  then show ?thesis
    using assms unfolding shift_right_quad_eq [OF assms] by (auto simp: nth_list_update)
qed

lemma length_shift_right_quad [simp]: "length (shift_right_quad i v) = length v"
  by (simp add: shift_right_quad_def put_be32_def Let_def)

lemma shift_right_quads:
  assumes "length v = 16" "i + 3 < 16" "\<forall>k < i + 4. w ! k = v ! k" "\<forall>k. i + 4 \<le> k \<and> k < 16 \<longrightarrow> w ! k = shr_byte v k"
    "length w = 16"
  shows "\<forall>k < i. shift_right_quad i w ! k = v ! k"
    and "\<forall>k. i \<le> k \<and> k < 16 \<longrightarrow> shift_right_quad i w ! k = shr_byte v k"
  using assms by (auto simp: shift_right_quad_nth shr_byte_def)

lemma shift_right_block_eq:
  assumes "length v = 16"
  shows "shift_right_block v = map (shr_byte v) [0..<16]"
proof -
  define w3 where "w3 = shift_right_quad 12 v"
  define w2 where "w2 = shift_right_quad 8 w3"
  define w1 where "w1 = shift_right_quad 4 w2"
  have len: "length w3 = 16" "length w2 = 16" "length w1 = 16"
    by (simp_all add: w1_def w2_def w3_def assms)
  have 3: "\<forall>k < 12. w3 ! k = v ! k" "\<forall>k. 12 \<le> k \<and> k < 16 \<longrightarrow> w3 ! k = shr_byte v k"
    unfolding w3_def by (simp_all add: shift_right_quad_nth assms)
  have 2: "\<forall>k < 8. w2 ! k = v ! k" "\<forall>k. 8 \<le> k \<and> k < 16 \<longrightarrow> w2 ! k = shr_byte v k"
    unfolding w2_def by (rule shift_right_quads [OF assms _ _ _ len(1)]; simp add: 3)+
  have 1: "\<forall>k < 4. w1 ! k = v ! k" "\<forall>k. 4 \<le> k \<and> k < 16 \<longrightarrow> w1 ! k = shr_byte v k"
    unfolding w1_def by (rule shift_right_quads [OF assms _ _ _ len(2)]; simp add: 2)+
  have "\<forall>k. k < 16 \<longrightarrow> shift_right_quad 0 w1 ! k = shr_byte v k"
    using shift_right_quads(2) [of v 0 w1] 1 assms len by simp
  then show ?thesis
    by (intro nth_equalityI) (simp_all add: shift_right_block_def w1_def w2_def w3_def assms)
qed

lemma length_xor_block [simp]: "length (xor_block a b) = min (length a) (length b)"
  by (simp add: xor_block_def)

lemma nth_xor_block [simp]: "k < length a \<Longrightarrow> k < length b \<Longrightarrow> xor_block a b ! k = a ! k XOR b ! k"
  by (simp add: xor_block_def)

lemma length_zero_block [simp]: "length zero_block = 16"
  by (simp add: zero_block_def)

lemma nth_zero_block [simp]: "k < 16 \<Longrightarrow> zero_block ! k = 0"
  by (simp add: zero_block_def)

lemma xor_block_assoc: "xor_block (xor_block a b) c = xor_block a (xor_block b c)"
  by (rule nth_equalityI) (auto simp: xor.assoc)

lemma xor_block_comm: "xor_block a b = xor_block b a"
  by (rule nth_equalityI) (auto simp: xor.commute)

lemma xor_block_zero [simp]: "length a = 16 \<Longrightarrow> xor_block a zero_block = a"
  by (rule nth_equalityI) auto

lemma xor_block_self: "length a = 16 \<Longrightarrow> xor_block a a = zero_block"
  by (rule nth_equalityI) auto

lemma low_bit_xor: "((a XOR b) AND 1 \<noteq> (0 :: u8)) = ((a AND 1 \<noteq> 0) \<noteq> (b AND 1 \<noteq> 0))"
  by (simp add: and_one_eq even_xor_iff flip: odd_iff_mod_2_eq_one)

lemma or_top_bit: "drop_bit 1 a OR 0x80 = drop_bit 1 a XOR (0x80 :: u8)"
proof -
  have top8: "bit (0x80 :: int) n \<longleftrightarrow> n = 7" for n
    using bit_exp_iff [where 'a = int, of 7 n] by simp
  show ?thesis
    by (rule bit_word_eqI) (auto simp: bit_simps top8 dest: bit_imp_le_length)
qed

lemma shr_byte_xor:
  assumes "length a = 16" "length b = 16" "k < 16"
  shows "shr_byte (xor_block a b) k = shr_byte a k XOR shr_byte b k"
proof -
  have e: "shr_byte v k = drop_bit 1 (v ! k) XOR (if 0 < k \<and> v ! (k - 1) AND 1 \<noteq> 0 then 0x80 else 0)" for v
    by (simp add: shr_byte_def or_top_bit [simplified])
  have "drop_bit 1 (a ! k XOR b ! k) = drop_bit 1 (a ! k) XOR drop_bit 1 (b ! k)"
    by (simp add: drop_bit_xor)
  then show ?thesis
    using assms low_bit_xor [of "a ! (k - 1)" "b ! (k - 1)"] unfolding e
    by (auto simp: xor.assoc xor.left_commute)
qed

lemma length_shift_right_block [simp]: "length v = 16 \<Longrightarrow> length (shift_right_block v) = 16"
  by (simp add: shift_right_block_eq)

lemma length_reduce_step [simp]: "length v = 16 \<Longrightarrow> length (reduce_step v) = 16"
  by (simp add: reduce_step_def Let_def)

lemma reduce_step_nth:
  assumes "length v = 16" "k < 16"
  shows "reduce_step v ! k = shr_byte v k XOR (if k = 0 \<and> v ! 15 AND 1 \<noteq> 0 then 0xe1 else 0)"
  using assms by (auto simp: reduce_step_def Let_def shift_right_block_eq nth_list_update)

lemma reduce_step_xor:
  assumes "length a = 16" "length b = 16"
  shows "reduce_step (xor_block a b) = xor_block (reduce_step a) (reduce_step b)"
proof (rule nth_equalityI)
  fix k assume "k < length (reduce_step (xor_block a b))"
  then have "k < 16" using assms by simp
  then show "reduce_step (xor_block a b) ! k = xor_block (reduce_step a) (reduce_step b) ! k"
    using assms low_bit_xor [of "a ! 15" "b ! 15"]
    by (auto simp: reduce_step_nth shr_byte_xor xor.assoc xor.left_commute xor.commute)
qed (use assms in simp)

lemma gcm_mult_step_eq:
  "gcm_mult_step x i j = (\<lambda>(z, v). (if x ! i AND push_bit (7 - j) 1 \<noteq> 0 then xor_block z v else z, reduce_step v))"
  by (simp add: gcm_mult_step_def reduce_step_def fun_eq_iff)

lemma xor_block_swap: "xor_block (xor_block a b) (xor_block c d) = xor_block (xor_block a c) (xor_block b d)"
  by (rule nth_equalityI) (auto simp: xor.assoc xor.left_commute)

lemma gcm_mult_step_xor: "xor_rel p q s \<Longrightarrow> xor_rel (gcm_mult_step x i j p) (gcm_mult_step x i j q) (gcm_mult_step x i j s)"
  by (cases p; cases q) (simp add: xor_rel_def gcm_mult_step_eq reduce_step_xor xor_block_swap)

lemma fold_xor_rel:
  assumes "\<And>i p q s. xor_rel p q s \<Longrightarrow> xor_rel (f i p) (f i q) (f i s)"
  shows "xor_rel p q s \<Longrightarrow> xor_rel (fold f is p) (fold f is q) (fold f is s)"
proof (induction "is" arbitrary: p q s)
  case (Cons i "is")
  from Cons.IH [OF assms [OF Cons.prems]] show ?case by simp
qed simp

lemma gcm_mult_xor_rel:
  assumes "length a = 16" "length b = 16"
  shows "xor_rel (fold (\<lambda>i. fold (gcm_mult_step x i) [0..<8]) [0..<16] (zero_block, a))
     (fold (\<lambda>i. fold (gcm_mult_step x i) [0..<8]) [0..<16] (zero_block, b))
     (fold (\<lambda>i. fold (gcm_mult_step x i) [0..<8]) [0..<16] (zero_block, xor_block a b))"
  by (intro fold_xor_rel gcm_mult_step_xor) (simp_all add: xor_rel_def assms xor_block_self)

lemma gcm_mult_xor:
  assumes "length a = 16" "length b = 16"
  shows "gcm_mult x (xor_block a b) = xor_block (gcm_mult x a) (gcm_mult x b)"
  using gcm_mult_xor_rel [OF assms, of x] by (simp add: xor_rel_def gcm_mult_def)

lemma length_gcm_mult [simp]: "length y = 16 \<Longrightarrow> length (gcm_mult x y) = 16"
  using gcm_mult_xor_rel [of y y x] by (simp add: xor_rel_def gcm_mult_def)

lemma gcm_mult_zero [simp]: "gcm_mult x zero_block = zero_block"
  using gcm_mult_xor [of zero_block zero_block x] by (simp add: xor_block_self)

lemma absorb_all_append:
  "absorb_all h p (a @ b) hash = absorb_all h (p + length a) b (absorb_all h p a hash)"
  by (induction a arbitrary: p hash) (auto simp: add.assoc)

lemma length_pad_block [simp]: "off + length cs \<le> 16 \<Longrightarrow> length (pad_block off cs) = 16"
  by (simp add: pad_block_def)

lemma nth_pad_block:
  "off + length cs \<le> 16 \<Longrightarrow> k < 16 \<Longrightarrow>
    pad_block off cs ! k = (if off \<le> k \<and> k < off + length cs then cs ! (k - off) else 0)"
  by (auto simp: pad_block_def nth_append)

lemma pad_block_Nil [simp]: "off \<le> 16 \<Longrightarrow> pad_block off [] = zero_block"
  by (rule nth_equalityI) (auto simp: nth_pad_block)

lemma pad_block_Cons:
  assumes "off + length (c # cs) \<le> 16"
  shows "pad_block off (c # cs) = xor_block (pad_block off [c]) (pad_block (off + 1) cs)"
proof (rule nth_equalityI)
  fix k assume "k < length (pad_block off (c # cs))"
  then have k: "k < 16" using assms by simp
  show "pad_block off (c # cs) ! k = xor_block (pad_block off [c]) (pad_block (off + 1) cs) ! k"
  proof (cases "off < k")
    case True
    then obtain j where "k = off + Suc j" using less_iff_Suc_add by auto
    then show ?thesis using assms k by (simp add: nth_pad_block)
  next
    case False
    then show ?thesis using assms k by (simp add: nth_pad_block)
  qed
qed (use assms in simp)

lemma length_absorb [simp]: "length hash = 16 \<Longrightarrow> length (absorb h p c hash) = 16"
  by (simp add: absorb_def Suc_leI)

lemma length_absorb_all [simp]: "length hash = 16 \<Longrightarrow> length (absorb_all h p cs hash) = 16"
  by (induction cs arbitrary: p hash) auto

lemma absorb_partial:
  assumes "p mod 16 + length cs \<le> 16" "0 < p mod 16" "length hash = 16"
  shows "absorb_all h p cs hash = xor_block hash (gcm_mult h (pad_block (p mod 16) cs))"
  using assms
proof (induction cs arbitrary: p hash)
  case Nil
  then show ?case by simp
next
  case (Cons c cs)
  have mul: "gcm_mult h (pad_block (p mod 16) (c # cs))
      = xor_block (gcm_mult h (pad_block (p mod 16) [c])) (gcm_mult h (pad_block (p mod 16 + 1) cs))"
    using Cons.prems by (subst pad_block_Cons) (auto simp: gcm_mult_xor)
  show ?case
  proof (cases "cs = []")
    case True
    then show ?thesis using Cons.prems by (simp add: absorb_def)
  next
    case False
    then have "p mod 16 + 1 < 16"
      using Cons.prems by (cases cs) auto
    then have m: "(p + 1) mod 16 = p mod 16 + 1"
      by (simp add: mod_Suc)
    have "absorb_all h (p + 1) cs (absorb h p c hash)
        = xor_block (absorb h p c hash) (gcm_mult h (pad_block ((p + 1) mod 16) cs))"
      by (rule Cons.IH) (use Cons.prems m in auto)
    then show ?thesis
      using Cons.prems by (simp add: m [simplified] mul absorb_def xor_block_assoc)
  qed
qed

lemma absorb_block:
  assumes "p mod 16 = 0" "length cs \<le> 16" "cs \<noteq> []" "length hash = 16"
  shows "absorb_all h p cs hash = gcm_mult h (xor_block hash (pad_block 0 cs))"
proof -
  obtain c cs' where cs: "cs = c # cs'" using assms by (cases cs) auto
  have m: "(p + 1) mod 16 = 1" using assms by (simp add: mod_Suc)
  have "absorb_all h (p + 1) cs' (absorb h p c hash)
      = xor_block (absorb h p c hash) (gcm_mult h (pad_block ((p + 1) mod 16) cs'))"
    by (rule absorb_partial) (use assms m cs in auto)
  also have "\<dots> = gcm_mult h (xor_block (xor_block hash (pad_block 0 [c])) (pad_block 1 cs'))"
    using assms cs by (simp add: m [simplified] absorb_def gcm_mult_xor)
  also have "\<dots> = gcm_mult h (xor_block hash (pad_block 0 cs))"
    using assms cs by (simp add: pad_block_Cons [of 0 c cs'] xor_block_assoc)
  finally show ?thesis by (simp add: cs)
qed

lemma pad_block_snoc:
  assumes "off + length cs < 16" "length hash = 16"
  shows "(xor_block hash (pad_block off cs))[off + length cs := hash ! (off + length cs) XOR x]
    = xor_block hash (pad_block off (cs @ [x]))"
  using assms by (intro nth_equalityI) (auto simp: nth_list_update nth_pad_block nth_append)

lemma xor_pad_block_next:
  assumes "off + length cs < 16" "length hash = 16"
  shows "xor_block hash (pad_block off cs) ! (off + length cs) = hash ! (off + length cs)"
  using assms by (simp add: nth_pad_block)

lemma gcm_proc_block_Suc:
  "gcm_proc_block mode hash off (Suc n) ectr input =
     (case gcm_proc_block mode hash off n ectr input of (hash, output) \<Rightarrow>
        let k = off + n; out = ectr ! k XOR input ! n;
            hash = (if mode = GCM_DECRYPT then hash[k := hash ! k XOR input ! n] else hash);
            hash = (if mode = GCM_ENCRYPT then hash[k := hash ! k XOR out] else hash)
        in (hash, output @ [out]))"
  by (simp add: gcm_proc_block_def Let_def split: prod.split)

lemma gcm_proc_block_eq:
  assumes "off + n \<le> 16" "length hash = 16" "n \<le> length input" "mode \<in> {0, 1}"
  shows "gcm_proc_block mode hash off n ectr input =
    (let out = map (\<lambda>i. ectr ! (off + i) XOR input ! i) [0..<n]
     in (xor_block hash (pad_block off (cipher_of mode (take n input) out)), out))"
  using assms
proof (induction n)
  case 0
  then show ?case by (simp add: gcm_proc_block_def cipher_of_def)
next
  case (Suc n)
  let ?out = "\<lambda>n. map (\<lambda>i. ectr ! (off + i) XOR input ! i) [0..<n]"
  let ?c = "\<lambda>n. cipher_of mode (take n input) (?out n)"
  let ?x = "if mode = GCM_DECRYPT then input ! n else ectr ! (off + n) XOR input ! n"
  have len: "length (?c n) = n"
    using Suc.prems by (simp add: cipher_of_def)
  have c: "?c (Suc n) = ?c n @ [?x]"
    using Suc.prems by (simp add: cipher_of_def take_Suc_conv_app_nth)
  have pn: "xor_block hash (pad_block off (?c n)) ! (off + n) = hash ! (off + n)"
    by (rule xor_pad_block_next [of off "?c n" hash, unfolded len]) (use Suc.prems in simp_all)
  have "(xor_block hash (pad_block off (?c n)))[off + n := xor_block hash (pad_block off (?c n)) ! (off + n) XOR ?x]
      = xor_block hash (pad_block off (?c (Suc n)))"
    unfolding c pn by (rule pad_block_snoc [of off "?c n" hash ?x, unfolded len]) (use Suc.prems in simp_all)
  moreover have "mode = 0 \<or> mode = 1" using Suc.prems by simp
  ultimately show ?case
    using Suc.IH Suc.prems unfolding gcm_proc_block_Suc by (auto simp: Let_def)
qed

lemma keystream_hash [simp]: "keystream (ctx\<lparr>gcm_hash := x\<rparr>) p = keystream ctx p"
  by (simp add: keystream_def gcm_iv_ctr_def)

lemma keystream_mode [simp]: "keystream (ctx\<lparr>gcm_mode := x\<rparr>) p = keystream ctx p"
  by (simp add: keystream_def gcm_iv_ctr_def)

lemma length_stream_xor [simp]: "length (stream_xor ctx p input) = length input"
  by (simp add: stream_xor_def)

lemma stream_xor_hash [simp]: "stream_xor (ctx\<lparr>gcm_hash := x\<rparr>) p input = stream_xor ctx p input"
  by (simp add: stream_xor_def)

lemma stream_xor_mode [simp]: "stream_xor (ctx\<lparr>gcm_mode := x\<rparr>) p input = stream_xor ctx p input"
  by (simp add: stream_xor_def)

lemma stream_xor_append:
  "stream_xor ctx p (a @ b) = stream_xor ctx p a @ stream_xor ctx (p + length a) b"
  by (rule nth_equalityI) (auto simp: stream_xor_def nth_append)

lemma stream_xor_twice [simp]: "stream_xor ctx p (stream_xor ctx p input) = input"
  by (rule nth_equalityI) (auto simp: stream_xor_def simp flip: xor.assoc)

lemma gcm_bytewise_Nil: "gcm_bytewise ctx p [] = (ctx, [])"
  by (simp add: gcm_bytewise_def stream_xor_def cipher_of_def)

lemma gcm_bytewise_append:
  "gcm_bytewise ctx p (a @ b) =
     (let (ctx, oa) = gcm_bytewise ctx p a; (ctx, ob) = gcm_bytewise ctx (p + length a) b in (ctx, oa @ ob))"
  by (simp add: gcm_bytewise_def Let_def stream_xor_append cipher_of_def absorb_all_append)

lemma gcm_ready_bytewise: "gcm_ready ctx \<Longrightarrow> gcm_ready (fst (gcm_bytewise ctx p input))"
  by (simp add: gcm_ready_def gcm_bytewise_def Let_def)

lemma stream_xor_block:
  assumes "off mod 16 = 0" "poff + n \<le> 16" "n \<le> length input"
  shows "map (\<lambda>i. gcm_iv_ctr ctx off ! (poff + i) XOR input ! i) [0..<n] = stream_xor ctx (off + poff) (take n input)"
proof -
  obtain q where q: "off = 16 * q" using assms(1) by (metis mod_0_imp_dvd dvdE)
  have "(off + (poff + i)) div 16 * 16 = off" "(off + (poff + i)) mod 16 = poff + i" if "i < n" for i
    using assms(2) that by (simp_all add: q)
  then show ?thesis
    using assms by (auto simp: stream_xor_def keystream_def add.assoc min_def)
qed

lemma gcm_tail_eq:
  assumes "gcm_ready ctx" "off mod 16 = 0" "poff < 16" "poff + n \<le> 16" "n \<le> length input" "0 < n"
  shows "gcm_tail ctx off poff n input = gcm_bytewise ctx (off + poff) (take n input)"
proof -
  have m: "(off + poff) mod 16 = poff" using assms by (simp add: mod_add_left_eq [symmetric] del: mod_add_left_eq)
  let ?out = "stream_xor ctx (off + poff) (take n input)"
  let ?c = "cipher_of (gcm_mode ctx) (take n input) ?out"
  have c: "length ?c = n" "?c \<noteq> []"
    using assms by (auto simp: cipher_of_def simp flip: length_greater_0_conv)
  have "gcm_proc_block (gcm_mode ctx) zero_block poff n (gcm_iv_ctr ctx off) input = (pad_block poff ?c, ?out)"
    using assms c by (simp add: gcm_proc_block_eq stream_xor_block gcm_ready_def Let_def xor_block_comm [of zero_block])
  then have t: "gcm_tail ctx off poff n input =
      (if poff = 0 then ctx\<lparr>gcm_hash := gcm_mult (gcm_h ctx) (xor_block (gcm_hash ctx) (pad_block poff ?c))\<rparr>
       else ctx\<lparr>gcm_hash := xor_block (gcm_hash ctx) (gcm_mult (gcm_h ctx) (pad_block poff ?c))\<rparr>, ?out)"
    by (simp add: gcm_tail_def)
  show ?thesis
  proof (cases "poff = 0")
    case True
    then show ?thesis
      using assms m c t absorb_block [of "off + poff" ?c "gcm_hash ctx"]
      by (simp add: gcm_bytewise_def Let_def gcm_ready_def)
  next
    case False
    then show ?thesis
      using assms m c absorb_partial [of "off + poff" ?c "gcm_hash ctx"]
      by (simp add: t gcm_bytewise_def Let_def gcm_ready_def)
  qed
qed

lemma gcm_block_eq:
  assumes "gcm_ready ctx" "off mod 16 = 0" "16 \<le> length input"
  shows "(case gcm_proc_block (gcm_mode ctx) (gcm_hash ctx) 0 16 (gcm_iv_ctr ctx off) input of
      (hash, out) \<Rightarrow> (ctx\<lparr>gcm_hash := gcm_mult (gcm_h ctx) hash\<rparr>, out)) = gcm_bytewise ctx off (take 16 input)"
proof -
  let ?out = "stream_xor ctx off (take 16 input)"
  let ?c = "cipher_of (gcm_mode ctx) (take 16 input) ?out"
  have c: "length ?c = 16" "?c \<noteq> []"
    using assms by (auto simp: cipher_of_def simp flip: length_greater_0_conv)
  show ?thesis
    using assms c absorb_block [of off ?c "gcm_hash ctx"] stream_xor_block [of off 0 16 input ctx]
    by (simp add: gcm_proc_block_eq gcm_bytewise_def Let_def gcm_ready_def)
qed

lemma gcm_blocks_eq:
  assumes "gcm_ready ctx" "off mod 16 = 0"
  shows "gcm_blocks ctx off input out =
    (let n = length input div 16 * 16; (ctx, res) = gcm_bytewise ctx off (take n input)
     in (ctx, off + n, drop n input, out @ res))"
  using assms
proof (induction ctx off input out rule: gcm_blocks.induct)
  case (1 ctx off input out)
  show ?case
  proof (cases "16 \<le> length input")
    case False
    then show ?thesis by (subst gcm_blocks.simps) (simp add: gcm_bytewise_Nil)
  next
    case True
    define m where "m = length (drop 16 input) div 16 * 16"
    have n: "length input div 16 * 16 = 16 + m" using True by (simp add: le_div_geq m_def)
    have tk: "take (16 + m) input = take 16 input @ take m (drop 16 input)" by (simp only: take_add)
    have len: "length (take 16 input) = 16" using True by simp
    obtain hash ob where pb: "gcm_proc_block (gcm_mode ctx) (gcm_hash ctx) 0 16 (gcm_iv_ctr ctx off) input = (hash, ob)"
      by fastforce
    let ?ctx = "ctx\<lparr>gcm_hash := gcm_mult (gcm_h ctx) hash\<rparr>"
    have b: "gcm_bytewise ctx off (take 16 input) = (?ctx, ob)"
      using gcm_block_eq [OF 1(2,3) True] pb by simp
    have r: "gcm_ready ?ctx"
      using gcm_ready_bytewise [OF 1(2), of off "take 16 input"] b by simp
    have "gcm_blocks ?ctx (off + 16) (drop 16 input) (out @ ob) =
      (let (ctx, res) = gcm_bytewise ?ctx (off + 16) (take m (drop 16 input))
       in (ctx, off + 16 + m, drop m (drop 16 input), (out @ ob) @ res))"
      unfolding m_def using 1(1) [OF True pb [symmetric] refl] r 1(3) by (simp add: Let_def)
    moreover have "gcm_blocks ctx off input out = gcm_blocks ?ctx (off + 16) (drop 16 input) (out @ ob)"
      using True by (subst gcm_blocks.simps) (simp add: pb)
    ultimately show ?thesis
      unfolding n tk gcm_bytewise_append Let_def len b by (simp add: add.commute add.left_commute split: prod.split)
  qed
qed

lemma gcm_aligned_eq:
  assumes "gcm_ready ctx" "off mod 16 = 0"
  shows "(let (ctx, off, input, output) = gcm_blocks ctx off input output
          in if input = [] then (ctx, output)
             else let (ctx, out) = gcm_tail ctx off 0 (length input) input in (ctx, output @ out))
    = (let (ctx, out) = gcm_bytewise ctx off input in (ctx, output @ out))"
proof -
  define n where "n = length input div 16 * 16"
  obtain ctx' res where b: "gcm_bytewise ctx off (take n input) = (ctx', res)" by fastforce
  have r: "gcm_ready ctx'" using gcm_ready_bytewise [OF assms(1), of off "take n input"] b by simp
  have m: "(off + n) mod 16 = 0" using assms(2) by (simp add: n_def mod_add_left_eq [symmetric] del: mod_add_left_eq)
  have "length input mod 16 < 16" by simp
  then have d: "length (drop n input) < 16" by (simp add: n_def minus_div_mult_eq_mod)
  have n: "n \<le> length input" by (simp add: n_def)
  have "gcm_bytewise ctx off input = (let (c, ob) = gcm_bytewise ctx' (off + n) (drop n input) in (c, res @ ob))"
    using gcm_bytewise_append [of ctx off "take n input" "drop n input"] n by (simp add: b min_def)
  moreover have "gcm_tail ctx' (off + n) 0 (length (drop n input)) (drop n input)
      = gcm_bytewise ctx' (off + n) (drop n input)" if "drop n input \<noteq> []"
    using gcm_tail_eq [OF r m, of 0 "length (drop n input)" "drop n input"] d that by simp
  ultimately show ?thesis
    by (simp add: gcm_blocks_eq [OF assms] b gcm_bytewise_Nil flip: n_def split: prod.split)
qed

lemma gcm_update_bytewise:
  assumes "gcm_ready ctx"
  shows "gcm_update ctx off input = gcm_bytewise ctx off input"
proof (cases "input = [] \<or> off mod 16 = 0 \<and> 16 \<le> length input")
  case True
  then show ?thesis
    using gcm_aligned_eq [OF assms, of off input "[]"]
    by (auto simp: gcm_update_def gcm_bytewise_Nil Let_def split: prod.splits)
next
  case False
  define poff where "poff = off mod 16"
  define n where "n = (if length input > 16 - poff then 16 - poff else length input)"
  define base where "base = off div 16 * 16"
  have base: "base mod 16 = 0" "off = base + poff" by (simp_all add: base_def poff_def)
  have n: "poff < 16" "poff + n \<le> 16" "n \<le> length input" "0 < n"
    using False by (auto simp: n_def poff_def)
  obtain ctx' res where b: "gcm_bytewise ctx off (take n input) = (ctx', res)" by fastforce
  have t: "gcm_tail ctx base poff n input = (ctx', res)"
    using gcm_tail_eq [OF assms base(1) n] base(2) b by simp
  have r: "gcm_ready ctx'" using gcm_ready_bytewise [OF assms, of off "take n input"] b by simp
  have c: "input \<noteq> []" "poff \<noteq> 0 \<or> length input < 16" using False by (auto simp: poff_def)
  have u: "gcm_update ctx off input = (if drop n input = [] then (ctx', res)
      else let (ctx, off, input, output) = gcm_blocks ctx' (base + 16) (drop n input) res
           in if input = [] then (ctx, output)
              else let (ctx, out) = gcm_tail ctx off 0 (length input) input in (ctx, output @ out))"
    unfolding gcm_update_def Let_def poff_def [symmetric] base_def [symmetric] n_def [symmetric] t
    using c by simp
  have s: "gcm_bytewise ctx off input = (let (c, ob) = gcm_bytewise ctx' (off + n) (drop n input) in (c, res @ ob))"
    using gcm_bytewise_append [of ctx off "take n input" "drop n input"] n by (simp add: b min_def)
  show ?thesis
  proof (cases "drop n input = []")
    case True
    then show ?thesis using u s by (simp add: gcm_bytewise_Nil)
  next
    case F: False
    then have "off + n = base + 16" using n base by (auto simp: n_def split: if_splits)
    moreover have "(base + 16) mod 16 = 0" using base by simp
    ultimately show ?thesis
      using u s F gcm_aligned_eq [OF r, of "base + 16" "drop n input" res] by simp
  qed
qed

lemma length_fold_update [simp]:
  "length (fold (\<lambda>i h. h[i := f i h]) is hash) = length hash"
  by (induction "is" arbitrary: hash) auto

lemma length_gcm_aad [simp]: "length hash = 16 \<Longrightarrow> length (gcm_aad h hash aad) = 16"
proof (induction h hash aad rule: gcm_aad.induct)
  case (1 h hash p)
  then show ?case by (subst gcm_aad.simps) (simp add: Let_def)
qed

lemma gcm_start_ready:
  assumes "length iv = 12" "length aad < 2 ^ 61" "mode \<in> {GCM_DECRYPT, GCM_ENCRYPT}"
  obtains ctx' where "gcm_start ctx mode iv aad = (0, ctx')" "gcm_ready ctx'"
    "ctx' = ctx\<lparr>gcm_iv := iv @ replicate 4 0, gcm_mode := mode, gcm_hash := gcm_aad (gcm_h ctx) zero_block aad\<rparr>"
  using assms by (auto simp: gcm_start_def gcm_ready_def)

lemma length_gcm_iv_ctr [simp]: "length (gcm_iv_ctr ctx p) = 16"
  by (simp add: gcm_iv_ctr_def)

lemma gcm_finish_ok:
  assumes "4 \<le> tag_len" "tag_len \<le> 16" "length tag = 16"
  shows "\<exists>ctx' t. gcm_finish ctx len aad_len tag tag_len = Some (0, ctx', t)"
  using assms by (auto simp: gcm_finish_def Let_def)

lemma length_put_be32 [simp]: "length (put_be32 n b i) = length b"
  by (simp add: put_be32_def)

lemma gcm_finish_length:
  "gcm_finish ctx len aad_len tag tag_len = Some (0, c, t) \<Longrightarrow> length tag = 16 \<Longrightarrow> length (gcm_hash ctx) = 16
    \<Longrightarrow> length t = 16"
  by (auto simp: gcm_finish_def Let_def split: if_splits)

lemma gcm_finish_tag_prefix:
  assumes "gcm_finish ctx len aad_len tag tag_len = Some (0, c1, t1)" "length tag = 16"
    and "gcm_aes ctx' = gcm_aes ctx" "gcm_h ctx' = gcm_h ctx" "gcm_iv ctx' = gcm_iv ctx" "gcm_hash ctx' = gcm_hash ctx"
    and "gcm_finish ctx' len aad_len tag' tag_len = Some (0, c2, t2)" "length tag' = 16"
    and "length (gcm_hash ctx) = 16" "i < tag_len"
  shows "t1 ! i = t2 ! i"
proof -
  have "tag_len \<le> 16" using assms(1) by (auto simp: gcm_finish_def Let_def split: if_splits)
  then show ?thesis
    using assms by (auto simp: gcm_finish_def Let_def nth_append gcm_iv_ctr_def put_be32_def split: if_splits)
qed

lemma tag_diff_zero: "tag_diff a b n = 0 \<longleftrightarrow> (\<forall>i < n. a ! i = b ! i)"
proof -
  have "fold (\<lambda>i diff. diff OR (a ! i XOR b ! i)) is d = 0 \<longleftrightarrow> d = 0 \<and> (\<forall>i \<in> set is. a ! i = b ! i)" for "is" d
  proof (induction "is" arbitrary: d)
    case (Cons i "is")
    have "d OR (a ! i XOR b ! i) = 0 \<longleftrightarrow> d = 0 \<and> a ! i = b ! i"
      by (auto simp: bit_eq_iff bit_simps)
    with Cons show ?case by simp
  qed simp
  from this [of "[0..<n]" 0] show ?thesis by (auto simp: tag_diff_def)
qed

lemma crypt_start:
  fixes ctx :: gcm_context and input :: bytes
  assumes "length iv = 12" "length aad < 2 ^ 61" "mode \<in> {GCM_DECRYPT, GCM_ENCRYPT}"
    and "4 \<le> tag_len" "tag_len \<le> 16" "length tag = 16"
  defines "c0 \<equiv> ctx\<lparr>gcm_iv := iv @ replicate 4 0, gcm_mode := mode, gcm_hash := gcm_aad (gcm_h ctx) zero_block aad\<rparr>"
  defines "out \<equiv> stream_xor c0 0 input"
  defines "c1 \<equiv> c0\<lparr>gcm_hash := absorb_all (gcm_h ctx) 0 (cipher_of mode input out) (gcm_hash c0)\<rparr>"
  shows "\<exists>c2 t. gcm_finish c1 (length input) (length aad) tag tag_len = Some (0, c2, t)
    \<and> gcm_crypt_and_tag ctx mode iv aad input output tag_len tag = Some (0, c2, out, t)"
proof -
  have s: "gcm_start ctx mode iv aad = (0, c0)" using assms(1,2) by (simp add: gcm_start_def c0_def)
  have r: "gcm_ready c0" using assms(3) by (auto simp: gcm_ready_def c0_def)
  have "gcm_h c0 = gcm_h ctx" "gcm_mode c0 = mode" by (simp_all add: c0_def)
  then have u: "gcm_update c0 0 input = (c1, out)"
    by (simp add: gcm_update_bytewise [OF r] gcm_bytewise_def Let_def c1_def out_def)
  obtain c2 t where f: "gcm_finish c1 (length input) (length aad) tag tag_len = Some (0, c2, t)"
    using gcm_finish_ok [OF assms(4-6)] by blast
  then show ?thesis by (simp add: gcm_crypt_and_tag_def s u)
qed

text \<open>C4: a message processed by several \<open>gcm_update\<close> calls, cut at any byte, gives the same
  output and leaves the same hash as one call on the whole message.\<close>

theorem gcm_update_split:
  assumes "gcm_ready ctx"
  shows "gcm_update ctx off (a @ b) =
    (let (ctx, out_a) = gcm_update ctx off a; (ctx, out_b) = gcm_update ctx (off + length a) b
     in (ctx, out_a @ out_b))"
proof -
  obtain c o1 where a: "gcm_bytewise ctx off a = (c, o1)" by fastforce
  have "gcm_ready c" using gcm_ready_bytewise [OF assms, of off a] a by simp
  then show ?thesis
    by (simp add: gcm_update_bytewise assms a gcm_bytewise_append)
qed

theorem gcm_update_split_witness:
  "gcm_ready gcm_init \<and> gcm_update gcm_init 3 ([1, 2] @ [3]) =
    (let (ctx, out_a) = gcm_update gcm_init 3 [1, 2]; (ctx, out_b) = gcm_update ctx (3 + length [1, 2 :: u8]) [3]
     in (ctx, out_a @ out_b))"
proof -
  have r: "gcm_ready gcm_init" by (simp add: gcm_ready_def gcm_init_def)
  show ?thesis using r gcm_update_split [OF r, of 3 "[1, 2]" "[3]"] by (rule conjI)
qed

lemma gcm_roundtrip:
  assumes "length iv = 12" "length aad < 2 ^ 61" "4 \<le> tag_len" "tag_len \<le> 16" "length tag = 16"
  shows "\<exists>ctx' ct t. gcm_crypt_and_tag ctx GCM_ENCRYPT iv aad pt out0 tag_len tag = Some (0, ctx', ct, t)
    \<and> length ct = length pt \<and> length t = 16 \<and> gcm_auth_decrypt ctx iv aad t tag_len ct out1 = Some (0, pt)"
proof -
  let ?c0 = "\<lambda>m. ctx\<lparr>gcm_iv := iv @ replicate 4 0, gcm_mode := m, gcm_hash := gcm_aad (gcm_h ctx) zero_block aad\<rparr>"
  let ?ct = "stream_xor (?c0 1) 0 pt"
  let ?c1 = "\<lambda>m. (?c0 m)\<lparr>gcm_hash := absorb_all (gcm_h ctx) 0 ?ct (gcm_hash (?c0 m))\<rparr>"
  have ks: "stream_xor (?c0 0) 0 ?ct = pt"
    using stream_xor_twice [of "?c0 1" 0 pt] by simp
  obtain c2 t where e: "gcm_finish (?c1 1) (length pt) (length aad) tag tag_len = Some (0, c2, t)"
    "gcm_crypt_and_tag ctx GCM_ENCRYPT iv aad pt out0 tag_len tag = Some (0, c2, ?ct, t)"
    using crypt_start [of iv aad 1 tag_len tag ctx pt out0] assms by (auto simp: cipher_of_def)
  obtain c3 t' where d: "gcm_finish (?c1 0) (length pt) (length aad) (replicate 16 0) tag_len = Some (0, c3, t')"
    "gcm_crypt_and_tag ctx GCM_DECRYPT iv aad ?ct out1 tag_len (replicate 16 0) = Some (0, c3, pt, t')"
    using crypt_start [of iv aad 0 tag_len "replicate 16 0" ctx ?ct out1] assms ks by (auto simp: cipher_of_def)
  have "t ! i = t' ! i" if "i < tag_len" for i
    by (rule gcm_finish_tag_prefix [OF e(1) assms(5) _ _ _ _ d(1)]) (simp_all add: that)
  then have "tag_diff t t' tag_len = 0" by (simp add: tag_diff_zero)
  moreover have "length t = 16" by (rule gcm_finish_length [OF e(1) assms(5)]) simp
  ultimately show ?thesis using e(2) d(2) by (simp add: gcm_auth_decrypt_def)
qed

text \<open>C3: authenticated decryption undoes encryption: with a 12-byte IV, a tag length between 4
  and 16 and a 16-byte tag buffer the encryption succeeds, and decrypting its output with its
  tag under the same context, IV and associated data succeeds and returns the plaintext,
  whatever the lengths of the data.\<close>

theorem gcm_decrypt_encrypt:
  assumes "length iv = 12" "length aad < 2 ^ 61" "4 \<le> tag_len" "tag_len \<le> 16" "length tag = 16"
  shows "\<exists>ctx' ct t. gcm_crypt_and_tag ctx GCM_ENCRYPT iv aad pt out0 tag_len tag = Some (0, ctx', ct, t)
    \<and> length ct = length pt \<and> gcm_auth_decrypt ctx iv aad t tag_len ct out1 = Some (0, pt)"
  using gcm_roundtrip [OF assms] by blast

theorem gcm_decrypt_encrypt_witness:
  "length (replicate 12 (7 :: u8)) = 12 \<and> (\<exists>ctx' ct t.
    gcm_crypt_and_tag gcm_init GCM_ENCRYPT (replicate 12 7) [1] [2, 3] [] 16 (replicate 16 0) = Some (0, ctx', ct, t)
    \<and> length ct = length [2, 3 :: u8] \<and> gcm_auth_decrypt gcm_init (replicate 12 7) [1] t 16 ct [] = Some (0, [2, 3]))"
  using gcm_decrypt_encrypt [of "replicate 12 7" "[1]" 16 "replicate 16 0" gcm_init "[2, 3]" "[]" "[]"] by simp

text \<open>C5: \<open>gcm_auth_decrypt\<close> releases data only if the tag verifies: it recomputes the tag of the
  received data, succeeds exactly when the first \<open>tag_len\<close> bytes agree with the received
  tag, and otherwise returns -1 with the output buffer zeroed.\<close>

theorem gcm_auth_decrypt_checks:
  assumes "length iv = 12" "length aad < 2 ^ 61" "4 \<le> tag_len" "tag_len \<le> 16"
  shows "\<exists>ctx' out check.
    gcm_crypt_and_tag ctx GCM_DECRYPT iv aad ct out0 tag_len (replicate 16 0) = Some (0, ctx', out, check)
    \<and> gcm_auth_decrypt ctx iv aad tag tag_len ct out0 =
        Some (if \<forall>i < tag_len. tag ! i = check ! i then (0, out) else (-1, replicate (length ct) 0))"
proof -
  obtain c2 t where "gcm_crypt_and_tag ctx GCM_DECRYPT iv aad ct out0 tag_len (replicate 16 0)
      = Some (0, c2, stream_xor (ctx\<lparr>gcm_iv := iv @ replicate 4 0, gcm_mode := 0, gcm_hash := gcm_aad (gcm_h ctx) zero_block aad\<rparr>) 0 ct, t)"
    using crypt_start [of iv aad 0 tag_len "replicate 16 0" ctx ct out0] assms by auto
  then show ?thesis by (simp add: gcm_auth_decrypt_def tag_diff_zero)
qed

theorem gcm_auth_decrypt_checks_witness:
  "\<exists>ctx' out check.
    gcm_crypt_and_tag gcm_init GCM_DECRYPT (replicate 12 0) [] [5] [] 16 (replicate 16 0) = Some (0, ctx', out, check)
    \<and> gcm_auth_decrypt gcm_init (replicate 12 0) [] (replicate 16 1) 16 [5] [] =
        Some (if \<forall>i < 16. replicate 16 1 ! i = check ! i then (0, out) else (-1, replicate (length [5 :: u8]) 0))"
  using gcm_auth_decrypt_checks [of "replicate 12 0" "[]" 16 gcm_init "[5]" "[]" "replicate 16 1"] by simp

text \<open>C6: \<open>gcm_finish\<close> accepts tag lengths from 4 to 15, but with any data or associated data
  it writes sixteen bytes into the tag buffer: a buffer of exactly \<open>tag_len\<close> bytes is written
  past its end.\<close>

theorem gcm_finish_short_tag_overrun:
  assumes "4 \<le> tag_len" "tag_len < 16" "length tag = tag_len" "0 < len" "len < 2 ^ 61"
  shows "gcm_finish ctx len aad_len tag tag_len = None"
proof -
  have "(of_nat (len * 8) :: u64) \<noteq> 0"
    unfolding word_of_nat_eq_0_iff using assms by (auto dest!: nat_dvd_not_less [rotated 2])
  then show ?thesis using assms by (simp add: gcm_finish_def Let_def gcm_iv_ctr_def)
qed

theorem gcm_finish_short_tag_overrun_witness:
  "length (replicate 8 0 :: bytes) = 8 \<and> gcm_finish gcm_init 20 0 (replicate 8 0) 8 = None"
  using gcm_finish_short_tag_overrun [of 8 "replicate 8 0" 20 gcm_init 0] by simp

end
