(* ===== verification/Kdf.thy ===== *)
theory Kdf
  imports Aes
begin

unbundle bit_operations_syntax

text \<open>
  CMAC with AES (\<open>src/crypto/cmac_aes.c\<close>) and the counter-mode key derivation built on it
  (\<open>src/crypto/kdf_ctr_cmac_aes.c\<close>). \<^const>\<open>None\<close> is a failed assertion or the dereference of
  the null round-key pointer left by a refused key size.
\<close>

section \<open>CMAC\<close>

abbreviation (input) BLOCK_SIZE :: nat where "BLOCK_SIZE \<equiv> 16"

definition BLOCK_XOR :: "bytes \<Rightarrow> bytes \<Rightarrow> bytes" where
  "BLOCK_XOR a b = map (\<lambda>i. a ! i XOR b ! i) [0..<BLOCK_SIZE]"

definition BLOCK_LSHIFT :: "bytes \<Rightarrow> bytes" where
  "BLOCK_LSHIFT src =
     fst (fold (\<lambda>i (dst, overflow). (dst[i := push_bit 1 (src ! i) OR overflow], if src ! i AND 0x80 \<noteq> 0 then 1 else 0))
       (rev [0..<BLOCK_SIZE]) (replicate BLOCK_SIZE 0, 0))"

definition generate_subkeys :: "bytes \<Rightarrow> nat \<Rightarrow> (bytes \<times> bytes) option" where
  "generate_subkeys key keybits =
     (case aes_setkey_enc key keybits of None \<Rightarrow> None
      | Some aes_ctx \<Rightarrow>
          let rb = replicate 15 0 @ [0x87];
              l = aes_encrypt aes_ctx (replicate BLOCK_SIZE 0);
              k1 = BLOCK_LSHIFT l;
              k1 = (if l ! 0 AND 0x80 \<noteq> 0 then BLOCK_XOR k1 rb else k1);
              k2 = BLOCK_LSHIFT k1;
              k2 = (if k1 ! 0 AND 0x80 \<noteq> 0 then BLOCK_XOR k2 rb else k2)
          in Some (k1, k2))"

definition cmac_pad :: "bytes \<Rightarrow> bytes \<Rightarrow> bytes \<Rightarrow> nat \<times> bytes" where
  "cmac_pad k1 k2 inp =
     (let len = length inp;
          aligned = (len \<noteq> 0 \<and> len mod BLOCK_SIZE = 0);
          n = (if len = 0 then 1 else if aligned then len div BLOCK_SIZE else len div BLOCK_SIZE + 1);
          m = inp @ replicate (n * BLOCK_SIZE - len) 0;
          lb = (n - 1) * BLOCK_SIZE
      in if aligned then (n, take lb m @ BLOCK_XOR (drop lb m) k1)
         else let m = m[len := 0x80] in (n, take lb m @ BLOCK_XOR (drop lb m) k2))"

definition cmac_aes :: "bytes \<Rightarrow> nat \<Rightarrow> bytes \<Rightarrow> bytes option" where
  "cmac_aes key keybits inp =
     (case (generate_subkeys key keybits, aes_setkey_enc key keybits) of
        (Some (k1, k2), Some aes_ctx) \<Rightarrow>
          let (n, m) = cmac_pad k1 k2 inp
          in Some (fold (\<lambda>i out. aes_encrypt aes_ctx (BLOCK_XOR (drop (i * BLOCK_SIZE) m) out)) [1..<n]
                    (aes_encrypt aes_ctx m))
      | _ \<Rightarrow> None)"

definition cmac_aes_verify :: "bytes \<Rightarrow> nat \<Rightarrow> bytes \<Rightarrow> bytes \<Rightarrow> bool option" where
  "cmac_aes_verify key keybits inp expected =
     map_option (\<lambda>result. result = take BLOCK_SIZE expected) (cmac_aes key keybits inp)"

section \<open>Key derivation\<close>

definition be32_bytes :: "u32 \<Rightarrow> bytes" where
  "be32_bytes n = [ucast (drop_bit 24 n), ucast (drop_bit 16 n), ucast (drop_bit 8 n), ucast n]"

definition kdf_ctr_bytes :: "nat \<Rightarrow> nat \<Rightarrow> bytes option" where
  "kdf_ctr_bytes ctr_len i =
     (if ctr_len \<in> {8, 16, 24, 32} then Some (drop (4 - ctr_len div 8) (be32_bytes (of_nat (i + 1)))) else None)"

definition kdf_ctr_cmac_aes_fixed :: "bytes \<Rightarrow> nat \<Rightarrow> nat \<Rightarrow> bytes \<Rightarrow> nat \<Rightarrow> bytes option" where
  "kdf_ctr_cmac_aes_fixed key keybits ctr_len fixed keybits_out =
     (if ctr_len mod 8 \<noteq> 0 \<or> keybits_out mod 8 \<noteq> 0 then None
      else let n = keybits_out div (BLOCK_SIZE * 8);
               n = (if keybits_out mod (BLOCK_SIZE * 8) \<noteq> 0 then n + 1 else n)
           in map_option (take (keybits_out div 8))
                (foldM (\<lambda>i k_out. do {
                    ctr \<leftarrow> kdf_ctr_bytes ctr_len i;
                    blk \<leftarrow> cmac_aes key keybits (ctr @ fixed);
                    Some (k_out @ blk) }) [0..<n] []))"

definition kdf_ctr_cmac_aes :: "bytes \<Rightarrow> nat \<Rightarrow> nat \<Rightarrow> bytes \<Rightarrow> bytes \<Rightarrow> nat \<Rightarrow> bytes option" where
  "kdf_ctr_cmac_aes key keybits ctr_len label ctxt keybits_out =
     (if ctr_len mod 8 \<noteq> 0 \<or> keybits_out mod 8 \<noteq> 0 \<or> 0xffff \<le> keybits_out then None
      else kdf_ctr_cmac_aes_fixed key keybits ctr_len
             (label @ [0] @ ctxt @ [of_nat (keybits_out div 256), of_nat keybits_out]) keybits_out)"

end
