(* ===== verification/SecSd.thy ===== *)
theory SecSd
  imports PktHdr Kdf
begin

unbundle bit_operations_syntax

text \<open>
  The secure-domain database of \<open>src/uet_sec_sd.c\<close>: the table of secure domains (SD), the key
  pool, the clock-driven rotation of association numbers (AN) with its cache of effective
  keys, and the initialisation from the environment. The wall clock is an argument of every
  operation that reads it, in milliseconds.
\<close>

section \<open>State\<close>

abbreviation (input) UET_SEC_MAX_SD :: nat where "UET_SEC_MAX_SD \<equiv> 8"
abbreviation (input) UET_SEC_KEY_SIZE :: nat where "UET_SEC_KEY_SIZE \<equiv> 32"
abbreviation (input) UET_SEC_KDF_GEN_SIZE :: nat where "UET_SEC_KDF_GEN_SIZE \<equiv> 44"
abbreviation (input) UET_SEC_CTR_SIZE :: nat where "UET_SEC_CTR_SIZE \<equiv> 8"
abbreviation (input) UET_SEC_ROT_INTERVAL_MS :: u64 where "UET_SEC_ROT_INTERVAL_MS \<equiv> 10000"
abbreviation (input) UET_SEC_ROT_GUARD_MS :: u64 where "UET_SEC_ROT_GUARD_MS \<equiv> 2000"
abbreviation (input) UET_SEC_KEY_PREV :: nat where "UET_SEC_KEY_PREV \<equiv> 0"
abbreviation (input) UET_SEC_KEY_CUR :: nat where "UET_SEC_KEY_CUR \<equiv> 1"
abbreviation (input) UET_SEC_KEY_NEXT :: nat where "UET_SEC_KEY_NEXT \<equiv> 2"
abbreviation (input) UET_SEC_FAM_V4 :: nat where "UET_SEC_FAM_V4 \<equiv> 0"
abbreviation (input) UET_SEC_FAM_V6 :: nat where "UET_SEC_FAM_V6 \<equiv> 1"
abbreviation (input) DEF_SDI :: u32 where "DEF_SDI \<equiv> 1"

datatype uet_sec_mode = UET_SEC_MODE_NONE | UET_SEC_MODE_DIRECT | UET_SEC_MODE_CLUSTER | UET_SEC_MODE_SERVER

datatype uet_sec_alg = UET_SEC_ALG_NONE | UET_SEC_ALG_AES_GCM_256

record uet_sec_sd_stats =
  in_auth_pkts :: u64
  in_auth_fail_pkts :: u64
  in_invalid :: u64
  in_invalid_sa :: u64
  in_late_pkts :: u64
  out_invoke_fail :: u64
  out_auth_pkts :: u64
  in_binding_failure_pkts :: u64

record uet_sec_port_stats =
  in_errored_pkts :: u64
  out_errored_pkts :: u64
  in_rx_encryption_bypass_pkts :: u64
  out_rx_encryption_bypass_pkts :: u64

record uet_sec_sd =
  sd_enabled :: bool
  sd_sdi :: u32
  sd_mode :: uet_sec_mode
  sd_use_ssi :: bool
  sd_rekey :: bool
  sd_rekey_mask :: u64
  sd_rekey_shift :: nat
  sd_coff :: nat
  sd_alg :: uet_sec_alg
  sd_epoch :: u16
  sd_an :: u8
  sd_tx_counter :: u64
  sd_epoch_based_rejection :: bool
  sd_rx_max_epoch_lifetime :: u16
  sd_invoke_fatal_threshold :: u64
  sd_auth_fail_threshold :: u64
  sd_domain_dropping :: bool
  sd_stats :: uet_sec_sd_stats
  sd_ini_start_psn :: u32
  sd_tgt_start_psn :: u32
  sd_rotation_enabled :: bool
  sd_tx_rot :: u64
  sd_pool :: "bytes list list"
  sd_cache_rot :: u64
  sd_eff_key :: "bytes list list"

record sec_state =
  sdkdb :: "uet_sec_sd list"
  sec_port_stats :: uet_sec_port_stats

text \<open>The environment variables the module reads, and the addresses of the NIC.\<close>

record sec_env =
  env_sec_mode :: "string option"
  env_sec_ssi :: "string option"
  env_sec_server :: "string option"
  env_sec_client_ssi :: "string option"
  env_sec_key_rotation :: "string option"

record sec_nic =
  sn_has_ipv4 :: bool
  sn_ipv4_addr :: u32
  sn_has_ipv6 :: bool
  sn_ipv6_addr :: bytes

definition sd_stats_zero :: uet_sec_sd_stats where
  "sd_stats_zero = \<lparr>in_auth_pkts = 0, in_auth_fail_pkts = 0, in_invalid = 0, in_invalid_sa = 0,
     in_late_pkts = 0, out_invoke_fail = 0, out_auth_pkts = 0, in_binding_failure_pkts = 0\<rparr>"

definition sd_zero :: uet_sec_sd where
  "sd_zero = \<lparr>sd_enabled = False, sd_sdi = 0, sd_mode = UET_SEC_MODE_NONE, sd_use_ssi = False, sd_rekey = False,
     sd_rekey_mask = 0, sd_rekey_shift = 0, sd_coff = 0, sd_alg = UET_SEC_ALG_NONE, sd_epoch = 0, sd_an = 0,
     sd_tx_counter = 0, sd_epoch_based_rejection = False, sd_rx_max_epoch_lifetime = 0,
     sd_invoke_fatal_threshold = 0, sd_auth_fail_threshold = 0, sd_domain_dropping = False,
     sd_stats = sd_stats_zero, sd_ini_start_psn = 0, sd_tgt_start_psn = 0, sd_rotation_enabled = False,
     sd_tx_rot = 0, sd_pool = replicate 2 (replicate 4 (replicate 44 0)), sd_cache_rot = 0,
     sd_eff_key = replicate 2 (replicate 3 (replicate 44 0))\<rparr>"

definition sec_state_zero :: sec_state where
  "sec_state_zero = \<lparr>sdkdb = replicate 8 sd_zero,
     sec_port_stats = \<lparr>in_errored_pkts = 0, out_errored_pkts = 0, in_rx_encryption_bypass_pkts = 0,
       out_rx_encryption_bypass_pkts = 0\<rparr>\<rparr>"

section \<open>Compiled-in keys\<close>

definition def_key :: "bytes list" where
  "def_key =
    [[0x07, 0xe9, 0x72, 0x49, 0x58, 0xd9, 0xe1, 0xf7, 0x10, 0xf5, 0x94, 0xe1, 0x8e, 0x11, 0xfd, 0x8d, 0x4a, 0x35, 0x82, 0xc2, 0x56, 0xcc, 0xfe, 0xcf, 0xc5, 0xeb, 0x19, 0x02, 0xe5, 0x56, 0xbe, 0xd4] @ replicate 12 0,
     [0xd4, 0xc3, 0xa2, 0xcf, 0xb3, 0xc1, 0x06, 0x7f, 0xdd, 0xcf, 0x9f, 0xe2, 0xe1, 0x42, 0x8a, 0x29, 0xc8, 0xd3, 0x1b, 0xfb, 0x2a, 0x97, 0x02, 0x64, 0x90, 0x0f, 0x16, 0xdf, 0x7c, 0x36, 0xdb, 0x6f] @ replicate 12 0,
     [0x3b, 0x8f, 0x0d, 0x6a, 0xe4, 0x27, 0x91, 0xac, 0x55, 0x1e, 0xc0, 0x74, 0x2d, 0xb9, 0x66, 0x08, 0xf1, 0x4c, 0xaa, 0x93, 0x70, 0xd5, 0x3e, 0x82, 0x19, 0xbb, 0x6f, 0x24, 0xce, 0x07, 0x41, 0x98] @ replicate 12 0,
     [0xa7, 0x62, 0xf5, 0x11, 0x8c, 0x4b, 0x30, 0xde, 0x09, 0x9a, 0x77, 0xe3, 0x5f, 0x21, 0xb8, 0xc6, 0x74, 0x0e, 0xd2, 0x46, 0x99, 0x2b, 0xa5, 0x18, 0xed, 0x53, 0x81, 0x6c, 0x3a, 0xf0, 0x27, 0xbd] @ replicate 12 0]"

definition uet_sec_wrap_const :: bytes where
  "uet_sec_wrap_const = [0x9e, 0x37, 0x79, 0xb9, 0x7f, 0x4a, 0x7c, 0x15, 0xf3, 0x9c, 0xc0, 0x60, 0x5c, 0xed, 0xc8, 0x34, 0x10, 0x82, 0x27, 0x6b, 0xf3, 0xa2, 0x72, 0x51, 0xec, 0xdd, 0x74, 0x35, 0x21, 0xf8, 0x8e, 0xa3]"

definition uet_sec_label1 :: bytes where
  "uet_sec_label1 = [0x55, 0x31]"

definition uet_sec_label2 :: bytes where
  "uet_sec_label2 = [0x55, 0x32]"

section \<open>Lookup and the start PSNs of secure connections\<close>

definition uet_sec_sd_get :: "sec_state \<Rightarrow> u32 \<Rightarrow> uet_sec_sd option" where
  "uet_sec_sd_get st sdi = (if unat sdi \<ge> UET_SEC_MAX_SD then None else Some (sdkdb st ! unat sdi))"

text \<open>Writing through the pointer returned by the lookup.\<close>

definition sd_put :: "sec_state \<Rightarrow> u32 \<Rightarrow> uet_sec_sd \<Rightarrow> sec_state" where
  "sd_put st sdi sd = st\<lparr>sdkdb := (sdkdb st)[unat sdi := sd]\<rparr>"

definition uet_sec_sd_get_ini_start_psn :: "sec_state \<Rightarrow> u32 \<Rightarrow> u32" where
  "uet_sec_sd_get_ini_start_psn st sdi =
     (case uet_sec_sd_get st sdi of Some sd \<Rightarrow> sd_ini_start_psn sd | None \<Rightarrow> 0)"

definition uet_sec_sd_set_ini_start_psn :: "sec_state \<Rightarrow> u32 \<Rightarrow> u32 \<Rightarrow> sec_state" where
  "uet_sec_sd_set_ini_start_psn st sdi psn =
     (case uet_sec_sd_get st sdi of Some sd \<Rightarrow> sd_put st sdi (sd\<lparr>sd_ini_start_psn := psn\<rparr>) | None \<Rightarrow> st)"

definition uet_sec_sd_get_tgt_start_psn :: "sec_state \<Rightarrow> u32 \<Rightarrow> u32" where
  "uet_sec_sd_get_tgt_start_psn st sdi =
     (case uet_sec_sd_get st sdi of Some sd \<Rightarrow> sd_tgt_start_psn sd | None \<Rightarrow> 0)"

definition uet_sec_sd_set_tgt_start_psn :: "sec_state \<Rightarrow> u32 \<Rightarrow> u32 \<Rightarrow> sec_state" where
  "uet_sec_sd_set_tgt_start_psn st sdi psn =
     (case uet_sec_sd_get st sdi of Some sd \<Rightarrow> sd_put st sdi (sd\<lparr>sd_tgt_start_psn := psn\<rparr>) | None \<Rightarrow> st)"

section \<open>Key rotation\<close>

definition uet_sec_rot_now :: "u64 \<Rightarrow> u64 \<times> u64" where
  "uet_sec_rot_now now_ms =
     (let rot = now_ms div UET_SEC_ROT_INTERVAL_MS in (rot, now_ms - rot * UET_SEC_ROT_INTERVAL_MS))"

definition uet_sec_wrap_mix :: "u64 \<Rightarrow> bytes" where
  "uet_sec_wrap_mix gen = map (\<lambda>i. uet_sec_wrap_const ! i
      XOR ucast (drop_bit ((i mod 8) * 8) gen) XOR ucast (gen + word_of_nat i)) [0..<UET_SEC_KEY_SIZE]"

definition uet_sec_sd_tx_an :: "uet_sec_sd \<Rightarrow> u64 \<Rightarrow> u8" where
  "uet_sec_sd_tx_an sd now =
     (if \<not> sd_rotation_enabled sd then sd_an sd else ucast (fst (uet_sec_rot_now now) AND 1))"

definition uet_sec_sd_tx_rotate :: "uet_sec_sd \<Rightarrow> u64 \<Rightarrow> uet_sec_sd" where
  "uet_sec_sd_tx_rotate sd now =
     (if \<not> sd_rotation_enabled sd then sd
      else let rot = fst (uet_sec_rot_now now) in
        if rot \<noteq> sd_tx_rot sd then sd\<lparr>sd_tx_rot := rot, sd_tx_counter := 0, sd_epoch := 0\<rparr> else sd)"

text \<open>\<open>r\<close> is an \<open>int64_t\<close>: its slot is taken from its low bits and its generation by signed
  division.\<close>

definition xor_prefix :: "bytes \<Rightarrow> bytes \<Rightarrow> bytes" where
  "xor_prefix key mix = map2 (XOR) (take UET_SEC_KEY_SIZE key) mix @ drop UET_SEC_KEY_SIZE key"

definition uet_sec_sd_gen_key :: "uet_sec_sd \<Rightarrow> u64 \<Rightarrow> nat \<Rightarrow> uet_sec_sd" where
  "uet_sec_sd_gen_key sd r which =
     (let mix = uet_sec_wrap_mix (word_of_int (sint r sdiv 4));
          slot = unat (r AND 3)
      in sd\<lparr>sd_eff_key := map (\<lambda>fam. (sd_eff_key sd ! fam)[which := xor_prefix (sd_pool sd ! fam ! slot) mix]) [0, 1]\<rparr>)"

definition uet_sec_sd_refresh_keys :: "uet_sec_sd \<Rightarrow> u64 \<Rightarrow> uet_sec_sd" where
  "uet_sec_sd_refresh_keys sd rot =
     (let sd' =
        (if rot = sd_cache_rot sd + 1 then
           uet_sec_sd_gen_key
             (sd\<lparr>sd_eff_key := map (\<lambda>fam. let e = sd_eff_key sd ! fam;
                    e = e[UET_SEC_KEY_PREV := e ! UET_SEC_KEY_CUR] in e[UET_SEC_KEY_CUR := e ! UET_SEC_KEY_NEXT]) [0, 1]\<rparr>)
             (rot + 1) UET_SEC_KEY_NEXT
         else
           uet_sec_sd_gen_key (uet_sec_sd_gen_key (uet_sec_sd_gen_key sd (rot - 1) UET_SEC_KEY_PREV)
             rot UET_SEC_KEY_CUR) (rot + 1) UET_SEC_KEY_NEXT)
      in sd'\<lparr>sd_cache_rot := rot\<rparr>)"

definition uet_sec_sd_key :: "uet_sec_sd \<Rightarrow> nat \<Rightarrow> u8 \<Rightarrow> u64 \<Rightarrow> bytes \<times> uet_sec_sd" where
  "uet_sec_sd_key sd fam an now =
     (if \<not> sd_rotation_enabled sd then (sd_pool sd ! fam ! unat an, sd)
      else let (rot, into) = uet_sec_rot_now now;
               sd = (if rot \<noteq> sd_cache_rot sd then uet_sec_sd_refresh_keys sd rot else sd);
               which = (if an = ucast (rot AND 1) then UET_SEC_KEY_CUR
                        else if into < UET_SEC_ROT_GUARD_MS then UET_SEC_KEY_PREV else UET_SEC_KEY_NEXT)
           in (sd_eff_key sd ! fam ! which, sd))"

section \<open>Initialisation\<close>

text \<open>\<open>strtoul(s, NULL, 10)\<close>, cut to the width of the variable it is assigned to (at most 64).\<close>

fun strtoul_digits :: "nat \<Rightarrow> string \<Rightarrow> nat" where
  "strtoul_digits acc (c # cs) =
     (if 48 \<le> (of_char c :: nat) \<and> (of_char c :: nat) \<le> 57 then strtoul_digits (10 * acc + (of_char c - 48)) cs else acc)"
| "strtoul_digits acc [] = acc"

definition strtoul10 :: "string \<Rightarrow> 'w::len word" where
  "strtoul10 s =
     (let s = dropWhile (\<lambda>c. c = CHR '' '' \<or> (9 \<le> (of_char c :: nat) \<and> (of_char c :: nat) \<le> 13)) s;
          sat = (\<lambda>n. if n < 2 ^ 64 then n else 2 ^ 64 - 1)
      in case s of
           c # cs \<Rightarrow> if c = CHR ''-'' then
                        (let n = strtoul_digits 0 cs in if n < 2 ^ 64 then - word_of_nat n else word_of_nat (2 ^ 64 - 1))
                     else if c = CHR ''+'' then word_of_nat (sat (strtoul_digits 0 cs))
                     else word_of_nat (sat (strtoul_digits 0 s))
         | [] \<Rightarrow> 0)"

definition small_context :: "bytes \<Rightarrow> bytes \<Rightarrow> bytes \<Rightarrow> bytes" where
  "small_context epoch rekey addr = epoch @ rekey @ addr"

definition large_context :: "bytes \<Rightarrow> bytes \<Rightarrow> bytes \<Rightarrow> bytes" where
  "large_context epoch rekey addr = [0, 0, 0, 0] @ epoch @ rekey @ addr"

definition uet_sec_derive_family_keys :: "sec_env \<Rightarrow> uet_sec_sd \<Rightarrow> nat \<Rightarrow> u32 \<Rightarrow> bytes \<Rightarrow> uet_sec_sd option" where
  "uet_sec_derive_family_keys env sd fam v4 v6 =
     foldM (\<lambda>an sd. do {
       derived_key \<leftarrow> kdf_ctr_cmac_aes (take UET_SEC_KEY_SIZE (sd_pool sd ! fam ! an)) (UET_SEC_KEY_SIZE * 8) UET_SEC_CTR_SIZE
          uet_sec_label2
          (if fam = UET_SEC_FAM_V6 then large_context (be16 (sd_epoch sd)) [0, 0, 0, 0] v6
           else small_context (be16 (sd_epoch sd)) [0, 0, 0, 0]
             (be32 (case env_sec_ssi env of Some s \<Rightarrow> strtoul10 s | None \<Rightarrow> v4)))
          (UET_SEC_KDF_GEN_SIZE * 8);
       Some (sd\<lparr>sd_pool := (sd_pool sd)[fam := (sd_pool sd ! fam)[an := derived_key]]\<rparr>) }) [0, 1] sd"

definition uet_sec_init_sd :: "sec_env \<Rightarrow> sec_nic \<Rightarrow> u64 \<Rightarrow> sec_state \<Rightarrow> u32 \<Rightarrow> uet_sec_mode \<Rightarrow> bool \<Rightarrow> bool
    \<Rightarrow> (int \<times> sec_state) option" where
  "uet_sec_init_sd env nic now st sdi mode use_ssi rekey =
     (case uet_sec_sd_get st sdi of None \<Rightarrow> Some (- EINVAL, st)
      | Some _ \<Rightarrow>
        let sd = sd_zero\<lparr>sd_enabled := True, sd_sdi := sdi, sd_mode := mode, sd_use_ssi := use_ssi, sd_rekey := rekey,
              sd_rekey_mask := 0x000000000000FF00, sd_rekey_shift := 8, sd_coff := (if use_ssi then 16 else 12),
              sd_alg := UET_SEC_ALG_AES_GCM_256, sd_epoch_based_rejection := True, sd_rx_max_epoch_lifetime := 16,
              sd_auth_fail_threshold := 1000, sd_invoke_fatal_threshold := 0x0000ffffffffffff\<rparr>
        in if env_sec_key_rotation env \<noteq> None \<and> mode = UET_SEC_MODE_SERVER then Some (- EINVAL, sd_put st sdi sd)
           else let sd = sd\<lparr>sd_rotation_enabled := (env_sec_key_rotation env \<noteq> None)\<rparr>;
                    sd = (if sd_rotation_enabled sd then sd\<lparr>sd_tx_rot := fst (uet_sec_rot_now now)\<rparr> else sd);
                    sd = sd\<lparr>sd_pool := [def_key, def_key]\<rparr>
             in if mode = UET_SEC_MODE_SERVER \<and> env_sec_server env = None then do {
                  sd \<leftarrow> (if sn_has_ipv4 nic
                         then uet_sec_derive_family_keys env sd UET_SEC_FAM_V4 (sn_ipv4_addr nic) [] else Some sd);
                  sd \<leftarrow> (if sn_has_ipv6 nic \<and> use_ssi
                         then uet_sec_derive_family_keys env sd UET_SEC_FAM_V6 0 (sn_ipv6_addr nic) else Some sd);
                  Some (0, sd_put st sdi sd) }
                else Some (0, sd_put st sdi sd))"

definition uet_sec_init :: "sec_env \<Rightarrow> sec_nic \<Rightarrow> u64 \<Rightarrow> (int \<times> sec_state) option" where
  "uet_sec_init env nic now =
     (let st = sec_state_zero in
      case env_sec_mode env of None \<Rightarrow> Some (0, st)
      | Some sec_mode \<Rightarrow>
          if sec_mode = ''direct'' then
            uet_sec_init_sd env nic now st DEF_SDI UET_SEC_MODE_DIRECT (env_sec_ssi env \<noteq> None) False
          else if sec_mode = ''cluster'' then
            uet_sec_init_sd env nic now st DEF_SDI UET_SEC_MODE_CLUSTER (env_sec_ssi env \<noteq> None) True
          else if sec_mode = ''server'' then
            (if env_sec_ssi env = None then Some (- EINVAL, st)
             else if env_sec_server env \<noteq> None \<and> env_sec_client_ssi env = None then Some (- EINVAL, st)
             else uet_sec_init_sd env nic now st DEF_SDI UET_SEC_MODE_SERVER True False)
          else Some (- EINVAL, st))"

section \<open>Reference definitions\<close>

definition eff_key_at :: "uet_sec_sd \<Rightarrow> nat \<Rightarrow> u64 \<Rightarrow> bytes" where
  "eff_key_at sd fam r = xor_prefix (sd_pool sd ! fam ! unat (r AND 3)) (uet_sec_wrap_mix (word_of_int (sint r sdiv 4)))"

definition key_shape :: "uet_sec_sd \<Rightarrow> bool" where
  "key_shape sd \<longleftrightarrow> (\<exists>a b c d e f. sd_eff_key sd = [[a, b, c], [d, e, f]])"

definition key_window :: "uet_sec_sd \<Rightarrow> bool" where
  "key_window sd \<longleftrightarrow> sd_eff_key sd =
     map (\<lambda>fam. map (eff_key_at sd fam) [sd_cache_rot sd - 1, sd_cache_rot sd, sd_cache_rot sd + 1]) [0, 1]"

text \<open>A rotation index of 0 marks a cache that was never built.\<close>

definition key_cache_inv :: "uet_sec_sd \<Rightarrow> bool" where
  "key_cache_inv sd \<longleftrightarrow> key_shape sd \<and> (sd_cache_rot sd = 0 \<or> key_window sd)"

definition same_but_cache :: "uet_sec_sd \<Rightarrow> uet_sec_sd \<Rightarrow> bool" where
  "same_but_cache sd sd' \<longleftrightarrow> sd'\<lparr>sd_eff_key := sd_eff_key sd, sd_cache_rot := sd_cache_rot sd\<rparr> = sd"

definition sel_rot :: "u8 \<Rightarrow> u64 \<Rightarrow> u64" where
  "sel_rot an now = (let (rot, into) = uet_sec_rot_now now in
     if an = ucast (rot AND 1) then rot else if into < UET_SEC_ROT_GUARD_MS then rot - 1 else rot + 1)"

definition demo_sd :: uet_sec_sd where
  "demo_sd = sd_zero\<lparr>sd_enabled := True, sd_rotation_enabled := True, sd_pool := [def_key, def_key]\<rparr>"

section \<open>Lemmas\<close>

lemma eff_key_at_cong: "sd_pool sd = sd_pool sd' \<Longrightarrow> eff_key_at sd fam r = eff_key_at sd' fam r"
  by (simp add: eff_key_at_def)

lemma refresh_keys_window:
  assumes "key_cache_inv sd" "rot \<noteq> 0" "rot \<noteq> 1"
  shows "key_window (uet_sec_sd_refresh_keys sd rot)"
proof -
  obtain a b c d e f where sh: "sd_eff_key sd = [[a, b, c], [d, e, f]]"
    using assms(1) by (auto simp: key_cache_inv_def key_shape_def)
  show ?thesis
  proof (cases "rot = sd_cache_rot sd + 1")
    case True
    then have "sd_cache_rot sd \<noteq> 0" using assms(3) by auto
    then have w: "key_window sd" using assms(1) by (simp add: key_cache_inv_def)
    show ?thesis
      using w True
      by (simp add: key_window_def uet_sec_sd_refresh_keys_def uet_sec_sd_gen_key_def eff_key_at_def Let_def)
  next
    case False
    then show ?thesis
      using sh by (simp add: key_window_def uet_sec_sd_refresh_keys_def uet_sec_sd_gen_key_def eff_key_at_def Let_def)
  qed
qed

lemma refresh_keys_frame: "same_but_cache sd (uet_sec_sd_refresh_keys sd rot)" "sd_cache_rot (uet_sec_sd_refresh_keys sd rot) = rot"
  by (simp_all add: same_but_cache_def uet_sec_sd_refresh_keys_def uet_sec_sd_gen_key_def Let_def)

lemma same_but_cache_simps:
  assumes "same_but_cache sd sd'"
  shows "sd_pool sd' = sd_pool sd" "sd_rotation_enabled sd' = sd_rotation_enabled sd"
  using arg_cong [OF assms [unfolded same_but_cache_def], of sd_pool]
    arg_cong [OF assms [unfolded same_but_cache_def], of sd_rotation_enabled] by simp_all

lemma key_window_shape: "key_window sd \<Longrightarrow> key_shape sd"
  by (auto simp: key_window_def key_shape_def)

lemma rot_now_ge2:
  assumes "20000 \<le> now"
  shows "fst (uet_sec_rot_now now) \<noteq> 0" "fst (uet_sec_rot_now now) \<noteq> 1"
proof -
  have "20000 \<le> unat now" using assms by (simp add: word_le_nat_alt)
  then have "2 \<le> unat now div 10000" by linarith
  then have "unat (now div 10000) \<ge> 2" by (simp add: unat_div)
  then show "fst (uet_sec_rot_now now) \<noteq> 0" "fst (uet_sec_rot_now now) \<noteq> 1"
    by (auto simp: uet_sec_rot_now_def Let_def)
qed

lemma sd_key_spec:
  assumes "sd_rotation_enabled sd" "key_cache_inv sd" "fam < 2" "20000 \<le> now"
  shows "fst (uet_sec_sd_key sd fam an now) = eff_key_at sd fam (sel_rot an now)"
    and "key_cache_inv (snd (uet_sec_sd_key sd fam an now))"
    and "same_but_cache sd (snd (uet_sec_sd_key sd fam an now))"
proof -
  obtain rot into where ri: "uet_sec_rot_now now = (rot, into)" by fastforce
  have r: "rot \<noteq> 0" "rot \<noteq> 1" using rot_now_ge2 [OF assms(4)] ri by simp_all
  define sd' where "sd' = (if rot \<noteq> sd_cache_rot sd then uet_sec_sd_refresh_keys sd rot else sd)"
  have w: "key_window sd'"
    using assms(2) r refresh_keys_window [OF assms(2) r] by (auto simp: sd'_def key_cache_inv_def)
  have cr: "sd_cache_rot sd' = rot" by (auto simp: sd'_def refresh_keys_frame)
  have fr: "same_but_cache sd sd'"
    using refresh_keys_frame(1) by (auto simp: sd'_def same_but_cache_def)
  have key: "uet_sec_sd_key sd fam an now = (sd_eff_key sd' ! fam !
      (if an = ucast (rot AND 1) then 1 else if into < 2000 then 0 else 2), sd')"
    using assms(1) by (simp add: uet_sec_sd_key_def ri Let_def flip: sd'_def)
  have "fam = 0 \<or> fam = 1" using assms(3) by auto
  then show "fst (uet_sec_sd_key sd fam an now) = eff_key_at sd fam (sel_rot an now)"
    using w same_but_cache_simps(1) [OF fr]
    by (auto simp: key key_window_def cr sel_rot_def ri intro!: eff_key_at_cong)
  show "key_cache_inv (snd (uet_sec_sd_key sd fam an now))"
    using w key_window_shape [OF w] by (simp add: key key_cache_inv_def)
  show "same_but_cache sd (snd (uet_sec_sd_key sd fam an now))" by (simp add: key fr)
qed

lemma unat_rot_now: "unat (fst (uet_sec_rot_now now)) = unat now div 10000"
  by (simp add: uet_sec_rot_now_def Let_def unat_div)

lemma unat_into_now: "unat (snd (uet_sec_rot_now now)) = unat now mod 10000"
proof -
  have "now - now div 10000 * 10000 = now mod 10000" by (rule minus_div_mult_eq_mod)
  then show ?thesis by (simp add: uet_sec_rot_now_def Let_def unat_mod)
qed

lemma an_of_rot: "ucast (a AND 1) = (ucast (b AND 1) :: u8) \<longleftrightarrow> odd (a :: u64) = odd (b :: u64)"
proof -
  have *: "a AND 1 = (if odd a then 1 else 0)" for a :: u64
    by (metis and_one_eq parity_cases)
  show ?thesis unfolding * by auto
qed

lemma word_succ_eq: "unat a + 1 = unat b \<Longrightarrow> b = a + 1" for a b :: u64
  using unsigned_less [where ?'a = nat and w = b] by (simp add: word_unat_eq_iff unat_word_ariths)

lemma bucket_skew:
  fixes t r :: nat
  assumes "r < t + 2000" "t \<le> r + 8000"
  shows "t div 10000 = r div 10000 \<or> t div 10000 + 1 = r div 10000 \<and> r mod 10000 < 2000
    \<or> t div 10000 = r div 10000 + 1 \<and> 2000 \<le> r mod 10000"
proof -
  obtain a i where t: "t = 10000 * a + i" "i < 10000" by (metis mult_div_mod_eq mod_less_divisor zero_less_numeral)
  obtain b j where r: "r = 10000 * b + j" "j < 10000" by (metis mult_div_mod_eq mod_less_divisor zero_less_numeral)
  have "a \<le> b + 1" "b \<le> a + 1" using assms t r by linarith+
  then consider "a = b" | "b = a + 1" | "a = b + 1" by linarith
  moreover have "t div 10000 = a" "r div 10000 = b" "r mod 10000 = j" using t r by simp_all
  ultimately show ?thesis using assms t r by cases linarith+
qed

lemma sel_rot_skew:
  assumes "unat rx < unat tx + 2000" "unat tx \<le> unat rx + 8000"
  shows "sel_rot (ucast (fst (uet_sec_rot_now tx) AND 1)) rx = fst (uet_sec_rot_now tx)"
proof -
  let ?t = "fst (uet_sec_rot_now tx)" and ?r = "fst (uet_sec_rot_now rx)" and ?i = "snd (uet_sec_rot_now rx)"
  have t: "unat ?t = unat tx div 10000" and r: "unat ?r = unat rx div 10000" and i: "unat ?i = unat rx mod 10000"
    by (simp_all add: unat_rot_now unat_into_now)
  consider "unat ?t = unat ?r" | "unat ?t + 1 = unat ?r \<and> unat ?i < 2000" | "unat ?t = unat ?r + 1 \<and> 2000 \<le> unat ?i"
    using bucket_skew [OF assms] unfolding t r i by blast
  then show ?thesis
  proof cases
    case 1
    then have "?t = ?r" by (rule word_unat_eq_iff [THEN iffD2])
    then show ?thesis by (simp add: sel_rot_def case_prod_beta)
  next
    case 2
    then have "?r = ?t + 1" by (intro word_succ_eq) simp
    moreover have "?i < 2000" using 2 by (simp add: word_less_nat_alt)
    ultimately show ?thesis by (simp add: sel_rot_def case_prod_beta an_of_rot Let_def)
  next
    case 3
    then have "?t = ?r + 1" by (intro word_succ_eq) simp
    moreover have "\<not> ?i < 2000" using 3 by (simp add: word_less_nat_alt)
    ultimately show ?thesis by (simp add: sel_rot_def case_prod_beta an_of_rot Let_def)
  qed
qed

lemma sel_rot_self: "sel_rot (ucast (fst (uet_sec_rot_now now) AND 1)) now = fst (uet_sec_rot_now now)"
  using sel_rot_skew [of now now] by simp

lemma nth_wrap_mix:
  "i < 32 \<Longrightarrow> uet_sec_wrap_mix gen ! i =
     uet_sec_wrap_const ! i XOR ucast (drop_bit ((i mod 8) * 8) gen) XOR ucast (gen + word_of_nat i)"
  by (simp add: uet_sec_wrap_mix_def)

lemma ucast_add_cong: "ucast g = (ucast g' :: u8) \<Longrightarrow> ucast (g + n) = (ucast (g' + n :: u64) :: u8)"
  by (simp add: ucast_down_add)

lemma wrap_mix_inj:
  assumes "gen < 2 ^ 56" "gen' < 2 ^ 56" "uet_sec_wrap_mix gen = uet_sec_wrap_mix gen'"
  shows "gen = gen'"
proof -
  have top: "ucast (drop_bit 56 g) = (0 :: u8)" if "g < 2 ^ 56" for g :: u64
  proof -
    have "drop_bit 56 g = 0" using that by (simp add: drop_bit_eq_div div_word_less)
    then show ?thesis by simp
  qed
  have eq: "uet_sec_wrap_mix gen ! i = uet_sec_wrap_mix gen' ! i" for i using assms(3) by simp
  have low7: "ucast (gen + 7) = (ucast (gen' + 7) :: u8)"
    using eq [of 7] top [OF assms(1)] top [OF assms(2)] by (simp add: nth_wrap_mix xor.assoc xor_left_cancel)
  have low: "ucast (gen + n) = (ucast (gen' + n) :: u8)" for n
    using ucast_add_cong [OF low7, of "n - 7"] by simp
  have byte: "ucast (drop_bit (i * 8) gen) = (ucast (drop_bit (i * 8) gen') :: u8)" if "i < 8" for i
    using eq [of i] that low [of "word_of_nat i"] by (simp add: nth_wrap_mix xor.assoc xor_left_cancel xor.commute [of _ "ucast (_ + _)"])
  show ?thesis
  proof (rule bit_word_eqI)
    fix n assume "n < LENGTH(64)"
    then have n: "n div 8 < 8" "n mod 8 < 8" by auto
    have "bit (ucast (drop_bit (n div 8 * 8) gen) :: u8) (n mod 8) = bit (ucast (drop_bit (n div 8 * 8) gen') :: u8) (n mod 8)"
      using byte [OF n(1)] by simp
    then show "bit gen n = bit gen' n" using n by (simp add: bit_simps)
  qed
qed

lemma rot_gen:
  defines "gen \<equiv> \<lambda>r :: u64. word_of_int (sint r sdiv 4) :: u64"
  assumes r: "r = fst (uet_sec_rot_now now)"
  shows "unat (gen r) = unat r div 4" and "gen r < 2 ^ 56"
proof -
  have "unat now < 2 ^ 64" using unsigned_less [where ?'a = nat and w = now] by simp
  then have b: "unat r \<le> 2 ^ 64 div 10000" by (simp add: r unat_rot_now div_le_mono)
  then have "unat r \<le> 1844674407370955" by simp
  then have "int (unat r) \<le> int 1844674407370955" by (simp only: of_nat_le_iff)
  then have "sint r = int (unat r)"
    using order_trans [OF _ uint_ge_0, of "- 9223372036854775808" r] by (simp add: sint_uint signed_take_bit_int_eq_self_iff)
  then have g: "gen r = word_of_nat (unat r div 4)"
    using int_sdiv_numeral [of "unat r" "Num.Bit0 (Num.Bit0 Num.One)"] by (simp add: gen_def)
  show u: "unat (gen r) = unat r div 4"
    using b by (simp add: g unat_of_nat)
  show "gen r < 2 ^ 56"
    using b by (simp add: word_less_nat_alt u)
qed

lemma unat_and_3: "unat (r AND 3) = unat r mod 4" for r :: u64
proof -
  have "r AND 3 = r AND mask 2" by (simp add: mask_eq_exp_minus_1)
  then show ?thesis by (simp add: take_bit_eq_mask [symmetric] take_bit_eq_mod unat_mod)
qed

lemma nth_xor_prefix:
  assumes "i < 32" "32 \<le> length k" "length m = 32"
  shows "xor_prefix k m ! i = k ! i XOR m ! i"
proof -
  have "length (map2 (XOR) (take 32 k) m) = 32" using assms by simp
  then show ?thesis using assms by (simp add: xor_prefix_def nth_append)
qed

lemma xor_prefix_inj:
  assumes "xor_prefix k m = xor_prefix k m'" "32 \<le> length k" "length m = 32" "length m' = 32"
  shows "m = m'"
proof (rule nth_equalityI)
  fix i assume "i < length m"
  then have i: "i < 32" using assms by simp
  have "k ! i XOR m ! i = k ! i XOR m' ! i"
    using nth_xor_prefix [OF i assms(2,3)] nth_xor_prefix [OF i assms(2,4)] assms(1) by simp
  then show "m ! i = m' ! i" by (simp add: xor_left_cancel)
qed (simp add: assms)

lemma length_wrap_mix [simp]: "length (uet_sec_wrap_mix g) = 32"
  by (simp add: uet_sec_wrap_mix_def)

text \<open>C8: with key rotation on, \<open>uet_sec_sd_key\<close> returns the effective key of exactly one rotation,
  the current one if the AN matches the clock, else the previous one during the guard window
  and the next one after it, whatever the state of the key cache was; and it leaves the cache
  consistent and the rest of the secure domain as it was.\<close>

theorem sd_key_cached:
  assumes "sd_rotation_enabled sd" "key_cache_inv sd" "fam < 2" "20000 \<le> now"
  shows "fst (uet_sec_sd_key sd fam an now) = eff_key_at sd fam (sel_rot an now)
    \<and> key_cache_inv (snd (uet_sec_sd_key sd fam an now))
    \<and> same_but_cache sd (snd (uet_sec_sd_key sd fam an now))"
  using sd_key_spec [OF assms] by blast

lemma demo_sd_inv: "sd_rotation_enabled demo_sd" "key_cache_inv demo_sd"
  by (simp_all add: demo_sd_def key_cache_inv_def key_shape_def sd_zero_def numeral_eq_Suc)

lemma length_def_key: "map length def_key = [44, 44, 44, 44]"
  by (simp only: def_key_def list.map length_append length_replicate list.size) simp

theorem sd_key_cached_witness:
  "fst (uet_sec_sd_key demo_sd 0 1 30000) = eff_key_at demo_sd 0 3
    \<and> key_cache_inv (snd (uet_sec_sd_key demo_sd 0 1 30000))
    \<and> same_but_cache demo_sd (snd (uet_sec_sd_key demo_sd 0 1 30000))"
proof -
  have "sel_rot 1 30000 = 3" by (simp add: sel_rot_def uet_sec_rot_now_def)
  then show ?thesis using sd_key_cached [OF demo_sd_inv, of 0 30000 1] by simp
qed

text \<open>C9: make before break: a receiver whose clock is less than two seconds ahead of the
  sender's and at most eight seconds behind it selects, for the AN the sender stamped, the key
  the sender encrypted with.\<close>

theorem rotation_skew_safe:
  assumes "sd_rotation_enabled stx" "key_cache_inv stx" "sd_rotation_enabled srx" "key_cache_inv srx"
    and "sd_pool stx = sd_pool srx" "fam < 2" "20000 \<le> tx" "20000 \<le> rx"
    and "unat rx < unat tx + 2000" "unat tx \<le> unat rx + 8000"
  shows "fst (uet_sec_sd_key srx fam (uet_sec_sd_tx_an stx tx) rx) =
    fst (uet_sec_sd_key stx fam (uet_sec_sd_tx_an stx tx) tx)"
  using assms sel_rot_skew [OF assms(9,10)] sel_rot_self [of tx]
  by (simp add: sd_key_spec(1) uet_sec_sd_tx_an_def eff_key_at_cong [OF assms(5)])

theorem rotation_skew_safe_witness:
  "fst (uet_sec_sd_key demo_sd 1 (uet_sec_sd_tx_an demo_sd 29999) 31000) =
    fst (uet_sec_sd_key demo_sd 1 (uet_sec_sd_tx_an demo_sd 29999) 29999)"
  by (rule rotation_skew_safe [OF demo_sd_inv demo_sd_inv]) simp_all

lemma eff_key_at_distinct:
  assumes "r = fst (uet_sec_rot_now now)" "r' = fst (uet_sec_rot_now now')" "r \<noteq> r'" "r AND 3 = r' AND 3"
    and "32 \<le> length (sd_pool sd ! fam ! unat (r AND 3))"
  shows "eff_key_at sd fam r \<noteq> eff_key_at sd fam r'"
proof
  let ?k = "sd_pool sd ! fam ! unat (r AND 3)"
  assume "eff_key_at sd fam r = eff_key_at sd fam r'"
  then have "xor_prefix ?k (uet_sec_wrap_mix (word_of_int (sint r sdiv 4)))
      = xor_prefix ?k (uet_sec_wrap_mix (word_of_int (sint r' sdiv 4)))"
    by (simp only: eff_key_at_def assms(4))
  then have "uet_sec_wrap_mix (word_of_int (sint r sdiv 4)) = uet_sec_wrap_mix (word_of_int (sint r' sdiv 4))"
    by (rule xor_prefix_inj) (simp_all only: assms(5) length_wrap_mix)
  then have "(word_of_int (sint r sdiv 4) :: u64) = word_of_int (sint r' sdiv 4)"
    by (rule wrap_mix_inj [OF rot_gen(2) [OF assms(1)] rot_gen(2) [OF assms(2)]])
  then have "unat r div 4 = unat r' div 4"
    by (simp only: flip: rot_gen(1) [OF assms(1)] rot_gen(1) [OF assms(2)])
  moreover have "unat r mod 4 = unat r' mod 4"
    by (simp only: assms(4) flip: unat_and_3)
  ultimately have "unat r = unat r'" by (metis mult_div_mod_eq)
  with assms(3) show False by (simp add: word_unat_eq_iff)
qed

lemma gen_key_eff:
  assumes "fam < 2" "which < length (sd_eff_key sd ! fam)"
  shows "sd_eff_key (uet_sec_sd_gen_key sd r which) ! fam ! which = eff_key_at sd fam r"
  using assms by (auto simp: uet_sec_sd_gen_key_def eff_key_at_def Let_def less_2_cases_iff)

text \<open>C10: a pool slot never repeats a key: two different rotations of the wall clock that use the
  same slot of the pool have different effective keys, and \<open>uet_sec_sd_gen_key\<close> writes different
  keys for them into the cache.\<close>

theorem eff_key_fresh:
  assumes "r = fst (uet_sec_rot_now now)" "r' = fst (uet_sec_rot_now now')" "r \<noteq> r'" "r AND 3 = r' AND 3"
    and "32 \<le> length (sd_pool sd ! fam ! unat (r AND 3))"
  shows "eff_key_at sd fam r \<noteq> eff_key_at sd fam r'
    \<and> (fam < 2 \<and> i < length (sd_eff_key sd ! fam) \<and> j < length (sd_eff_key sd ! fam) \<longrightarrow>
       sd_eff_key (uet_sec_sd_gen_key sd r i) ! fam ! i \<noteq> sd_eff_key (uet_sec_sd_gen_key sd r' j) ! fam ! j)"
  using eff_key_at_distinct [OF assms] gen_key_eff [of fam _ sd] by simp

theorem eff_key_fresh_witness:
  "eff_key_at demo_sd 0 2 \<noteq> eff_key_at demo_sd 0 6
    \<and> sd_eff_key (uet_sec_sd_gen_key demo_sd 2 UET_SEC_KEY_CUR) ! 0 ! UET_SEC_KEY_CUR
      \<noteq> sd_eff_key (uet_sec_sd_gen_key demo_sd 6 UET_SEC_KEY_NEXT) ! 0 ! UET_SEC_KEY_NEXT"
proof -
  have "length (def_key ! 2) = map length def_key ! 2"
    by (rule nth_map [symmetric]) (simp add: length_def_key flip: length_map [of length])
  then have "length (sd_pool demo_sd ! 0 ! unat (2 AND 3 :: u64)) = 44"
    by (simp add: length_def_key demo_sd_def)
  moreover have "length (sd_eff_key demo_sd ! 0) = 3" by (simp add: demo_sd_def sd_zero_def)
  ultimately show ?thesis
    using eff_key_fresh [of 2 20000 6 60000 demo_sd 0 UET_SEC_KEY_CUR UET_SEC_KEY_NEXT] by (simp add: uet_sec_rot_now_def)
qed

end
