(* ===== verification/Sec.thy ===== *)
theory Sec
  imports SecSd Gcm Parse
begin

unbundle bit_operations_syntax

text \<open>
  The per-packet security layer of \<open>src/uet_sec.c\<close>: building and refreshing the security
  header, encryption into the upper half of the packet buffer and in-place decryption. A
  buffer is a byte list and a pointer into it an offset; \<^const>\<open>None\<close> is an access outside the
  buffer. The wall clock is read anew by each helper, so an operation takes one clock value
  per reading.
\<close>

section \<open>Header fields\<close>

definition sec_tfs_type :: "u32 \<Rightarrow> u8" where
  "sec_tfs_type tfs = ucast (drop_bit 27 (tfs AND 0xf8000000))"

definition sec_tfs_an :: "u32 \<Rightarrow> u8" where
  "sec_tfs_an tfs = (if tfs AND 0x01000000 \<noteq> 0 then 1 else 0)"

definition sec_tfs_sdi :: "u32 \<Rightarrow> u32" where
  "sec_tfs_sdi tfs = tfs AND 0x00ffffff"

definition sec_tfs_sp :: "u32 \<Rightarrow> bool" where
  "sec_tfs_sp tfs \<longleftrightarrow> tfs AND 0x04000000 \<noteq> 0"

definition sec_l3_len :: "bool \<Rightarrow> nat" where
  "sec_l3_len is_ipv6 = ETHHDR_LEN + (if is_ipv6 then IPV6HDR_LEN else IPHDR_LEN) + ENTROPY_LEN"

definition sec_epoch_tsc :: "u16 \<Rightarrow> u64 \<Rightarrow> u64" where
  "sec_epoch_tsc epoch tsc = push_bit 48 (ucast epoch) OR (tsc AND 0x0000ffffffffffff)"

section \<open>Transmit side: header\<close>

record sec_hdr_res =
  sh_rc :: int
  sh_state :: sec_state
  sh_buf :: bytes
  sh_pkt :: nat
  sh_len :: int

text \<open>The association number is read at \<open>now1\<close>, the rotation bookkeeping at \<open>now2\<close>.\<close>

definition uet_sec_build_hdr :: "sec_env \<Rightarrow> u64 \<Rightarrow> u64 \<Rightarrow> sec_state \<Rightarrow> u32 \<Rightarrow> u32 \<Rightarrow> bytes \<Rightarrow> nat \<Rightarrow> int \<Rightarrow> bool
    \<Rightarrow> sec_hdr_res option" where
  "uet_sec_build_hdr env now1 now2 st sdi ssi buf pkt pkt_len is_ipv6 =
     (let fail = (\<lambda>st. \<lparr>sh_rc = - EINVAL, sh_state = st, sh_buf = buf, sh_pkt = pkt, sh_len = pkt_len\<rparr>);
          port_err = (\<lambda>st. st\<lparr>sec_port_stats := (sec_port_stats st)\<lparr>out_errored_pkts := out_errored_pkts (sec_port_stats st) + 1\<rparr>\<rparr>)
      in
      if pkt_len \<le> 0 then Some (fail st)
      else case uet_sec_sd_get st sdi of None \<Rightarrow> Some (fail (port_err st))
      | Some sd \<Rightarrow>
        if \<not> sd_enabled sd then Some (fail (port_err st))
        else
          let tx_an = uet_sec_sd_tx_an sd now1;
              sd = uet_sec_sd_tx_rotate sd now2;
              st = sd_put st sdi sd;
              copy_len = sec_l3_len is_ipv6;
              hl = (if sd_use_ssi sd then UET_SEC_SSI_LEN else UET_SEC_LEN)
          in if pkt < hl then Some (fail st)
          else do {
            h \<leftarrow> rdn buf pkt copy_len;
            let new_pkt = pkt - hl;
            let new_len = pkt_len + int hl;
            buf \<leftarrow> wr buf new_pkt h;
            let sec = new_pkt + copy_len;
            let tfs = push_bit 27 (ucast UET_PDS_TYPE_SECURITY) OR (push_bit 24 (ucast tx_an) AND 0x01000000)
                        OR (sd_sdi sd AND 0x00ffffff);
            let tfs = (if sd_use_ssi sd then tfs OR 0x04000000 else tfs);
            buf \<leftarrow> wr buf sec (be32 tfs);
            if sd_tx_counter sd \<ge> sd_invoke_fatal_threshold sd then
              (let stats = sd_stats sd; sd = sd\<lparr>sd_stats := stats\<lparr>out_invoke_fail := out_invoke_fail stats + 1\<rparr>\<rparr>
               in Some \<lparr>sh_rc = - EINVAL, sh_state = sd_put st sdi sd, sh_buf = buf, sh_pkt = new_pkt, sh_len = new_len\<rparr>)
            else do {
              let tsc = sd_tx_counter sd;
              let sd = sd\<lparr>sd_tx_counter := tsc + 1\<rparr>;
              let et = be64 (sec_epoch_tsc (sd_epoch sd) tsc);
              buf \<leftarrow> (if sd_use_ssi sd then do {
                         hssi \<leftarrow> (if sd_mode sd = UET_SEC_MODE_SERVER \<and> env_sec_server env \<noteq> None
                                 then map_option strtoul10 (env_sec_client_ssi env) else Some ssi);
                         wr buf (sec + 4) (be32 hssi @ et) }
                       else wr buf (sec + 4) et);
              Some \<lparr>sh_rc = 0, sh_state = sd_put st sdi sd, sh_buf = buf, sh_pkt = new_pkt, sh_len = new_len\<rparr> } })"

definition uet_sec_update_hdr_tsc :: "u64 \<Rightarrow> u64 \<Rightarrow> sec_state \<Rightarrow> bytes \<Rightarrow> nat \<Rightarrow> bool \<Rightarrow> (int \<times> sec_state \<times> bytes) option" where
  "uet_sec_update_hdr_tsc now1 now2 st buf pkt is_ipv6 =
     (let sec = pkt + sec_l3_len is_ipv6 in do {
      tfs \<leftarrow> rd32 buf sec;
      if sec_tfs_type tfs \<noteq> UET_PDS_TYPE_SECURITY then Some (- EINVAL, st, buf)
      else case uet_sec_sd_get st (sec_tfs_sdi tfs) of None \<Rightarrow> Some (- EINVAL, st, buf)
      | Some sd \<Rightarrow>
        if \<not> sd_enabled sd then Some (- EINVAL, st, buf)
        else do {
          let tfs' = (if sd_rotation_enabled sd
             then (tfs AND NOT 0x01000000) OR (push_bit 24 (ucast (uet_sec_sd_tx_an sd now1)) AND 0x01000000) else tfs);
          buf \<leftarrow> (if sd_rotation_enabled sd then wr buf sec (be32 tfs') else Some buf);
          let sd = uet_sec_sd_tx_rotate sd now2;
          let sdi = sec_tfs_sdi tfs;
          if sd_tx_counter sd \<ge> sd_invoke_fatal_threshold sd then
            (let stats = sd_stats sd; sd = sd\<lparr>sd_stats := stats\<lparr>out_invoke_fail := out_invoke_fail stats + 1\<rparr>\<rparr>
             in Some (- EINVAL, sd_put st sdi sd, buf))
          else do {
            let tsc = sd_tx_counter sd;
            let sd = sd\<lparr>sd_tx_counter := tsc + 1\<rparr>;
            buf \<leftarrow> wr buf (sec + (if sec_tfs_sp tfs' then 8 else 4)) (be64 (sec_epoch_tsc (sd_epoch sd) tsc));
            Some (0, sd_put st sdi sd, buf) } } })"

section \<open>Key and initialisation vector of a packet\<close>

text \<open>The key schedule of one packet. \<open>peer\<close> is the address the server side derives from: the
  destination when it encrypts, the source when it decrypts. All addresses and the SSI are the
  bytes as they lie in the packet. The unused part of the derived key is zero.\<close>

definition sec_derive_key :: "sec_env \<Rightarrow> u64 \<Rightarrow> uet_sec_sd \<Rightarrow> nat \<Rightarrow> u8 \<Rightarrow> u64 \<Rightarrow> bytes \<Rightarrow> bytes \<Rightarrow> bytes
    \<Rightarrow> ((bytes option) \<times> uet_sec_sd) option" where
  "sec_derive_key env now sd fam an tsc hssi saddr peer =
     (let epoch = be16 (ucast (drop_bit 48 tsc));
          counter = tsc AND 0x0000ffffffffffff;
          rekey = be32 (if sd_rekey sd then ucast (drop_bit (sd_rekey_shift sd) (counter AND sd_rekey_mask sd)) else 0);
          kdf = (\<lambda>key label ctxt. kdf_ctr_cmac_aes (take UET_SEC_KEY_SIZE key) (UET_SEC_KEY_SIZE * 8) UET_SEC_CTR_SIZE
                    label ctxt (UET_SEC_KDF_GEN_SIZE * 8))
      in case sd_mode sd of
        UET_SEC_MODE_DIRECT \<Rightarrow>
          let (key, sd) = uet_sec_sd_key sd fam an now
          in Some (Some (take UET_SEC_KEY_SIZE key @ replicate 12 0), sd)
      | UET_SEC_MODE_CLUSTER \<Rightarrow>
          let (key, sd) = uet_sec_sd_key sd fam an now in
          map_option (\<lambda>d. (Some d, sd)) (kdf key uet_sec_label1
            (if fam = UET_SEC_FAM_V6 then large_context epoch rekey saddr
             else small_context epoch rekey (if sd_use_ssi sd then hssi else saddr)))
      | UET_SEC_MODE_SERVER \<Rightarrow>
          let (key, sd) = uet_sec_sd_key sd fam an now in
          if env_sec_server env = None then Some (Some (take UET_SEC_KDF_GEN_SIZE key), sd)
          else map_option (\<lambda>d. (Some d, sd)) (kdf key uet_sec_label2
            (if fam = UET_SEC_FAM_V6 then large_context epoch [0, 0, 0, 0] peer
             else small_context epoch [0, 0, 0, 0] (if sd_use_ssi sd then hssi else peer)))
      | UET_SEC_MODE_NONE \<Rightarrow> Some (None, sd))"

definition sec_iv :: "uet_sec_sd \<Rightarrow> nat \<Rightarrow> u32 \<Rightarrow> u64 \<Rightarrow> bytes \<Rightarrow> bytes \<Rightarrow> bytes \<Rightarrow> bytes" where
  "sec_iv sd fam sdi tsc hssi saddr derived_key =
     (let iv = (if sd_use_ssi sd then hssi else if fam = UET_SEC_FAM_V6 then be32 sdi else saddr) @ be64 tsc
      in if sd_mode sd \<noteq> UET_SEC_MODE_DIRECT then map2 (XOR) iv (drop UET_SEC_KEY_SIZE derived_key) else iv)"

definition sec_addr_off :: "bool \<Rightarrow> nat \<Rightarrow> nat" where
  "sec_addr_off is_ipv6 k = ETHHDR_LEN + (if is_ipv6 then 8 + 16 * k else 12 + 4 * k)"

definition sec_addr :: "bytes \<Rightarrow> nat \<Rightarrow> bool \<Rightarrow> nat \<Rightarrow> bytes option" where
  "sec_addr buf pkt is_ipv6 k = rdn buf (pkt + sec_addr_off is_ipv6 k) (if is_ipv6 then 16 else 4)"

text \<open>The length handed to the cipher is an \<open>int\<close> difference converted to \<open>size_t\<close>.\<close>

definition gcm_len :: "nat \<Rightarrow> nat \<Rightarrow> nat" where
  "gcm_len pkt_len clrtxt_len = nat ((int pkt_len - int clrtxt_len - int UET_SEC_TAG_LEN) mod 2 ^ 64)"

section \<open>Encryption\<close>

record sec_enc_res =
  se_rc :: int
  se_state :: sec_state
  se_buf :: bytes
  se_pkt :: nat
  se_len :: int

definition uet_sec_enc_pkt :: "sec_env \<Rightarrow> u64 \<Rightarrow> sec_state \<Rightarrow> bytes \<Rightarrow> nat \<Rightarrow> nat \<Rightarrow> bool \<Rightarrow> sec_enc_res option" where
  "uet_sec_enc_pkt env now st buf pkt pkt_len is_ipv6 =
     (let fail = (\<lambda>st. \<lparr>se_rc = - EINVAL, se_state = st, se_buf = buf, se_pkt = pkt, se_len = int pkt_len\<rparr>);
          fam = (if is_ipv6 then UET_SEC_FAM_V6 else UET_SEC_FAM_V4);
          sec = pkt + sec_l3_len is_ipv6 in do {
      tfs \<leftarrow> rd32 buf sec;
      if sec_tfs_type tfs \<noteq> UET_PDS_TYPE_SECURITY then Some (fail st)
      else let sdi = sec_tfs_sdi tfs; an = sec_tfs_an tfs in
      case uet_sec_sd_get st sdi of None \<Rightarrow> Some (fail st)
      | Some sd \<Rightarrow>
        if \<not> sd_enabled sd then Some (fail st)
        else if sd_use_ssi sd \<and> \<not> sec_tfs_sp tfs then Some (fail st)
        else do {
          hssi \<leftarrow> rdn buf (sec + 4) 4;
          tsc \<leftarrow> rd64 buf (sec + (if sd_use_ssi sd then 8 else 4));
          let enc_out = length buf div 2;
          if enc_out < pkt + pkt_len \<or> enc_out + pkt_len > length buf then Some (fail st)
          else do {
            saddr \<leftarrow> sec_addr buf pkt is_ipv6 0;
            daddr \<leftarrow> sec_addr buf pkt is_ipv6 1;
            (dk, sd) \<leftarrow> sec_derive_key env now sd fam an tsc hssi saddr daddr;
            let st = sd_put st sdi sd;
            case dk of None \<Rightarrow> Some (fail st)
            | Some derived_key \<Rightarrow> do {
                let iv = sec_iv sd fam sdi tsc hssi saddr derived_key;
                let clrtxt_len = sec_l3_len is_ipv6 + sd_coff sd;
                let aad_len = (if is_ipv6 then 36 else 12) + sd_coff sd;
                let n = gcm_len pkt_len clrtxt_len;
                clr \<leftarrow> rdn buf pkt clrtxt_len;
                buf \<leftarrow> wr buf enc_out clr;
                aad \<leftarrow> rdn buf (sec - (if is_ipv6 then 36 else 12)) aad_len;
                inp \<leftarrow> rdn buf (pkt + clrtxt_len) n;
                gcm \<leftarrow> gcm_setkey gcm_init (take UET_SEC_KEY_SIZE derived_key) (UET_SEC_KEY_SIZE * 8);
                (rc, _, out, tag) \<leftarrow> gcm_crypt_and_tag gcm GCM_ENCRYPT iv aad inp [] UET_SEC_TAG_LEN (replicate 16 0);
                if rc \<noteq> 0 then Some ((fail st)\<lparr>se_buf := buf\<rparr>)
                else do {
                  buf \<leftarrow> wr buf (enc_out + clrtxt_len) out;
                  buf \<leftarrow> wr buf (enc_out + pkt_len - UET_SEC_TAG_LEN) tag;
                  let stats = sd_stats sd;
                  let sd = sd\<lparr>sd_stats := stats\<lparr>out_auth_pkts := out_auth_pkts stats + 1\<rparr>\<rparr>;
                  Some \<lparr>se_rc = 0, se_state = sd_put st sdi sd, se_buf = buf, se_pkt = enc_out, se_len = int pkt_len\<rparr> } } } } })"

section \<open>Decryption\<close>

definition sec_late :: "uet_sec_sd \<Rightarrow> u64 \<Rightarrow> bool" where
  "sec_late sd tsc \<longleftrightarrow> sd_epoch_based_rejection sd \<and>
     (let age = sd_epoch sd - ucast (drop_bit 48 tsc) in age < 0x8000 \<and> age > sd_rx_max_epoch_lifetime sd)"

definition sec_auth_fail :: "uet_sec_sd \<Rightarrow> uet_sec_sd" where
  "sec_auth_fail sd =
     (let stats = sd_stats sd; stats = stats\<lparr>in_auth_fail_pkts := in_auth_fail_pkts stats + 1\<rparr>;
          sd = sd\<lparr>sd_stats := stats\<rparr>
      in if in_auth_fail_pkts stats > sd_auth_fail_threshold sd then sd\<lparr>sd_domain_dropping := True\<rparr> else sd)"

definition sec_in_invalid :: "uet_sec_sd \<Rightarrow> uet_sec_sd" where
  "sec_in_invalid sd = sd\<lparr>sd_stats := (sd_stats sd)\<lparr>in_invalid := in_invalid (sd_stats sd) + 1\<rparr>\<rparr>"

text \<open>The part of the decryption after the checks of the frame: \<open>tag_len\<close> is left alone by an
  error.\<close>

definition sec_dec_body :: "sec_env \<Rightarrow> u64 \<Rightarrow> sec_state \<Rightarrow> uet_sec_sd \<Rightarrow> bytes \<Rightarrow> nat \<Rightarrow> bool \<Rightarrow> u32
    \<Rightarrow> (int \<times> sec_state \<times> bytes \<times> nat option) option" where
  "sec_dec_body env now st sd buf pkt_len is_ipv6 tfs =
     (let fam = (if is_ipv6 then UET_SEC_FAM_V6 else UET_SEC_FAM_V4);
          sec = sec_l3_len is_ipv6; sdi = sec_tfs_sdi tfs; an = sec_tfs_an tfs in do {
      hssi \<leftarrow> rdn buf (sec + 4) 4;
      tsc \<leftarrow> rd64 buf (sec + (if sd_use_ssi sd then 8 else 4));
      if sec_late sd tsc then
        (let stats = sd_stats sd
         in Some (- EINVAL, sd_put st sdi (sd\<lparr>sd_stats := stats\<lparr>in_late_pkts := in_late_pkts stats + 1\<rparr>\<rparr>), buf, None))
      else do {
        saddr \<leftarrow> sec_addr buf 0 is_ipv6 0;
        (dk, sd) \<leftarrow> sec_derive_key env now sd fam an tsc hssi saddr saddr;
        let st = sd_put st sdi sd;
        case dk of None \<Rightarrow> Some (- EINVAL, st, buf, None)
        | Some derived_key \<Rightarrow> do {
            let iv = sec_iv sd fam sdi tsc hssi saddr derived_key;
            let clrtxt_len = sec_l3_len is_ipv6 + sd_coff sd;
            let aad_len = (if is_ipv6 then 36 else 12) + sd_coff sd;
            aad \<leftarrow> rdn buf (sec - (if is_ipv6 then 36 else 12)) aad_len;
            inp \<leftarrow> rdn buf clrtxt_len (gcm_len pkt_len clrtxt_len);
            tag \<leftarrow> rdn buf (pkt_len - UET_SEC_TAG_LEN) UET_SEC_TAG_LEN;
            gcm \<leftarrow> gcm_setkey gcm_init (take UET_SEC_KEY_SIZE derived_key) (UET_SEC_KEY_SIZE * 8);
            (rc, out) \<leftarrow> gcm_auth_decrypt gcm iv aad tag UET_SEC_TAG_LEN inp inp;
            buf \<leftarrow> wr buf clrtxt_len out;
            if rc \<noteq> 0 then Some (- EINVAL, sd_put st sdi (sec_auth_fail sd), buf, None)
            else (let stats = sd_stats sd in
              Some (0, sd_put st sdi (sd\<lparr>sd_stats := stats\<lparr>in_auth_pkts := in_auth_pkts stats + 1\<rparr>\<rparr>), buf,
                    Some UET_SEC_TAG_LEN)) } } })"

definition uet_sec_dec_pkt :: "u8 \<Rightarrow> sec_env \<Rightarrow> u64 \<Rightarrow> sec_state \<Rightarrow> bytes \<Rightarrow> nat
    \<Rightarrow> (int \<times> sec_state \<times> bytes \<times> nat option) option" where
  "uet_sec_dec_pkt ipproto env now st buf pkt_len = do {
     et \<leftarrow> rd16 buf 12;
     if et \<noteq> ETH_P_IPV6 \<and> et \<noteq> ETH_P_IP then Some (0, st, buf, Some 0)
     else do {
       let is_ipv6 = (et = ETH_P_IPV6);
       v \<leftarrow> rd8 buf 14;
       proto \<leftarrow> rd8 buf (if is_ipv6 then 20 else 23);
       if proto \<noteq> ipproto \<or> (\<not> is_ipv6 \<and> v \<noteq> 0x45) then Some (0, st, buf, Some 0)
       else do {
         tfs \<leftarrow> rd32 buf (sec_l3_len is_ipv6);
         if sec_tfs_type tfs \<noteq> UET_PDS_TYPE_SECURITY then
           (let ps = sec_port_stats st in
            Some (0, st\<lparr>sec_port_stats := ps\<lparr>in_rx_encryption_bypass_pkts := in_rx_encryption_bypass_pkts ps + 1\<rparr>\<rparr>, buf, Some 0))
         else let sdi = sec_tfs_sdi tfs in
         case uet_sec_sd_get st sdi of
           None \<Rightarrow> (let ps = sec_port_stats st in
             Some (- EINVAL, st\<lparr>sec_port_stats := ps\<lparr>in_errored_pkts := in_errored_pkts ps + 1\<rparr>\<rparr>, buf, None))
         | Some sd \<Rightarrow>
             if \<not> sd_enabled sd then
               (let stats = sd_stats sd in
                Some (- EINVAL, sd_put st sdi (sd\<lparr>sd_stats := stats\<lparr>in_invalid_sa := in_invalid_sa stats + 1\<rparr>\<rparr>), buf, None))
             else if sd_domain_dropping sd then Some (- EINVAL, sd_put st sdi (sec_in_invalid sd), buf, None)
             else if sd_use_ssi sd \<and> \<not> sec_tfs_sp tfs then Some (- EINVAL, sd_put st sdi (sec_in_invalid sd), buf, None)
             else sec_dec_body env now st sd buf pkt_len is_ipv6 tfs } } }"

section \<open>Reference definitions\<close>

definition latch_sd :: "uet_sec_sd \<Rightarrow> bool" where
  "latch_sd sd \<longleftrightarrow> (sd_auth_fail_threshold sd < in_auth_fail_pkts (sd_stats sd) \<longrightarrow> sd_domain_dropping sd)"

definition latch_inv :: "sec_state \<Rightarrow> bool" where
  "latch_inv st \<longleftrightarrow> length (sdkdb st) = 8 \<and> (\<forall>sd \<in> set (sdkdb st). latch_sd sd)"

text \<open>A sequence of received frames; a frame that makes the decryption leave its buffers ends it.\<close>

fun dec_run :: "u8 \<Rightarrow> sec_env \<Rightarrow> sec_state \<Rightarrow> (u64 \<times> bytes \<times> nat) list \<Rightarrow> sec_state option" where
  "dec_run ipproto env st [] = Some st"
| "dec_run ipproto env st ((now, buf, len) # fs) =
     (case uet_sec_dec_pkt ipproto env now st buf len of None \<Rightarrow> None
      | Some (rc, st', _) \<Rightarrow> dec_run ipproto env st' fs)"

definition secured_frame :: "u8 \<Rightarrow> bytes \<Rightarrow> bool \<Rightarrow> u32 \<Rightarrow> bool" where
  "secured_frame ipproto buf v6 tfs \<longleftrightarrow>
     rd16 buf 12 = Some (if v6 then ETH_P_IPV6 else ETH_P_IP)
     \<and> rd8 buf 14 \<noteq> None \<and> (v6 \<or> rd8 buf 14 = Some 0x45) \<and> rd8 buf (if v6 then 20 else 23) = Some ipproto
     \<and> rd32 buf (sec_l3_len v6) = Some tfs \<and> sec_tfs_type tfs = UET_PDS_TYPE_SECURITY"

definition sec_frame_bytes :: "nat \<Rightarrow> bytes" where
  "sec_frame_bytes n = replicate 12 0 @ be16 ETH_P_IP @ [0x45] @ replicate 8 0 @ [0xfd] @ replicate 14 0
     @ be32 0x08000001 @ replicate n 0"

definition demo_st :: "uet_sec_sd \<Rightarrow> sec_state" where
  "demo_st sd = sd_put sec_state_zero 1 sd"

definition demo_env :: sec_env where
  "demo_env = \<lparr>env_sec_mode = None, env_sec_ssi = None, env_sec_server = None, env_sec_client_ssi = None,
     env_sec_key_rotation = None\<rparr>"

definition latched_sd :: uet_sec_sd where
  "latched_sd = sd_zero\<lparr>sd_enabled := True, sd_domain_dropping := True,
      sd_stats := sd_stats_zero\<lparr>in_auth_fail_pkts := 1\<rparr>\<rparr>"

definition direct_sd :: uet_sec_sd where
  "direct_sd = sd_zero\<lparr>sd_enabled := True, sd_mode := UET_SEC_MODE_DIRECT, sd_coff := 12,
     sd_epoch_based_rejection := True, sd_rx_max_epoch_lifetime := 16, sd_pool := [def_key, def_key]\<rparr>"

section \<open>Lemmas\<close>

lemma sd_get_put [simp]:
  "length (sdkdb st) = 8 \<Longrightarrow> uet_sec_sd_get (sd_put st sdi sd) sdi' =
    (if sdi = sdi' \<and> unat sdi < 8 then Some sd else uet_sec_sd_get st sdi')"
  by (auto simp: uet_sec_sd_get_def sd_put_def nth_list_update word_unat_eq_iff)

lemma length_sd_put [simp]: "length (sdkdb (sd_put st sdi sd)) = length (sdkdb st)"
  by (simp add: sd_put_def)

lemma sd_get_lt: "uet_sec_sd_get st sdi = Some sd \<Longrightarrow> unat sdi < 8"
  by (auto simp: uet_sec_sd_get_def split: if_splits)

lemma same_but_cache_refl [simp]: "same_but_cache sd sd"
  by (simp add: same_but_cache_def)

lemma sd_key_frame: "same_but_cache sd (snd (uet_sec_sd_key sd fam an now))"
  using refresh_keys_frame(1)
  by (auto simp: uet_sec_sd_key_def Let_def case_prod_beta same_but_cache_def)

lemma derive_key_frame:
  "sec_derive_key env now sd fam an tsc hssi saddr peer = Some (dk, sd') \<Longrightarrow> same_but_cache sd sd'"
  using sd_key_frame [of sd fam an now]
  by (auto simp: sec_derive_key_def Let_def case_prod_beta split: uet_sec_mode.splits if_splits)

lemma same_but_cache_fields:
  assumes "same_but_cache sd sd'"
  shows "sd_stats sd' = sd_stats sd" "sd_auth_fail_threshold sd' = sd_auth_fail_threshold sd"
    "sd_domain_dropping sd' = sd_domain_dropping sd" "sd_enabled sd' = sd_enabled sd"
    "sd_use_ssi sd' = sd_use_ssi sd" "sd_mode sd' = sd_mode sd" "sd_coff sd' = sd_coff sd"
proof -
  obtain x y where "sd = sd'\<lparr>sd_eff_key := x, sd_cache_rot := y\<rparr>"
    using assms unfolding same_but_cache_def by metis
  then show "sd_stats sd' = sd_stats sd" "sd_auth_fail_threshold sd' = sd_auth_fail_threshold sd"
    "sd_domain_dropping sd' = sd_domain_dropping sd" "sd_enabled sd' = sd_enabled sd"
    "sd_use_ssi sd' = sd_use_ssi sd" "sd_mode sd' = sd_mode sd" "sd_coff sd' = sd_coff sd" by simp_all
qed

lemma latch_inv_put: "latch_inv st \<Longrightarrow> latch_sd sd \<Longrightarrow> latch_inv (sd_put st sdi sd)"
  by (auto simp: latch_inv_def sd_put_def dest!: set_update_subset_insert [THEN subsetD])

lemma latch_inv_get: "latch_inv st \<Longrightarrow> uet_sec_sd_get st sdi = Some sd \<Longrightarrow> latch_sd sd"
  by (auto simp: latch_inv_def uet_sec_sd_get_def split: if_splits)

lemma latch_sd_frame: "latch_sd sd \<Longrightarrow> same_but_cache sd sd' \<Longrightarrow> latch_sd sd'"
  by (simp add: latch_sd_def same_but_cache_fields)

lemma latch_sd_fail: "latch_sd sd \<Longrightarrow> latch_sd (sec_auth_fail sd)"
  by (auto simp: latch_sd_def sec_auth_fail_def Let_def)

lemma latch_sd_simps [simp]:
  "latch_sd (sd\<lparr>sd_stats := (sd_stats sd)\<lparr>in_late_pkts := x\<rparr>\<rparr>) = latch_sd sd"
  "latch_sd (sd\<lparr>sd_stats := (sd_stats sd)\<lparr>in_auth_pkts := x\<rparr>\<rparr>) = latch_sd sd"
  "latch_sd (sd\<lparr>sd_stats := (sd_stats sd)\<lparr>in_invalid_sa := x\<rparr>\<rparr>) = latch_sd sd"
  "latch_sd (sec_in_invalid sd) = latch_sd sd"
  by (simp_all add: latch_sd_def sec_in_invalid_def)

lemma derive_key_latch:
  "sec_derive_key env now sd fam an tsc hssi saddr peer = Some (dk, sd') \<Longrightarrow> latch_sd sd' = latch_sd sd"
  by (drule derive_key_frame) (simp add: latch_sd_def same_but_cache_fields)

lemma dec_body_latch:
  assumes "latch_inv st" "latch_sd sd"
  shows "pred_option (\<lambda>(rc, st', buf', t). latch_inv st') (sec_dec_body env now st sd buf len v6 tfs)"
  unfolding sec_dec_body_def
  by (intro opt_vcg) (simp_all add: assms latch_inv_put latch_sd_fail derive_key_latch)

lemma latch_inv_port [simp]: "latch_inv (st\<lparr>sec_port_stats := x\<rparr>) = latch_inv st"
  by (simp add: latch_inv_def)

lemma dec_pkt_latch:
  assumes "latch_inv st"
  shows "pred_option (\<lambda>(rc, st', buf', t). latch_inv st') (uet_sec_dec_pkt ipproto env now st buf len)"
  unfolding uet_sec_dec_pkt_def
  by (intro opt_vcg dec_body_latch) (simp_all add: assms latch_inv_put latch_inv_get [OF assms])

lemma dec_run_latch: "dec_run ipproto env st fs = Some st' \<Longrightarrow> latch_inv st \<Longrightarrow> latch_inv st'"
proof (induction fs arbitrary: st)
  case (Cons f fs)
  obtain now buf len where f: "f = (now, buf, len)" by (cases f)
  obtain rc st1 b1 t where 1: "uet_sec_dec_pkt ipproto env now st buf len = Some (rc, st1, b1, t)"
    "dec_run ipproto env st1 fs = Some st'"
    using Cons.prems(1) by (auto simp: f split: option.split_asm)
  have "latch_inv st1" using dec_pkt_latch [OF Cons.prems(2), of ipproto env now buf len] 1(1) by simp
  with 1(2) show ?case by (rule Cons.IH)
qed simp

lemma dec_secured_frame:
  assumes "secured_frame ipproto buf v6 tfs" "uet_sec_sd_get st (sec_tfs_sdi tfs) = Some sd" "sd_enabled sd"
  shows "uet_sec_dec_pkt ipproto env now st buf len =
     (if sd_domain_dropping sd then Some (- EINVAL, sd_put st (sec_tfs_sdi tfs) (sec_in_invalid sd), buf, None)
      else if sd_use_ssi sd \<and> \<not> sec_tfs_sp tfs then Some (- EINVAL, sd_put st (sec_tfs_sdi tfs) (sec_in_invalid sd), buf, None)
      else sec_dec_body env now st sd buf len v6 tfs)"
  using assms by (cases v6) (auto simp: uet_sec_dec_pkt_def secured_frame_def Let_def)

text \<open>C11: the authentication-failure latch: after any sequence of received frames, if the number
  of failed authentications of a secure domain has passed its threshold, every further secured
  frame for that domain is refused with its buffer untouched.\<close>

theorem auth_fail_latch:
  assumes "latch_inv st" "dec_run ipproto env st fs = Some st'" "secured_frame ipproto buf v6 tfs"
    and "uet_sec_sd_get st' (sec_tfs_sdi tfs) = Some sd" "sd_enabled sd"
    and "sd_auth_fail_threshold sd < in_auth_fail_pkts (sd_stats sd)"
  shows "\<exists>st''. uet_sec_dec_pkt ipproto env now st' buf len = Some (- EINVAL, st'', buf, None)"
proof -
  have "latch_inv st'" by (rule dec_run_latch [OF assms(2,1)])
  then have "sd_domain_dropping sd" using latch_inv_get assms(4,6) by (auto simp: latch_sd_def)
  then show ?thesis using dec_secured_frame [OF assms(3-5)] by simp
qed

lemma sec_frame_secured: "secured_frame 0xfd (sec_frame_bytes n) False 0x08000001" "sec_tfs_sdi 0x08000001 = 1"
  by (simp_all add: secured_frame_def sec_frame_bytes_def sec_l3_len_def sec_tfs_type_def sec_tfs_sdi_def
      rd16_def rd32_def rd8_def rdn_def nth_append be_val_be [simplified be16_def be32_def] be16_def be32_def be_val_def)

lemma demo_st_get [simp]: "uet_sec_sd_get (demo_st sd) 1 = Some sd" "length (sdkdb (demo_st sd)) = 8"
  by (simp_all add: demo_st_def sec_state_zero_def)

lemma demo_st_latch: "latch_sd sd \<Longrightarrow> latch_inv (demo_st sd)"
  unfolding demo_st_def
  by (rule latch_inv_put) (auto simp: latch_inv_def sec_state_zero_def latch_sd_def sd_zero_def sd_stats_zero_def)

lemma latched_sd_simps: "sd_enabled latched_sd" "sd_domain_dropping latched_sd"
  "sd_auth_fail_threshold latched_sd < in_auth_fail_pkts (sd_stats latched_sd)"
  by (simp_all add: latched_sd_def sd_zero_def)

theorem auth_fail_latch_witness:
  "\<exists>st''. uet_sec_dec_pkt 0xfd demo_env 0 (demo_st latched_sd) (sec_frame_bytes 50) 92
    = Some (- EINVAL, st'', sec_frame_bytes 50, None)"
proof -
  have "latch_inv (demo_st latched_sd)" by (rule demo_st_latch) (simp add: latch_sd_def latched_sd_simps)
  then show ?thesis
    by (rule auth_fail_latch [where fs = "[]" and sd = latched_sd, OF _ _ sec_frame_secured(1)])
      (simp_all add: sec_frame_secured(2) latched_sd_simps)
qed

lemma gcm_len_neg:
  assumes "pkt_len < clr + 16" "clr < 2 ^ 32"
  shows "2 ^ 63 \<le> gcm_len pkt_len clr"
proof -
  let ?d = "int pkt_len - int clr - 16"
  have d: "?d < 0" "- (2 ^ 63) \<le> ?d" using assms by simp_all
  have "?d mod 2 ^ 64 = ?d + 2 ^ 64"
    using d by (intro mod_pos_pos_trivial [of "?d + 2 ^ 64" "2 ^ 64", unfolded mod_add_self2]) simp_all
  then show ?thesis using d by (simp add: gcm_len_def)
qed

text \<open>C12: a secured frame shorter than its headers and the authentication tag makes
  \<open>uet_sec_dec_pkt\<close> compute a negative length, which as a \<open>size_t\<close> is far larger than the receive
  buffer: the decryption runs past the buffer. The receive path calls it before any length
  check, for every frame of at least fifty bytes.\<close>

theorem dec_short_frame_overrun:
  assumes "secured_frame ipproto buf v6 tfs" "uet_sec_sd_get st (sec_tfs_sdi tfs) = Some sd" "sd_enabled sd"
    and "\<not> sd_domain_dropping sd" "\<not> sd_use_ssi sd" "sd_mode sd = UET_SEC_MODE_DIRECT"
    and "rd64 buf (sec_l3_len v6 + 4) = Some tsc" "\<not> sec_late sd tsc"
    and "len < sec_l3_len v6 + sd_coff sd + 16" "sd_coff sd < 2 ^ 16" "length buf < 2 ^ 32"
  shows "uet_sec_dec_pkt ipproto env now st buf len = None"
proof -
  have "sec_l3_len v6 + sd_coff sd < 2 ^ 32" using assms(10) by (simp add: sec_l3_len_def)
  then have "2 ^ 63 \<le> gcm_len len (sec_l3_len v6 + sd_coff sd)"
    using assms(9) by (intro gcm_len_neg) simp_all
  then have n: "rdn buf i (gcm_len len (sec_l3_len v6 + sd_coff sd)) = None" for i
    using assms(11) by (simp add: rdn_def)
  have k: "sec_derive_key env now sd fam an tsc hssi sa pa = Some (dk, sd') \<Longrightarrow> dk \<noteq> None \<and> sd_coff sd' = sd_coff sd"
    for fam an tsc hssi sa pa dk sd'
    using same_but_cache_fields(7) [OF sd_key_frame [of sd fam an now]]
    by (auto simp: sec_derive_key_def assms(6) Let_def case_prod_beta)
  have "pred_option (\<lambda>_. False) (sec_dec_body env now st sd buf len v6 tfs)"
    unfolding sec_dec_body_def by (intro opt_vcg) (auto simp: assms(5,7,8) n dest!: k)
  then have "sec_dec_body env now st sd buf len v6 tfs = None"
    by (cases "sec_dec_body env now st sd buf len v6 tfs") simp_all
  then show ?thesis using dec_secured_frame [OF assms(1-3)] assms(4,5) by simp
qed

theorem dec_short_frame_overrun_witness:
  "uet_sec_dec_pkt 0xfd demo_env 0 (demo_st direct_sd) (sec_frame_bytes 1500) 60 = None"
proof (rule dec_short_frame_overrun [where sd = direct_sd and tsc = 0, OF sec_frame_secured(1)])
  have "drop 42 (sec_frame_bytes 1500) = replicate 1500 0" "length (sec_frame_bytes 1500) = 1542"
    by (simp_all add: sec_frame_bytes_def)
  moreover have "be_val (replicate 8 0) = (0 :: u64)"
    by (simp add: be_val_def numeral_eq_Suc)
  ultimately show "rd64 (sec_frame_bytes 1500) (sec_l3_len False + 4) = Some 0"
    by (simp add: rd64_def rdn_def sec_l3_len_def)
qed (simp_all add: direct_sd_def sd_zero_def sec_frame_secured(2) sec_late_def sec_l3_len_def sec_frame_bytes_def)

end
