(* ===== verification/SecRoundtrip.thy ===== *)
theory SecRoundtrip
  imports Sec
begin

unbundle bit_operations_syntax

text \<open>
  Encryption followed by decryption of \<open>src/uet_sec.c\<close>: \<open>uet_sec_enc_pkt\<close> succeeds on a well-formed
  packet and leaves the clear-text header, the cipher text and the tag in the upper half of the
  buffer, and \<open>uet_sec_dec_pkt\<close> of a peer with the same key restores the packet.
\<close>

section \<open>Reference definitions\<close>

definition sec_cfg_eq :: "uet_sec_sd \<Rightarrow> uet_sec_sd \<Rightarrow> bool" where
  "sec_cfg_eq s r \<longleftrightarrow> sd_mode s = sd_mode r \<and> sd_use_ssi s = sd_use_ssi r \<and> sd_rekey s = sd_rekey r
     \<and> sd_rekey_mask s = sd_rekey_mask r \<and> sd_rekey_shift s = sd_rekey_shift r \<and> sd_coff s = sd_coff r"

definition enc_ok :: "sec_env \<Rightarrow> u64 \<Rightarrow> sec_state \<Rightarrow> bytes \<Rightarrow> nat \<Rightarrow> nat \<Rightarrow> bool \<Rightarrow> sec_enc_res \<Rightarrow> bool" where
  "enc_ok env now st buf pkt len v6 r \<longleftrightarrow>
    (\<exists>tfs sd hssi tsc sa da k sd' gcm c inp ct tag clr aad.
      let l3 = sec_l3_len v6; fam = (if v6 then 1 else 0); C = l3 + sd_coff sd; q = (if v6 then 36 else 12) in
      rd32 buf (pkt + l3) = Some tfs \<and> uet_sec_sd_get st (sec_tfs_sdi tfs) = Some sd \<and> (sd_use_ssi sd \<longrightarrow> sec_tfs_sp tfs)
      \<and> rdn buf (pkt + l3 + 4) 4 = Some hssi \<and> rd64 buf (pkt + l3 + (if sd_use_ssi sd then 8 else 4)) = Some tsc
      \<and> sec_addr buf pkt v6 0 = Some sa
      \<and> sec_derive_key env now sd fam (sec_tfs_an tfs) tsc hssi sa da = Some (Some k, sd')
      \<and> rdn buf pkt C = Some clr \<and> rdn buf (pkt + l3 - q) (q + sd_coff sd) = Some aad
      \<and> C + 16 \<le> len \<and> rdn buf (pkt + C) (len - C - 16) = Some inp
      \<and> gcm_setkey gcm_init (take 32 k) 256 = Some gcm
      \<and> gcm_crypt_and_tag gcm 1 (sec_iv sd' fam (sec_tfs_sdi tfs) tsc hssi sa k) aad inp [] 16 (replicate 16 0) = Some (0, c, ct, tag)
      \<and> rdn (se_buf r) (se_pkt r) len = Some (clr @ ct @ tag) \<and> se_len r = int len)"

definition sec_ready :: "uet_sec_sd \<Rightarrow> bool \<Rightarrow> u32 \<Rightarrow> nat \<Rightarrow> u64 \<Rightarrow> bool" where
  "sec_ready s v6 tfs len now \<longleftrightarrow> sd_enabled s \<and> (sd_use_ssi s \<longrightarrow> sec_tfs_sp tfs)
     \<and> sd_mode s \<in> {UET_SEC_MODE_DIRECT, UET_SEC_MODE_CLUSTER}
     \<and> length (fst (uet_sec_sd_key s (if v6 then 1 else 0) (sec_tfs_an tfs) now)) = 44
     \<and> (if sd_use_ssi s then 16 else 12) \<le> sd_coff s \<and> sec_l3_len v6 + sd_coff s + 16 \<le> len"

section \<open>Lemmas\<close>

lemma crypt_ok_iv:
  "gcm_crypt_and_tag ctx m iv aad inp out n tag = Some (0, c, ct, t) \<Longrightarrow> length iv = 12 \<and> length aad < 2 ^ 61"
  by (auto simp: gcm_crypt_and_tag_def gcm_start_def Let_def div_eq_0_iff split: if_splits)

lemma crypt_roundtrip:
  assumes "gcm_crypt_and_tag ctx 1 iv aad inp out 16 (replicate 16 0) = Some (0, c, ct, t)"
  shows "gcm_auth_decrypt ctx iv aad t 16 ct out1 = Some (0, inp)" "length ct = length inp" "length t = 16"
proof -
  have "length iv = 12" "length aad < 2 ^ 61" using crypt_ok_iv [OF assms] by simp_all
  then obtain c' ct' t' where r: "gcm_crypt_and_tag ctx 1 iv aad inp out 16 (replicate 16 0) = Some (0, c', ct', t')"
    "length ct' = length inp" "length t' = 16" "gcm_auth_decrypt ctx iv aad t' 16 ct' out1 = Some (0, inp)"
    using gcm_roundtrip [of iv aad 16 "replicate 16 0" ctx inp out out1] by auto
  then show "gcm_auth_decrypt ctx iv aad t 16 ct out1 = Some (0, inp)" "length ct = length inp" "length t = 16"
    using assms by auto
qed

lemma gcm_len_pos: "clr + 16 \<le> n \<Longrightarrow> n < 2 ^ 63 \<Longrightarrow> gcm_len n clr = n - clr - 16"
  by (simp add: gcm_len_def mod_pos_pos_trivial nat_diff_distrib)

lemma derive_agree:
  assumes "sec_derive_key e1 n1 s fam an tsc hssi sa p1 = Some (Some k, s')" "sec_cfg_eq s r"
    and "sd_mode s \<in> {UET_SEC_MODE_DIRECT, UET_SEC_MODE_CLUSTER}"
    and "fst (uet_sec_sd_key s fam an n1) = fst (uet_sec_sd_key r fam an n2)"
  shows "\<exists>r'. sec_derive_key e2 n2 r fam an tsc hssi sa p2 = Some (Some k, r')"
proof -
  have u: "sd_use_ssi (snd (uet_sec_sd_key s fam an n1)) = sd_use_ssi s" "sd_use_ssi (snd (uet_sec_sd_key r fam an n2)) = sd_use_ssi r"
    by (simp_all add: same_but_cache_fields [OF sd_key_frame])
  show ?thesis
    using assms u by (auto simp: sec_derive_key_def sec_cfg_eq_def Let_def case_prod_beta)
qed

lemma sec_iv_cong: "sec_cfg_eq s r \<Longrightarrow> same_but_cache s s' \<Longrightarrow> same_but_cache r r' \<Longrightarrow>
    sec_iv s' fam sdi tsc hssi sa k = sec_iv r' fam sdi tsc hssi sa k"
  by (simp add: sec_iv_def sec_cfg_eq_def same_but_cache_fields Let_def)

lemma enc_okI:
  assumes "rd32 buf (pkt + sec_l3_len v6) = Some tfs" "uet_sec_sd_get st (sec_tfs_sdi tfs) = Some sd" "sd_use_ssi sd \<longrightarrow> sec_tfs_sp tfs"
    "rdn buf (pkt + sec_l3_len v6 + 4) 4 = Some hssi" "rd64 buf (pkt + sec_l3_len v6 + (if sd_use_ssi sd then 8 else 4)) = Some tsc"
    "sec_addr buf pkt v6 0 = Some sa"
    "sec_derive_key env now sd (if v6 then 1 else 0) (sec_tfs_an tfs) tsc hssi sa da = Some (Some k, sd')"
    "rdn buf pkt (sec_l3_len v6 + sd_coff sd) = Some clr"
    "rdn buf (pkt + sec_l3_len v6 - (if v6 then 36 else 12)) ((if v6 then 36 else 12) + sd_coff sd) = Some aad"
    "sec_l3_len v6 + sd_coff sd + 16 \<le> len"
    "rdn buf (pkt + (sec_l3_len v6 + sd_coff sd)) (len - (sec_l3_len v6 + sd_coff sd) - 16) = Some inp"
    "gcm_setkey gcm_init (take 32 k) 256 = Some gcm"
    "gcm_crypt_and_tag gcm 1 (sec_iv sd' (if v6 then 1 else 0) (sec_tfs_sdi tfs) tsc hssi sa k) aad inp [] 16 (replicate 16 0) = Some (0, c, ct, tag)"
    "rdn (se_buf r) (se_pkt r) len = Some (clr @ ct @ tag)" "se_len r = int len"
  shows "enc_ok env now st buf pkt len v6 r"
  unfolding enc_ok_def Let_def using assms by blast

lemma rdn_append:
  assumes "rdn b i m = Some x" "rdn b (i + m) n = Some y"
  shows "rdn b i (m + n) = Some (x @ y)"
  using assms by (auto simp: rdn_def take_add add_ac split: if_splits)

lemma rdn_concat3:
  assumes "rdn b i (length x) = Some x" "rdn b (i + length x) (length y) = Some y"
    "rdn b (i + length x + length y) (length z) = Some z" "n = length x + length y + length z"
  shows "rdn b i n = Some (x @ y @ z)"
  using rdn_append [OF rdn_append [OF assms(1,2)], of "length z" z] assms(3,4) by (simp add: add_ac)

text \<open>The three writes of the encryption give the clear-text header, the cipher text and the tag.\<close>

lemma enc_frame:
  assumes "wr b e clr = Some b1" "wr b1 (e + length clr) ct = Some b2" "wr b2 (e + n - 16) tag = Some b3"
    and "length clr + 16 \<le> n" "length ct = n - length clr - 16" "length tag = 16"
  shows "rdn b3 e n = Some (clr @ ct @ tag)"
proof -
  have i: "e + n - 16 = e + length clr + length ct" using assms(4,5) by simp
  note w = assms(3) [unfolded i]
  have "rdn b3 e (length clr) = Some clr"
    using rdn_wr_other [OF w, of e "length clr"] rdn_wr_other [OF assms(2), of e "length clr"] rdn_wr_same [OF assms(1) refl] by simp
  moreover have "rdn b3 (e + length clr) (length ct) = Some ct"
    using rdn_wr_other [OF w, of "e + length clr" "length ct"] rdn_wr_same [OF assms(2) refl] by simp
  moreover have "rdn b3 (e + length clr + length ct) (length tag) = Some tag"
    using rdn_wr_same [OF w refl] .
  ultimately show ?thesis by (rule rdn_concat3) (use assms(4-6) in simp)
qed

lemma enc_fits:
  assumes "rdn b (p + C) (gcm_len n C) = Some x" "rdn b' p C = Some y" "length b = length b'" "length b' < 2 ^ 32"
  shows "C + 16 \<le> n"
proof (rule ccontr)
  assume "\<not> C + 16 \<le> n"
  moreover have "C < 2 ^ 32" using rdn_length [OF assms(2)] assms(4) by simp
  ultimately have "2 ^ 63 \<le> gcm_len n C" by (intro gcm_len_neg) simp_all
  then show False using rdn_length [OF assms(1)] assms(3,4) by simp
qed

lemma enc_pkt_ok:
  assumes L: "length buf < 2 ^ 32"
  shows "pred_option (\<lambda>r. se_rc r = 0 \<longrightarrow> enc_ok env now st buf pkt len v6 r) (uet_sec_enc_pkt env now st buf pkt len v6)"
  unfolding uet_sec_enc_pkt_def
proof (intro opt_vcg, simp_all, goal_cases)
  case (1 fail fam sec tfs sdi an sd hssi tsc e sa da xe dk sda sta k iv C aadl n clr b1 aad inp gcm xk rc b c ba ct tag b2 b3 stats sdb)
  have sd': "sd_coff sda = sd_coff sd"
    using derive_key_frame [OF 1(17)] by (simp add: same_but_cache_fields)
  have lb: "length b1 = length buf" using 1(26) by (rule wr_length)
  have fit: "sec_l3_len v6 + sd_coff sd + 16 \<le> len"
    using enc_fits [OF 1(28) 1(25) lb L] by (simp add: sd')
  have n: "gcm_len len (sec_l3_len v6 + sd_coff sd) = len - (sec_l3_len v6 + sd_coff sd) - 16"
    using fit 1(14) L by (intro gcm_len_pos) simp_all
  have e: "pkt + len \<le> length buf div 2" using 1(14) by simp
  have l3: "(if v6 then 36 else 12) \<le> sec_l3_len v6"
    by (simp add: sec_l3_len_def)
  have cl: "length clr = sec_l3_len v6 + sd_coff sd"
    using rdn_length [OF 1(25)] by (simp add: sd')
  note rt = crypt_roundtrip [OF 1(30)]
  have il: "length inp = len - (sec_l3_len v6 + sd_coff sd) - 16"
    using rdn_length [OF 1(28)] by (simp add: sd' n)
  have frame: "rdn b3 (length buf div 2) len = Some (clr @ ct @ tag)"
    using 1(26) 1(35) 1(36) fit by (intro enc_frame [of buf _ clr b1 ct b2]) (simp_all add: cl sd' rt(2,3) il)
  have aad: "rdn buf (pkt + sec_l3_len v6 - (if v6 then 36 else 12)) ((if v6 then 36 else 12) + sd_coff sd) = Some aad"
    using 1(27) rdn_wr_other [OF 1(26), of "pkt + sec_l3_len v6 - (if v6 then 36 else 12)" "(if v6 then 36 else 12) + sd_coff sda"] e fit l3
    by (simp add: sd' del: if_split)
  have inp: "rdn buf (pkt + (sec_l3_len v6 + sd_coff sd)) (len - (sec_l3_len v6 + sd_coff sd) - 16) = Some inp"
    using 1(28) rdn_wr_other [OF 1(26), of "pkt + (sec_l3_len v6 + sd_coff sd)" "len - (sec_l3_len v6 + sd_coff sd) - 16"] e fit
    by (simp add: sd' n)
  show ?case
    by (rule enc_okI [OF 1(4) 1(8) 1(10-12) 1(15) 1(17) _ aad fit inp 1(29) 1(30)])
      (use 1(25) frame in \<open>simp_all only: sd' sec_enc_res.simps\<close>)
qed

lemma rdn_sub: "rdn b p len = Some d \<Longrightarrow> i + n \<le> len \<Longrightarrow> rdn b (p + i) n = rdn d i n"
  by (auto simp: rdn_def drop_take min_def add.commute split: if_splits)

lemma rdn_prefix: "i + n \<le> length c \<Longrightarrow> rdn (c @ x) i n = rdn c i n"
  by (simp add: rdn_def)

lemma rdn_prefix2: "i + n \<le> length c \<Longrightarrow> rdn (c @ x) i n = rdn (c @ y) i n"
  by (simp add: rdn_prefix)

lemma rd_prefix2:
  "i < length c \<Longrightarrow> rd8 (c @ x) i = rd8 (c @ y) i"
  "i + 2 \<le> length c \<Longrightarrow> rd16 (c @ x) i = rd16 (c @ y) i"
  "i + 4 \<le> length c \<Longrightarrow> rd32 (c @ x) i = rd32 (c @ y) i"
  "i + 8 \<le> length c \<Longrightarrow> rd64 (c @ x) i = rd64 (c @ y) i"
  using rdn_prefix2 [of i _ c x y] by (simp_all add: rd8_def rd16_def rd32_def rd64_def nth_append)

lemma secured_frame_prefix:
  "sec_l3_len v6 + 4 \<le> length c \<Longrightarrow> secured_frame p (c @ x) v6 tfs \<Longrightarrow> secured_frame p (c @ y) v6 tfs"
  using rd_prefix2 [of _ c x y] by (auto simp: secured_frame_def sec_l3_len_def split: if_splits)

lemma setkey_enc_256: "\<exists>a. aes_setkey_enc k 256 = Some a"
  by (simp add: aes_setkey_enc_def Let_def)

lemma cmac_total: "\<exists>d. cmac_aes k 256 m = Some d \<and> length d = 16"
proof -
  obtain a where a: "aes_setkey_enc k 256 = Some a" using setkey_enc_256 by blast
  have l: "length (fold (\<lambda>i out. aes_encrypt a (f i out)) xs x) = 16" if "length x = 16" for f xs x
    using that by (induction xs arbitrary: x) simp_all
  show ?thesis
    by (simp add: cmac_aes_def generate_subkeys_def a Let_def case_prod_beta l)
qed

lemma kdf_total: "\<exists>d. kdf_ctr_cmac_aes k 256 8 label ctxt 352 = Some d \<and> length d = 44"
proof -
  let ?f = "label @ [0] @ ctxt @ [of_nat (352 div 256), of_nat 352]"
  obtain a b c where abc: "cmac_aes k 256 (1 # ?f) = Some a \<and> length a = 16"
    "cmac_aes k 256 (2 # ?f) = Some b \<and> length b = 16" "cmac_aes k 256 (3 # ?f) = Some c \<and> length c = 16"
    using cmac_total by meson
  have ctr: "kdf_ctr_bytes 8 0 = Some [1]" "kdf_ctr_bytes 8 (Suc 0) = Some [2]" "kdf_ctr_bytes 8 (Suc (Suc 0)) = Some [3]"
    by (simp_all add: kdf_ctr_bytes_def be32_bytes_def)
  show ?thesis
    using abc by (simp add: kdf_ctr_cmac_aes_def kdf_ctr_cmac_aes_fixed_def Let_def upt_rec ctr)
qed

lemma derive_total:
  assumes "sd_mode sd \<in> {UET_SEC_MODE_DIRECT, UET_SEC_MODE_CLUSTER}" "length (fst (uet_sec_sd_key sd fam an now)) = 44"
  shows "\<exists>k sd'. sec_derive_key env now sd fam an tsc hssi sa da = Some (Some k, sd') \<and> length k = 44"
proof (cases "sd_mode sd = UET_SEC_MODE_DIRECT")
  case True
  then show ?thesis using assms(2) by (simp add: sec_derive_key_def Let_def case_prod_beta)
next
  case False
  then have m: "sd_mode sd = UET_SEC_MODE_CLUSTER" using assms(1) by simp
  have t: "\<exists>k. map_option f (kdf_ctr_cmac_aes x 256 8 l c 352) = Some (f k) \<and> length k = 44" for f :: "bytes \<Rightarrow> bytes option \<times> uet_sec_sd" and x l c
    using kdf_total [of x l c] by auto
  show ?thesis
    using t [of "\<lambda>d. (Some d, snd (uet_sec_sd_key sd fam an now))"]
    by (simp add: sec_derive_key_def Let_def case_prod_beta m)
qed

lemma length_sec_iv:
  assumes "length hssi = 4" "length sa = (if fam = UET_SEC_FAM_V6 then 16 else 4)" "length k = 44"
  shows "length (sec_iv sd fam sdi tsc hssi sa k) = 12"
  using assms by (simp add: sec_iv_def Let_def)

lemma rdn_exists: "rdn b p len = Some d \<Longrightarrow> p \<le> i \<Longrightarrow> i + n \<le> p + len \<Longrightarrow> \<exists>x. rdn b i n = Some x \<and> length x = n"
  by (auto simp: rdn_def split: if_splits)

text \<open>The header fields the encryption reads are in the frame.\<close>

lemma enc_inputs:
  assumes "rdn buf pkt len = Some plain" "sec_ready s v6 tfs len now"
  obtains hssi tsc sa da where "rdn buf (pkt + sec_l3_len v6 + 4) 4 = Some hssi" "length hssi = 4"
    "rd64 buf (pkt + sec_l3_len v6 + (if sd_use_ssi s then 8 else 4)) = Some tsc"
    "sec_addr buf pkt v6 0 = Some sa" "length sa = (if v6 then 16 else 4)" "sec_addr buf pkt v6 (Suc 0) = Some da"
proof -
  let ?l3 = "sec_l3_len v6" and ?o = "if sd_use_ssi s then 8 else 4 :: nat"
  have fit: "?l3 + ?o + 8 \<le> len" "?l3 + 8 \<le> len"
    using assms(2) by (auto simp: sec_ready_def split: if_splits)
  have a0: "sec_addr_off v6 0 + (if v6 then 16 else 4) \<le> len" "sec_addr_off v6 1 + (if v6 then 16 else 4) \<le> len"
    using fit by (auto simp: sec_addr_off_def sec_l3_len_def)
  note ex = rdn_exists [OF assms(1)]
  obtain hssi where "rdn buf (pkt + ?l3 + 4) 4 = Some hssi" "length hssi = 4"
    using ex [of "pkt + ?l3 + 4" 4] fit by auto
  moreover obtain t where "rdn buf (pkt + ?l3 + ?o) 8 = Some t"
    using ex [of "pkt + ?l3 + ?o" 8] fit by fastforce
  moreover obtain sa where "rdn buf (pkt + sec_addr_off v6 0) (if v6 then 16 else 4) = Some sa" "length sa = (if v6 then 16 else 4)"
    using ex [of "pkt + sec_addr_off v6 0" "if v6 then 16 else 4"] a0 by fastforce
  moreover obtain da where "rdn buf (pkt + sec_addr_off v6 1) (if v6 then 16 else 4) = Some da"
    using ex [of "pkt + sec_addr_off v6 1" "if v6 then 16 else 4"] a0 by fastforce
  ultimately show thesis by (intro that [of hssi "be_val t" sa da]) (simp_all add: rd64_def sec_addr_def)
qed

lemma enc_succeeds:
  assumes "rdn buf pkt len = Some plain" "secured_frame ipproto plain v6 tfs" "uet_sec_sd_get st (sec_tfs_sdi tfs) = Some s"
    and "sec_ready s v6 tfs len now" "pkt + len \<le> length buf div 2" "length buf < 2 ^ 32"
  shows "\<exists>r. uet_sec_enc_pkt env now st buf pkt len v6 = Some r \<and> se_rc r = 0"
proof -
  let ?l3 = "sec_l3_len v6" and ?f = "if v6 then 1 else 0 :: nat" and ?C = "sec_l3_len v6 + sd_coff s"
  let ?q = "if v6 then 36 else 12 :: nat"
  note r = assms(4) [unfolded sec_ready_def]
  have L: "length plain = len" "pkt + len \<le> length buf" using rdn_length [OF assms(1)] by simp_all
  have h: "length buf div 2 + len \<le> length buf" using assms(5) by linarith
  then have h16: "length buf div 2 + len - 16 \<le> length buf" by simp
  have q: "?q \<le> ?l3" by (simp add: sec_l3_len_def)
  have fit: "?C + 16 \<le> len" "12 \<le> sd_coff s" using r by (auto split: if_splits)
  have tfs: "rd32 buf (pkt + ?l3) = Some tfs" "sec_tfs_type tfs = UET_PDS_TYPE_SECURITY"
    using assms(2) fit L rdn_sub [OF assms(1), of ?l3 4] by (simp_all add: secured_frame_def rd32_def)
  obtain hssi tsc sa da where i: "rdn buf (pkt + ?l3 + 4) 4 = Some hssi" "length hssi = 4"
    "rd64 buf (pkt + ?l3 + (if sd_use_ssi s then 8 else 4)) = Some tsc"
    "sec_addr buf pkt v6 0 = Some sa" "length sa = (if v6 then 16 else 4)" "sec_addr buf pkt v6 (Suc 0) = Some da"
    using enc_inputs [OF assms(1,4)] by blast
  obtain k s' where k: "sec_derive_key env now s ?f (sec_tfs_an tfs) tsc hssi sa da = Some (Some k, s')" "length k = 44"
    using derive_total [of s ?f "sec_tfs_an tfs" now env tsc hssi sa da] r by blast
  have s': "sd_coff s' = sd_coff s" using derive_key_frame [OF k(1)] by (simp add: same_but_cache_fields)
  have iv: "length (sec_iv s' ?f (sec_tfs_sdi tfs) tsc hssi sa k) = 12"
    by (rule length_sec_iv) (simp_all add: i k)
  have n: "gcm_len len ?C = len - (?C + 16)" using gcm_len_pos [of ?C len] fit L assms(6) by simp
  obtain clr where clr: "rdn buf pkt ?C = Some clr" "length clr = ?C" using rdn_exists [OF assms(1), of pkt ?C] fit by auto
  obtain b1 where b1: "wr buf (length buf div 2) clr = Some b1" "length b1 = length buf"
    using wr_in [of "length buf div 2" clr buf] wr_length clr(2) fit h by (auto 4 3)
  have in1: "\<exists>x. rdn b1 i n = Some x \<and> length x = n" if "i + n \<le> pkt + len" for i n
    using that L b1(2) by (simp add: rdn_def)
  obtain aad where aad: "rdn b1 (pkt + ?l3 - ?q) (?q + sd_coff s) = Some aad" "length aad = ?q + sd_coff s"
    using in1 [of "pkt + ?l3 - ?q" "?q + sd_coff s"] fit q by (auto simp del: if_split)
  obtain inp where inp: "rdn b1 (pkt + ?C) (len - (?C + 16)) = Some inp" "length inp = len - (?C + 16)"
    using in1 [of "pkt + ?C" "len - (?C + 16)"] fit by auto
  obtain g where g: "gcm_setkey gcm_init (take 32 k) 256 = Some g"
    using setkey_enc_256 [of "take 32 k"] by (auto simp: gcm_setkey_def)
  have "length aad < 2 ^ 61" using aad(2) fit q L assms(6) by (simp del: if_split)
  then obtain c ct t where e: "gcm_crypt_and_tag g 1 (sec_iv s' ?f (sec_tfs_sdi tfs) tsc hssi sa k) aad inp [] 16 (replicate 16 0) = Some (0, c, ct, t)"
     "length ct = length inp" "length t = 16"
    using gcm_roundtrip [OF iv, of aad 16 "replicate 16 0" g inp "[]" "[]"] by auto
  obtain b2 where b2: "wr b1 (length buf div 2 + ?C) ct = Some b2"
    using wr_in [of "length buf div 2 + ?C" ct b1] b1(2) e(2) inp(2) fit h16 by auto
  obtain b3 where b3: "wr b2 (length buf div 2 + len - 16) t = Some b3"
    using wr_in [of "length buf div 2 + len - 16" t b2] wr_length [OF b2] b1(2) e(3) fit h by auto
  show ?thesis
    using assms(5) h r unfolding uet_sec_enc_pkt_def Let_def
    by (simp add: tfs assms(3) i [folded One_nat_def] k(1) s' n clr(1) b1(1) aad(1) inp(1) g e(1) b2 b3 del: if_split One_nat_def)
qed

text \<open>Decryption of a frame made of the header, the cipher text and the tag of an encryption.\<close>

lemma dec_body_ok:
  assumes rb: "rb = clr @ ct @ tag @ pad" and C: "length clr = sec_l3_len v6 + sd_coff d" "length clr + length ct + 16 = len" "len < 2 ^ 32"
    and rd: "rdn rb (sec_l3_len v6 + 4) 4 = Some hssi" "rd64 rb (sec_l3_len v6 + (if sd_use_ssi d then 8 else 4)) = Some tsc"
      "sec_addr rb 0 v6 0 = Some sa" "rdn rb (sec_l3_len v6 - (if v6 then 36 else 12)) ((if v6 then 36 else 12) + sd_coff d) = Some aad"
    and late: "\<not> sec_late d tsc"
    and k: "sec_derive_key env now d (if v6 then 1 else 0) (sec_tfs_an tfs) tsc hssi sa sa = Some (Some k, d')"
    and g: "gcm_setkey gcm_init (take 32 k) 256 = Some g" "length tag = 16" "length inp = length ct"
      "gcm_auth_decrypt g (sec_iv d' (if v6 then 1 else 0) (sec_tfs_sdi tfs) tsc hssi sa k) aad tag 16 ct ct = Some (0, inp)"
  shows "\<exists>st'. sec_dec_body env now st d rb len v6 tfs = Some (0, st', clr @ inp @ tag @ pad, Some 16)"
proof -
  have d': "sd_coff d' = sd_coff d" using derive_key_frame [OF k] by (simp add: same_but_cache_fields)
  have "gcm_len len (length clr) = length ct" using C by (subst gcm_len_pos) simp_all
  then have n: "gcm_len len (sec_l3_len v6 + sd_coff d) = length ct" by (simp add: C)
  have ct: "rdn rb (sec_l3_len v6 + sd_coff d) (length ct) = Some ct"
    by (simp add: rb rdn_def flip: C(1))
  have tag: "rdn rb (len - 16) 16 = Some tag"
    using C(2) g(2) by (simp add: rb rdn_def flip: C(2))
  have wr: "wr rb (sec_l3_len v6 + sd_coff d) inp = Some (clr @ inp @ tag @ pad)"
    by (simp add: rb wr_def g(3) flip: C(1))
  show ?thesis
    unfolding sec_dec_body_def Let_def
    by (simp add: rd late k d' n ct tag g(1,4) wr del: if_split One_nat_def)
qed

lemma sec_addr_prefix: "sec_l3_len v6 \<le> length c \<Longrightarrow> k \<le> 1 \<Longrightarrow> sec_addr (c @ x) 0 v6 k = sec_addr (c @ y) 0 v6 k"
  unfolding sec_addr_def by (rule rdn_prefix2) (auto simp: sec_addr_off_def sec_l3_len_def)

lemma enc_ok_recovered:
  assumes "enc_ok env now st buf pkt len v6 r" "rdn buf pkt len = Some plain" "secured_frame ipproto plain v6 tfs"
    and "uet_sec_sd_get st (sec_tfs_sdi tfs) = Some s" "sec_ready s v6 tfs len now" "length buf < 2 ^ 32"
    and "uet_sec_sd_get st2 (sec_tfs_sdi tfs) = Some d" "sd_enabled d" "\<not> sd_domain_dropping d" "sec_cfg_eq s d"
    and "rd64 plain (sec_l3_len v6 + (if sd_use_ssi d then 8 else 4)) = Some tsc" "\<not> sec_late d tsc"
    and "fst (uet_sec_sd_key d (if v6 then 1 else 0) (sec_tfs_an tfs) now2) = fst (uet_sec_sd_key s (if v6 then 1 else 0) (sec_tfs_an tfs) now)"
  shows "\<exists>frame st' t. se_len r = int len \<and> rdn (se_buf r) (se_pkt r) len = Some frame
     \<and> uet_sec_dec_pkt ipproto env2 now2 st2 (frame @ pad) len = Some (0, st', take (len - 16) plain @ t @ pad, Some 16)"
proof -
  let ?l3 = "sec_l3_len v6" and ?f = "if v6 then 1 else 0 :: nat" and ?C = "sec_l3_len v6 + sd_coff s"
  let ?q = "if v6 then 36 else 12 :: nat" and ?o = "if sd_use_ssi s then 8 else 4 :: nat"
  from assms(1) obtain tfs' sd hssi tsc' sa da k s' g c inp ct tag clr aad where
    e: "rd32 buf (pkt + ?l3) = Some tfs'" "uet_sec_sd_get st (sec_tfs_sdi tfs') = Some sd"
      "rdn buf (pkt + ?l3 + 4) 4 = Some hssi" "rd64 buf (pkt + ?l3 + (if sd_use_ssi sd then 8 else 4)) = Some tsc'"
      "sec_addr buf pkt v6 0 = Some sa" "sec_derive_key env now sd ?f (sec_tfs_an tfs') tsc' hssi sa da = Some (Some k, s')"
      "rdn buf pkt (?l3 + sd_coff sd) = Some clr" "rdn buf (pkt + ?l3 - ?q) (?q + sd_coff sd) = Some aad"
      "?l3 + sd_coff sd + 16 \<le> len" "rdn buf (pkt + (?l3 + sd_coff sd)) (len - (?l3 + sd_coff sd) - 16) = Some inp"
      "gcm_setkey gcm_init (take 32 k) 256 = Some g"
      "gcm_crypt_and_tag g 1 (sec_iv s' ?f (sec_tfs_sdi tfs') tsc' hssi sa k) aad inp [] 16 (replicate 16 0) = Some (0, c, ct, tag)"
      "rdn (se_buf r) (se_pkt r) len = Some (clr @ ct @ tag)" "se_len r = int len"
    unfolding enc_ok_def Let_def by blast
  have L: "length plain = len" "len < 2 ^ 32" using rdn_length [OF assms(2)] assms(6) by simp_all
  have C: "(if sd_use_ssi s then 16 else 12) \<le> sd_coff s" "?C + 16 \<le> len" "?q \<le> ?l3" "?l3 + ?o + 8 \<le> ?C" "?l3 + 8 \<le> ?C"
    using assms(5) by (auto simp: sec_ready_def sec_l3_len_def split: if_splits)
  have "rd32 plain ?l3 = Some tfs'"
    using e(1) C(2) rdn_sub [OF assms(2), of ?l3 4] by (simp add: rd32_def)
  then have tfs: "tfs' = tfs" using assms(3) by (simp add: secured_frame_def)
  then have sd: "sd = s" using e(2) assms(4) by simp
  have clr: "length clr = ?C" using rdn_length [OF e(7)] by (simp add: sd)
  have plain: "plain = clr @ drop ?C plain" 
    using rdn_sub [OF assms(2), of 0 ?C] e(7) C(2) L(1) by (simp add: sd rdn_def) (metis append_take_drop_id)
  have R: "rdn (clr @ x) i n = rdn buf (pkt + i) n" if "i + n \<le> ?C" for x i n
  proof -
    have "rdn (clr @ x) i n = rdn plain i n" using that clr by (subst plain) (rule rdn_prefix2, simp)
    also have "\<dots> = rdn buf (pkt + i) n" using rdn_sub [OF assms(2), of i n] that C(2) by simp
    finally show ?thesis .
  qed
  have cfg: "sd_use_ssi d = sd_use_ssi s" "sd_coff d = sd_coff s" using assms(10) by (simp_all add: sec_cfg_eq_def)
  let ?rb = "clr @ ct @ tag @ pad"
  note rt = crypt_roundtrip [OF e(12)]
  have il: "length inp = len - ?C - 16" using rdn_length [OF e(10)] by (simp add: sd)
  have tsc: "rd64 ?rb (?l3 + ?o) = Some tsc'" using e(4) R [of "?l3 + ?o" 8] C(4) by (simp add: rd64_def sd add_ac)
  have "tsc = tsc'" using assms(11) e(4) rdn_sub [OF assms(2), of "?l3 + ?o" 8] C(2,4) by (auto simp: rd64_def sd cfg add_ac)
  note late = assms(12) [unfolded this]
  have sa: "sec_addr ?rb 0 v6 0 = Some sa"
    using e(5) R [of "sec_addr_off v6 0" "if v6 then 16 else 4"] C(3) by (auto simp: sec_addr_def sec_addr_off_def sec_l3_len_def)
  obtain d' where k: "sec_derive_key env2 now2 d ?f (sec_tfs_an tfs) tsc' hssi sa sa = Some (Some k, d')"
    using derive_agree [OF e(6) [unfolded sd tfs] assms(10) _ assms(13) [symmetric]] assms(5) unfolding sec_ready_def by blast
  have iv: "sec_iv d' ?f (sec_tfs_sdi tfs) tsc' hssi sa k = sec_iv s' ?f (sec_tfs_sdi tfs) tsc' hssi sa k"
    using sec_iv_cong [OF assms(10) derive_key_frame [OF e(6) [unfolded sd]] derive_key_frame [OF k]] by simp
  have "\<exists>st'. sec_dec_body env2 now2 st2 d ?rb len v6 tfs = Some (0, st', clr @ inp @ tag @ pad, Some 16)"
  proof (rule dec_body_ok [OF refl _ _ L(2) _ _ sa _ late k e(11) rt(3) rt(2) [symmetric]])
    show "rdn ?rb (?l3 + 4) 4 = Some hssi" using e(3) R [of "?l3 + 4" 4] C(5) by (simp add: add_ac)
    show "rdn ?rb (?l3 - ?q) (?q + sd_coff d) = Some aad"
      using e(8) R [of "?l3 - ?q" "?q + sd_coff s"] C(3) by (simp add: cfg sd del: if_split)
  qed (use clr C(2) il rt tsc in \<open>simp_all add: cfg iv tfs\<close>)
  then obtain st' where st': "sec_dec_body env2 now2 st2 d ?rb len v6 tfs = Some (0, st', clr @ inp @ tag @ pad, Some 16)" by blast
  have "rdn buf pkt (len - 16) = Some (clr @ inp)"
    using rdn_append [OF e(7) e(10)] C(2) by (simp add: sd)
  then have "clr @ inp = take (len - 16) plain"
    using rdn_sub [OF assms(2), of 0 "len - 16"] L(1) by (simp add: rdn_def)
  then have ci: "clr @ inp @ x = take (len - 16) plain @ x" for x by (metis append_assoc)
  have sf: "secured_frame ipproto ?rb v6 tfs"
    using assms(3) C(5) clr by (subst (asm) plain) (rule secured_frame_prefix, simp_all)
  show ?thesis
    using dec_secured_frame [OF sf assms(7,8), of env2 now2 len] st' assms(5,9)
    by (simp add: e(13,14) cfg sec_ready_def ci)
qed

text \<open>C13: a frame that is ready for encryption (a security header of an enabled domain in direct
  or cluster mode, room for the tag, the packet in the lower half of its buffer) is encrypted
  without an error, and a receiver whose domain has the same configuration and selects the same
  key for the AN of the frame accepts the frame and recovers the plain text, header and payload.\<close>

theorem sec_roundtrip:
  assumes "rdn buf pkt len = Some plain" "secured_frame ipproto plain v6 tfs" "uet_sec_sd_get st (sec_tfs_sdi tfs) = Some s"
    and "sec_ready s v6 tfs len now" "pkt + len \<le> length buf div 2" "length buf < 2 ^ 32"
    and "uet_sec_sd_get st2 (sec_tfs_sdi tfs) = Some d" "sd_enabled d" "\<not> sd_domain_dropping d" "sec_cfg_eq s d"
    and "rd64 plain (sec_l3_len v6 + (if sd_use_ssi d then 8 else 4)) = Some tsc" "\<not> sec_late d tsc"
    and "fst (uet_sec_sd_key d (if v6 then 1 else 0) (sec_tfs_an tfs) now2) = fst (uet_sec_sd_key s (if v6 then 1 else 0) (sec_tfs_an tfs) now)"
  shows "\<exists>r frame st' t. uet_sec_enc_pkt env now st buf pkt len v6 = Some r \<and> se_rc r = 0 \<and> se_len r = int len
     \<and> rdn (se_buf r) (se_pkt r) len = Some frame
     \<and> uet_sec_dec_pkt ipproto env2 now2 st2 (frame @ pad) len = Some (0, st', take (len - 16) plain @ t @ pad, Some 16)"
proof -
  obtain r where r: "uet_sec_enc_pkt env now st buf pkt len v6 = Some r" "se_rc r = 0"
    using enc_succeeds [OF assms(1-6)] by blast
  moreover have "enc_ok env now st buf pkt len v6 r"
    using enc_pkt_ok [OF assms(6), of env now st pkt len v6] r by simp
  ultimately show ?thesis
    using enc_ok_recovered [OF _ assms(1-4,6-13), of env r env2 pad] by blast
qed

lemma direct_key: "length (fst (uet_sec_sd_key direct_sd 0 0 now)) = 44"
proof -
  have "length (def_key ! 0) = map length def_key ! 0"
    by (rule nth_map [symmetric]) (simp add: length_def_key flip: length_map [of length])
  then show ?thesis by (simp add: length_def_key uet_sec_sd_key_def direct_sd_def sd_zero_def)
qed

lemma length_sec_frame_bytes [simp]: "length (sec_frame_bytes n) = 42 + n"
  by (simp add: sec_frame_bytes_def be16_def be32_def)

theorem sec_roundtrip_witness:
  "\<exists>r frame st' t. uet_sec_enc_pkt demo_env 0 (demo_st direct_sd) (sec_frame_bytes 34 @ replicate 100 0) 0 76 False = Some r
     \<and> se_rc r = 0 \<and> se_len r = int 76 \<and> rdn (se_buf r) (se_pkt r) 76 = Some frame
     \<and> uet_sec_dec_pkt 0xfd demo_env 0 (demo_st direct_sd) (frame @ [1, 2]) 76
         = Some (0, st', take (76 - 16) (sec_frame_bytes 34) @ t @ [1, 2], Some 16)"
proof (rule sec_roundtrip [where tfs = "0x08000001" and s = direct_sd and d = direct_sd and tsc = 0])
  show "rdn (sec_frame_bytes 34 @ replicate 100 0) 0 76 = Some (sec_frame_bytes 34)" by (simp add: rdn_def)
  show "secured_frame 0xfd (sec_frame_bytes 34) False 0x08000001" by (rule sec_frame_secured)
  have "rdn (sec_frame_bytes 34) 42 8 = Some (replicate 8 0)"
    by (simp add: rdn_def) (simp add: sec_frame_bytes_def be16_def be32_def)
  moreover have "be_val (replicate 8 0) = (0 :: u64)" by (simp add: be_val_def numeral_eq_Suc)
  ultimately show "rd64 (sec_frame_bytes 34) (sec_l3_len False + (if sd_use_ssi direct_sd then 8 else 4)) = Some 0"
    by (simp add: rd64_def sec_l3_len_def direct_sd_def sd_zero_def)
  show "sec_ready direct_sd False 0x08000001 76 0"
    using direct_key [of 0] by (simp add: sec_ready_def sec_tfs_an_def direct_sd_def sd_zero_def sec_l3_len_def)
  show "uet_sec_sd_get (demo_st direct_sd) (sec_tfs_sdi 0x08000001) = Some direct_sd"
    by (simp add: demo_st_def sec_state_zero_def sec_tfs_sdi_def)
  then show "uet_sec_sd_get (demo_st direct_sd) (sec_tfs_sdi 0x08000001) = Some direct_sd" .
  show "\<not> sec_late direct_sd 0"
    by (simp add: sec_late_def direct_sd_def sd_zero_def)
qed (simp_all add: sec_cfg_eq_def direct_sd_def sd_zero_def)

end
