(* ===== verification/SecNonce.thy ===== *)
theory SecNonce
  imports SecRoundtrip
begin

unbundle bit_operations_syntax

text \<open>
  The (key, initialisation vector) pairs of \<open>src/uet_sec.c\<close> and \<open>src/uet_sec_sd.c\<close>: the stamps
  that \<open>uet_sec_build_hdr\<close> and \<open>uet_sec_update_hdr_tsc\<close> put into a sequence of packets, and where
  their uniqueness ends.
\<close>

section \<open>Reference definitions\<close>

text \<open>The AN and the epoch and counter a security header carries.\<close>

definition sec_stamp :: "bytes \<Rightarrow> nat \<Rightarrow> bool \<Rightarrow> (u8 \<times> u64) option" where
  "sec_stamp buf pkt v6 = do {
     tfs \<leftarrow> rd32 buf (pkt + sec_l3_len v6);
     tsc \<leftarrow> rd64 buf (pkt + sec_l3_len v6 + (if sec_tfs_sp tfs then 8 else 4));
     Some (sec_tfs_an tfs, tsc) }"

definition hdr_tfs :: "uet_sec_sd \<Rightarrow> u8 \<Rightarrow> u32" where
  "hdr_tfs sd an = (let tfs = push_bit 27 (ucast UET_PDS_TYPE_SECURITY) OR (push_bit 24 (ucast an) AND 0x01000000)
                        OR (sd_sdi sd AND 0x00ffffff) in if sd_use_ssi sd then tfs OR 0x04000000 else tfs)"

text \<open>What an operation on the header does to the counter of its secure domain: a stamp takes the
  counter of the rotated domain and moves it on, a failure at most rotates.\<close>

definition tx_ctr :: "uet_sec_sd \<Rightarrow> bool \<times> u64 \<times> u64 \<times> u64" where
  "tx_ctr sd = (sd_rotation_enabled sd, sd_invoke_fatal_threshold sd, sd_tx_rot sd, sd_tx_counter sd)"

definition tx_stamped :: "uet_sec_sd \<Rightarrow> u64 \<Rightarrow> u64 \<Rightarrow> uet_sec_sd \<Rightarrow> (u8 \<times> u64) option \<Rightarrow> bool" where
  "tx_stamped sd now1 now2 sd' stamp \<longleftrightarrow> (let s1 = uet_sec_sd_tx_rotate sd now2 in
     case stamp of None \<Rightarrow> tx_ctr sd' = tx_ctr sd \<or> tx_ctr sd' = tx_ctr s1
     | Some (an, tsc) \<Rightarrow> sd_tx_counter s1 < sd_invoke_fatal_threshold s1 \<and> tx_ctr sd' = tx_ctr (s1\<lparr>sd_tx_counter := sd_tx_counter s1 + 1\<rparr>)
         \<and> an = uet_sec_sd_tx_an sd now1 AND 1 \<and> tsc = sec_epoch_tsc (sd_epoch s1) (sd_tx_counter s1))"

datatype sec_op = Sec_build u64 u64 u32 bytes nat int bool | Sec_update u64 u64 bytes nat bool

definition sec_op_step :: "sec_env \<Rightarrow> u32 \<Rightarrow> sec_state \<Rightarrow> sec_op \<Rightarrow> (sec_state \<times> (u8 \<times> u64) option) option" where
  "sec_op_step env sdi st op = (case op of
     Sec_build now1 now2 ssi buf pkt len v6 \<Rightarrow>
       map_option (\<lambda>r. (sh_state r, if sh_rc r = 0 then sec_stamp (sh_buf r) (sh_pkt r) v6 else None))
         (uet_sec_build_hdr env now1 now2 st sdi ssi buf pkt len v6)
   | Sec_update now1 now2 buf pkt v6 \<Rightarrow> do {
       tfs \<leftarrow> rd32 buf (pkt + sec_l3_len v6);
       (rc, st', buf') \<leftarrow> uet_sec_update_hdr_tsc now1 now2 st buf pkt v6;
       Some (st', if rc = 0 \<and> sec_tfs_sdi tfs = sdi then sec_stamp buf' pkt v6 else None) })"

fun op_times :: "sec_op \<Rightarrow> u64 \<times> u64" where
  "op_times (Sec_build now1 now2 _ _ _ _ _) = (now1, now2)"
| "op_times (Sec_update now1 now2 _ _ _) = (now1, now2)"

fun sec_run :: "sec_env \<Rightarrow> u32 \<Rightarrow> sec_state \<Rightarrow> sec_op list \<Rightarrow> (u64 \<times> u8 \<times> u64) list option" where
  "sec_run env sdi st [] = Some []"
| "sec_run env sdi st (op # ops) = do {
     (st', stamp) \<leftarrow> sec_op_step env sdi st op;
     rest \<leftarrow> sec_run env sdi st' ops;
     Some (case stamp of None \<Rightarrow> rest | Some (an, tsc) \<Rightarrow> (snd (op_times op), an, tsc) # rest) }"

fun sec_after :: "sec_env \<Rightarrow> u32 \<Rightarrow> sec_state \<Rightarrow> sec_op list \<Rightarrow> sec_state option" where
  "sec_after env sdi st [] = Some st"
| "sec_after env sdi st (op # ops) = Option.bind (sec_op_step env sdi st op) (\<lambda>(st', _). sec_after env sdi st' ops)"

text \<open>The (rotation, counter) pairs used so far: none is of a later rotation, those of the current
  one are below the counter.\<close>

definition nonce_inv :: "uet_sec_sd \<Rightarrow> (u64 \<times> u64) set \<Rightarrow> bool" where
  "nonce_inv sd H \<longleftrightarrow> sd_rotation_enabled sd \<and> sd_invoke_fatal_threshold sd \<le> 0x0001000000000000
     \<and> (\<forall>(r, t) \<in> H. r \<le> sd_tx_rot sd \<and> (r = sd_tx_rot sd \<longrightarrow> t AND mask 48 < sd_tx_counter sd))"

definition nonce_of :: "u64 \<times> u8 \<times> u64 \<Rightarrow> u64 \<times> u64" where
  "nonce_of = (\<lambda>(now, an, tsc). (sel_rot an now, tsc))"

definition rot_sd :: uet_sec_sd where
  "rot_sd = demo_sd\<lparr>sd_invoke_fatal_threshold := 0x0000ffffffffffff\<rparr>"

definition blank_pkt :: bytes where
  "blank_pkt = replicate 100 0"

definition client_env :: "string \<Rightarrow> sec_env" where
  "client_env ssi = \<lparr>env_sec_mode = Some ''server'', env_sec_ssi = Some ssi, env_sec_server = None, env_sec_client_ssi = None,
     env_sec_key_rotation = None\<rparr>"

definition server_env :: "string \<Rightarrow> string \<Rightarrow> sec_env" where
  "server_env ssi client_ssi = \<lparr>env_sec_mode = Some ''server'', env_sec_ssi = Some ssi, env_sec_server = Some ''1'',
     env_sec_client_ssi = Some client_ssi, env_sec_key_rotation = None\<rparr>"

definition ipv4_nic :: "u32 \<Rightarrow> sec_nic" where
  "ipv4_nic a = \<lparr>sn_has_ipv4 = True, sn_ipv4_addr = a, sn_has_ipv6 = False, sn_ipv6_addr = []\<rparr>"

abbreviation (input) server_kdf :: "nat \<Rightarrow> string \<Rightarrow> bytes option" where
  "server_kdf an ssi \<equiv> kdf_ctr_cmac_aes (take 32 (def_key ! an)) 256 8 uet_sec_label2 (small_context (be16 0) [0, 0, 0, 0] (be32 (strtoul10 ssi))) 352"

section \<open>Lemmas\<close>

lemma tfs_masks: "(0x01000000 :: u32) = push_bit 24 1" "(0x04000000 :: u32) = push_bit 26 1"
  "(0x00ffffff :: u32) = mask 24" "(0xf8000000 :: u32) = push_bit 27 (mask 5)"
  by (simp_all add: mask_eq_exp_minus_1 push_bit_eq_mult)

lemma and_push_one: "(x AND push_bit n 1 \<noteq> 0) = bit x n" for x :: "'a::len word"
  by (simp add: bit_iff_and_push_bit_not_eq_0)

lemma sec_tfs_bits: "sec_tfs_an tfs = (if bit tfs 24 then 1 else 0)" "sec_tfs_sp tfs = bit tfs 26"
  unfolding sec_tfs_an_def sec_tfs_sp_def tfs_masks and_push_one by simp_all

lemma hdr_tfs_bit:
  "bit (hdr_tfs sd an) n = (n = 27 \<or> n = 24 \<and> bit an 0 \<or> n < 24 \<and> bit (sd_sdi sd) n \<or> n = 26 \<and> sd_use_ssi sd)"
proof -
  have t: "(ucast (1 :: u8) :: u32) = 1" by simp
  show ?thesis
    unfolding hdr_tfs_def tfs_masks Let_def t if_distrib [of "\<lambda>w. bit w n"]
      bit_push_bit_iff bit_or_iff bit_and_iff bit_mask_iff bit_1_iff bit_unsigned_iff
    by auto
qed

lemma hdr_tfs_fields:
  "sec_tfs_an (hdr_tfs sd an) = an AND 1" "sec_tfs_sp (hdr_tfs sd an) = sd_use_ssi sd"
  "sec_tfs_sdi (hdr_tfs sd an) = sd_sdi sd AND 0x00ffffff"
  unfolding sec_tfs_bits hdr_tfs_bit sec_tfs_sdi_def
    apply (simp add: and_one_eq mod_2_eq_odd bit_0)
   apply simp
  unfolding tfs_masks
  apply (rule bit_word_eqI) apply (auto simp: hdr_tfs_bit bit_and_iff bit_mask_iff)
  done

lemma tx_ctr_simps [simp]:
  "tx_ctr (sd\<lparr>sd_stats := x\<rparr>) = tx_ctr sd" "tx_ctr (sd\<lparr>sd_epoch := y\<rparr>) = tx_ctr sd"
  by (simp_all add: tx_ctr_def)

lemma wr_stamp:
  assumes "wr b0 (pkt + sec_l3_len v6) (be32 tfs) = Some b1"
    and "wr b1 (pkt + sec_l3_len v6 + 4) (pre @ be64 x) = Some b2" "length pre = (if sec_tfs_sp tfs then 4 else 0)"
  shows "sec_stamp b2 pkt v6 = Some (sec_tfs_an tfs, x)"
proof -
  let ?s = "pkt + sec_l3_len v6"
  have "rd32 b2 ?s = Some tfs"
    using rd_wr_other(2) [OF assms(2), of ?s] rd_wr_same(2) [OF assms(1)] by simp
  moreover have "rdn b2 (?s + 4 + length pre) 8 = Some (be64 x)"
    using rdn_split [of b2 "?s + 4" "length pre" 8 "pre @ be64 x"] rdn_wr_same [OF assms(2), of "length pre + 8"] by simp
  ultimately show ?thesis
    by (cases "sec_tfs_sp tfs") (simp_all add: sec_stamp_def rd64_def assms(3) add.assoc)
qed

lemma build_hdr_eq:
  fixes now1 now2 sd sdi
  defines "s1 \<equiv> uet_sec_sd_tx_rotate sd now2"
  defines "tfs \<equiv> hdr_tfs s1 (uet_sec_sd_tx_an sd now1)"
  defines "fail \<equiv> (\<lambda>st buf pkt len. Some \<lparr>sh_rc = - EINVAL, sh_state = st, sh_buf = buf, sh_pkt = pkt, sh_len = len\<rparr>)"
  assumes "uet_sec_sd_get st sdi = Some sd" "0 < len" "sd_enabled sd"
  shows "uet_sec_build_hdr env now1 now2 st sdi ssi buf pkt len v6 =
    (let hl = (if sd_use_ssi s1 then UET_SEC_SSI_LEN else UET_SEC_LEN) in
     if pkt < hl then fail (sd_put st sdi s1) buf pkt len
     else do {
       h \<leftarrow> rdn buf pkt (sec_l3_len v6);
       buf \<leftarrow> wr buf (pkt - hl) h;
       buf \<leftarrow> wr buf (pkt - hl + sec_l3_len v6) (be32 tfs);
       if sd_tx_counter s1 \<ge> sd_invoke_fatal_threshold s1 then
         fail (sd_put (sd_put st sdi s1) sdi (s1\<lparr>sd_stats := (sd_stats s1)\<lparr>out_invoke_fail := out_invoke_fail (sd_stats s1) + 1\<rparr>\<rparr>)) buf (pkt - hl) (len + int hl)
       else do {
         pre \<leftarrow> (if sd_use_ssi s1 then map_option be32 (if sd_mode s1 = UET_SEC_MODE_SERVER \<and> env_sec_server env \<noteq> None
                    then map_option strtoul10 (env_sec_client_ssi env) else Some ssi) else Some []);
         buf \<leftarrow> wr buf (pkt - hl + sec_l3_len v6 + 4) (pre @ be64 (sec_epoch_tsc (sd_epoch s1) (sd_tx_counter s1)));
         Some \<lparr>sh_rc = 0, sh_state = sd_put (sd_put st sdi s1) sdi (s1\<lparr>sd_tx_counter := sd_tx_counter s1 + 1\<rparr>), sh_buf = buf,
               sh_pkt = pkt - hl, sh_len = len + int hl\<rparr> } })"
proof -
  have n: "\<not> len \<le> 0" "\<not> \<not> sd_enabled sd" using assms(5,6) by simp_all
  have u: "sd_use_ssi (x\<lparr>sd_tx_counter := c\<rparr>) = sd_use_ssi x" "sd_mode (x\<lparr>sd_tx_counter := c\<rparr>) = sd_mode x"
    "sd_epoch (x\<lparr>sd_tx_counter := c\<rparr>) = sd_epoch x" for x c by simp_all
  show ?thesis
    unfolding uet_sec_build_hdr_def Let_def assms(4) option.case if_not_P [OF n(1)] if_not_P [OF n(2)] fail_def tfs_def hdr_tfs_def s1_def
    by (cases "sd_use_ssi (uet_sec_sd_tx_rotate sd now2)") (simp_all only: if_True if_False simp_thms append_Nil Option.bind_assoc bind_map_option Option.bind.simps u o_def)
qed

lemma sd_get_port_stats [simp]: "uet_sec_sd_get (st\<lparr>sec_port_stats := x\<rparr>) sdi = uet_sec_sd_get st sdi"
  by (simp add: uet_sec_sd_get_def)

lemma tx_stamped_fail [simp]: "tx_stamped sd n1 n2 sd None" "tx_stamped sd n1 n2 (uet_sec_sd_tx_rotate sd n2) None"
  "tx_stamped sd n1 n2 ((uet_sec_sd_tx_rotate sd n2)\<lparr>sd_stats := x\<rparr>) None"
  by (simp_all add: tx_stamped_def)

lemma build_hdr_stamped:
  assumes "length (sdkdb st) = 8" "uet_sec_sd_get st sdi = Some sd" "uet_sec_build_hdr env now1 now2 st sdi ssi buf pkt len v6 = Some r"
  shows "length (sdkdb (sh_state r)) = 8"
    and "\<exists>sd' stamp. uet_sec_sd_get (sh_state r) sdi = Some sd' \<and> tx_stamped sd now1 now2 sd' stamp
      \<and> stamp = (if sh_rc r = 0 then sec_stamp (sh_buf r) (sh_pkt r) v6 else None) \<and> (sh_rc r = 0 \<longrightarrow> stamp \<noteq> None)"
proof -
  have u: "unat sdi < 8" using assms(2) by (rule sd_get_lt)
  have "length (sdkdb (sh_state r)) = 8 \<and> (\<exists>sd'. uet_sec_sd_get (sh_state r) sdi = Some sd'
    \<and> tx_stamped sd now1 now2 sd' (if sh_rc r = 0 then sec_stamp (sh_buf r) (sh_pkt r) v6 else None)
    \<and> (sh_rc r = 0 \<longrightarrow> sec_stamp (sh_buf r) (sh_pkt r) v6 \<noteq> None))"
  proof (cases "0 < len \<and> sd_enabled sd")
    case False
    then show ?thesis using assms
      by (cases "len \<le> 0") (auto simp: uet_sec_build_hdr_def Let_def)
  next
    case True
    have "pred_option (\<lambda>r. length (sdkdb (sh_state r)) = 8 \<and> (\<exists>sd'. uet_sec_sd_get (sh_state r) sdi = Some sd'
        \<and> tx_stamped sd now1 now2 sd' (if sh_rc r = 0 then sec_stamp (sh_buf r) (sh_pkt r) v6 else None)
        \<and> (sh_rc r = 0 \<longrightarrow> sec_stamp (sh_buf r) (sh_pkt r) v6 \<noteq> None)))
       (uet_sec_build_hdr env now1 now2 st sdi ssi buf pkt len v6)"
      unfolding build_hdr_eq [OF assms(2) True [THEN conjunct1] True [THEN conjunct2]]
    proof (intro opt_vcg, goal_cases)
      case (3 hl h b1 b2 pre b3)
      have "length pre = (if sec_tfs_sp (hdr_tfs (uet_sec_sd_tx_rotate sd now2) (uet_sec_sd_tx_an sd now1)) then 4 else 0)"
        using 3(7) by (auto simp: hdr_tfs_fields split: if_splits)
      from wr_stamp [OF 3(5) 3(8) this] 3(6) show ?case
        by (auto simp: assms(1) u tx_stamped_def hdr_tfs_fields Let_def)
    qed (simp_all add: assms u)
    then show ?thesis using assms(3) by simp
  qed
  then show "length (sdkdb (sh_state r)) = 8"
    and "\<exists>sd' stamp. uet_sec_sd_get (sh_state r) sdi = Some sd' \<and> tx_stamped sd now1 now2 sd' stamp
      \<and> stamp = (if sh_rc r = 0 then sec_stamp (sh_buf r) (sh_pkt r) v6 else None) \<and> (sh_rc r = 0 \<longrightarrow> stamp \<noteq> None)" by auto
qed

lemma an_replace:
  fixes tfs :: u32 and an :: u8
  defines "t \<equiv> (tfs AND NOT 0x01000000) OR (push_bit 24 (ucast an) AND 0x01000000)"
  shows "sec_tfs_an t = an AND 1" "sec_tfs_sp t = sec_tfs_sp tfs"
proof -
  have "bit t 24 = bit an 0" "bit t 26 = bit tfs 26"
    unfolding t_def tfs_masks by (simp_all add: bit_simps del: push_bit_of_1)
  then show "sec_tfs_an t = an AND 1" "sec_tfs_sp t = sec_tfs_sp tfs"
    by (simp_all add: sec_tfs_bits and_one_eq mod_2_eq_odd bit_0)
qed

lemma wr_stamp_tsc:
  assumes "rd32 b (pkt + sec_l3_len v6) = Some tfs"
    and "wr b (pkt + sec_l3_len v6 + (if sec_tfs_sp tfs then 8 else 4)) (be64 x) = Some b'"
  shows "sec_stamp b' pkt v6 = Some (sec_tfs_an tfs, x)"
  using rd_wr_other(2) [OF assms(2), of "pkt + sec_l3_len v6"] rd_wr_same(3) [OF assms(2)] assms(1)
  by (simp add: sec_stamp_def)

lemma update_hdr_stamped:
  assumes "length (sdkdb st) = 8" "uet_sec_sd_get st sdi = Some sd" "sd_rotation_enabled sd"
    "rd32 buf (pkt + sec_l3_len v6) = Some tfs"
  shows "pred_option (\<lambda>(rc, st', buf'). length (sdkdb st') = 8 \<and> (\<exists>sd'. uet_sec_sd_get st' sdi = Some sd'
     \<and> tx_stamped sd now1 now2 sd' (if rc = 0 \<and> sec_tfs_sdi tfs = sdi then sec_stamp buf' pkt v6 else None)))
   (uet_sec_update_hdr_tsc now1 now2 st buf pkt v6)"
proof -
  have u: "unat sdi < 8" using assms(2) by (rule sd_get_lt)
  show ?thesis
    unfolding uet_sec_update_hdr_tsc_def
  proof (intro opt_vcg, simp_all add: assms u, goal_cases)
    case (1 sec x sd0 tfs' xa sda sdi0 stats sdb)
    then show ?case using assms(2) by auto
  next
    case (2 sec x sd0 tfs' b1 sda sdia tsc sdb b2)
    show ?case
    proof
      assume i: "sec_tfs_sdi x = sdi"
      then have sd0: "sd0 = sd" using 2(4) assms(2) by simp
      have t: "tfs' = (x AND NOT 0x01000000) OR (push_bit 24 (ucast (uet_sec_sd_tx_an sd now1)) AND 0x01000000)"
        using 2(6) by (simp only: sd0 assms(3) if_True)
      have an: "sec_tfs_an tfs' = uet_sec_sd_tx_an sd now1 AND 1" unfolding t by (rule an_replace)
      have "rd32 b1 (pkt + sec_l3_len v6) = Some tfs'"
        using 2(7) rd_wr_same(2) by (simp add: sd0 assms(3) 2(1))
      from wr_stamp_tsc [OF this] 2(13)
      have "sec_stamp b2 pkt v6 = Some (sec_tfs_an tfs', sec_epoch_tsc (sd_epoch (uet_sec_sd_tx_rotate sd now2)) (sd_tx_counter (uet_sec_sd_tx_rotate sd now2)))"
        by (simp only: sd0 flip: 2(6) [unfolded sd0])
      then show "tx_stamped sd now1 now2 (uet_sec_sd_tx_rotate sd0 now2\<lparr>sd_tx_counter := sd_tx_counter (uet_sec_sd_tx_rotate sd0 now2) + 1\<rparr>) (sec_stamp b2 pkt v6)"
        using 2(10) by (auto simp: sd0 tx_stamped_def Let_def an)
    qed
  qed
qed

lemma op_step_stamped:
  assumes "length (sdkdb st) = 8" "uet_sec_sd_get st sdi = Some sd" "sd_rotation_enabled sd" "sec_op_step env sdi st op = Some (st', stamp)"
  shows "length (sdkdb st') = 8 \<and> (\<exists>sd'. uet_sec_sd_get st' sdi = Some sd' \<and> tx_stamped sd (fst (op_times op)) (snd (op_times op)) sd' stamp)"
proof (cases op)
  case (Sec_build now1 now2 ssi buf pkt len v6)
  then obtain r where r: "uet_sec_build_hdr env now1 now2 st sdi ssi buf pkt len v6 = Some r" "st' = sh_state r"
    "stamp = (if sh_rc r = 0 then sec_stamp (sh_buf r) (sh_pkt r) v6 else None)"
    using assms(4) by (auto simp: sec_op_step_def)
  show ?thesis using build_hdr_stamped [OF assms(1,2) r(1)] unfolding r(2,3) Sec_build op_times.simps fst_conv snd_conv by blast
next
  case (Sec_update now1 now2 buf pkt v6)
  then obtain tfs where t: "rd32 buf (pkt + sec_l3_len v6) = Some tfs"
    using assms(4) by (auto simp: sec_op_step_def bind_eq_Some_conv)
  with Sec_update show ?thesis
    using update_hdr_stamped [OF assms(1-3) t, of now1 now2] assms(4)
    by (cases "uet_sec_update_hdr_tsc now1 now2 st buf pkt v6") (auto simp: sec_op_step_def)
qed

lemma rotate_fields:
  assumes "sd_rotation_enabled sd"
  shows "sd_tx_rot (uet_sec_sd_tx_rotate sd now) = fst (uet_sec_rot_now now)"
    "sd_tx_counter (uet_sec_sd_tx_rotate sd now) = (if sd_tx_rot sd = fst (uet_sec_rot_now now) then sd_tx_counter sd else 0)"
    "sd_rotation_enabled (uet_sec_sd_tx_rotate sd now)" "sd_invoke_fatal_threshold (uet_sec_sd_tx_rotate sd now) = sd_invoke_fatal_threshold sd"
  using assms by (auto simp: uet_sec_sd_tx_rotate_def Let_def)

lemma rotate_inv:
  assumes "nonce_inv sd H" "sd_tx_rot sd \<le> fst (uet_sec_rot_now now)"
  shows "nonce_inv (uet_sec_sd_tx_rotate sd now) H"
  using assms by (fastforce simp: nonce_inv_def rotate_fields)

lemma nonce_inv_cong: "tx_ctr sd = tx_ctr sd' \<Longrightarrow> nonce_inv sd H = nonce_inv sd' H"
  by (simp add: nonce_inv_def tx_ctr_def)

lemma epoch_tsc_low: "c < 0x0001000000000000 \<Longrightarrow> sec_epoch_tsc e c AND mask 48 = c" for c :: u64
proof -
  assume "c < 0x0001000000000000"
  then have c: "take_bit 48 c = c" 
    by (simp add: word_unat_eq_iff unsigned_take_bit_eq take_bit_nat_eq_self_iff word_less_nat_alt)
  have m: "(0x0000ffffffffffff :: u64) = mask 48" by (simp add: mask_eq_exp_minus_1)
  have "sec_epoch_tsc e c AND mask 48 = take_bit 48 c"
    unfolding sec_epoch_tsc_def m by (rule bit_word_eqI) (auto simp: bit_simps)
  with c show ?thesis by simp
qed

lemma stamp_inv:
  assumes "nonce_inv s H" "sd_tx_counter s < sd_invoke_fatal_threshold s"
  shows "(sd_tx_rot s, sec_epoch_tsc e (sd_tx_counter s)) \<notin> H"
    and "nonce_inv (s\<lparr>sd_tx_counter := sd_tx_counter s + 1\<rparr>) (insert (sd_tx_rot s, sec_epoch_tsc e (sd_tx_counter s)) H)"
proof -
  let ?c = "sd_tx_counter s" and ?t = "sec_epoch_tsc e (sd_tx_counter s)"
  have lt: "?c < 0x0001000000000000" using assms unfolding nonce_inv_def by (meson order_less_le_trans)
  note low = epoch_tsc_low [OF lt, of e]
  show "(sd_tx_rot s, ?t) \<notin> H" using assms(1) low by (auto simp: nonce_inv_def)
  have "x < ?c + 1 \<longleftrightarrow> x \<le> ?c" for x
    using lt by (unat_arith, auto)
  then show "nonce_inv (s\<lparr>sd_tx_counter := sd_tx_counter s + 1\<rparr>) (insert (sd_tx_rot s, ?t) H)"
    using assms(1) low by (auto simp: nonce_inv_def)
qed

lemma an_and_1: "(ucast (r AND 1) :: u8) AND 1 = ucast (r AND 1)" for r :: u64
  by (rule bit_word_eqI) (auto simp: bit_simps bit_1_iff)

lemma sel_rot_stamp: "sd_rotation_enabled sd \<Longrightarrow> sel_rot (uet_sec_sd_tx_an sd now AND 1) now = fst (uet_sec_rot_now now)"
  by (simp add: uet_sec_sd_tx_an_def sel_rot_self an_and_1)

lemma rot_now_mono: "a \<le> b \<Longrightarrow> fst (uet_sec_rot_now a) \<le> fst (uet_sec_rot_now b)"
  by (simp add: uet_sec_rot_now_def Let_def word_le_nat_alt unat_div div_le_mono)

lemma tx_rot_cong: "tx_ctr sd = tx_ctr sd' \<Longrightarrow> sd_tx_rot sd = sd_tx_rot sd'"
  by (simp add: tx_ctr_def)

lemma tx_stamped_inv:
  assumes "tx_stamped sd now now sd' stamp" "nonce_inv sd H" "sd_tx_rot sd \<le> fst (uet_sec_rot_now now)"
  shows "sd_tx_rot sd' \<le> fst (uet_sec_rot_now now)"
    and "stamp = None \<Longrightarrow> nonce_inv sd' H"
    and "stamp = Some (an, tsc) \<Longrightarrow> (sel_rot an now, tsc) \<notin> H \<and> nonce_inv sd' (insert (sel_rot an now, tsc) H)"
proof -
  have e: "sd_rotation_enabled sd" using assms(2) by (simp add: nonce_inv_def)
  let ?s = "uet_sec_sd_tx_rotate sd now"
  note r = rotate_inv [OF assms(2,3)] rotate_fields [OF e, of now]
  have "sd_tx_rot sd' = sd_tx_rot sd \<or> sd_tx_rot sd' = sd_tx_rot ?s"
    using assms(1) tx_rot_cong [of sd' sd] tx_rot_cong [of sd' ?s] tx_rot_cong [of sd' "?s\<lparr>sd_tx_counter := sd_tx_counter ?s + 1\<rparr>"]
    by (cases stamp) (simp_all add: tx_stamped_def Let_def case_prod_beta, blast)
  then show "sd_tx_rot sd' \<le> fst (uet_sec_rot_now now)" unfolding r(2) using assms(3) by (metis order_refl)
  show "nonce_inv sd' H" if "stamp = None"
    using assms(1) that r(1) assms(2) nonce_inv_cong [of sd' sd H] nonce_inv_cong [of sd' ?s H] by (auto simp: tx_stamped_def Let_def)
  show "(sel_rot an now, tsc) \<notin> H \<and> nonce_inv sd' (insert (sel_rot an now, tsc) H)" if stp: "stamp = Some (an, tsc)"
  proof -
    obtain x where x: "tsc = sec_epoch_tsc x (sd_tx_counter ?s)" "sel_rot an now = sd_tx_rot ?s" "sd_tx_counter ?s < sd_invoke_fatal_threshold ?s"
      "tx_ctr sd' = tx_ctr (?s\<lparr>sd_tx_counter := sd_tx_counter ?s + 1\<rparr>)"
      using assms(1) stp sel_rot_stamp [OF e] r(2) by (auto simp: tx_stamped_def Let_def)
    show ?thesis
      unfolding x(1,2) nonce_inv_cong [OF x(4)] using stamp_inv [OF r(1) x(3)] by blast
  qed
qed

lemma run_nonces:
  assumes "sec_run env sdi st ops = Some stamps" "length (sdkdb st) = 8" "uet_sec_sd_get st sdi = Some sd" "nonce_inv sd H"
    and "sd_tx_rot sd \<le> fst (uet_sec_rot_now t0)" "sorted (t0 # map (snd \<circ> op_times) ops)" "\<forall>op \<in> set ops. fst (op_times op) = snd (op_times op)"
  shows "distinct (map nonce_of stamps) \<and> nonce_of ` set stamps \<inter> H = {}"
  using assms
proof (induction ops arbitrary: st sd H stamps t0)
  case (Cons op ops)
  let ?t = "snd (op_times op)"
  obtain st' stamp rest where s: "sec_op_step env sdi st op = Some (st', stamp)" "sec_run env sdi st' ops = Some rest"
    "stamps = (case stamp of None \<Rightarrow> rest | Some (an, tsc) \<Rightarrow> (?t, an, tsc) # rest)"
    using Cons.prems(1) by (auto simp: bind_eq_Some_conv)
  have e: "sd_rotation_enabled sd" using Cons.prems(4) by (simp add: nonce_inv_def)
  have t: "fst (op_times op) = ?t" using Cons.prems(7) by simp
  obtain sd' where sd': "length (sdkdb st') = 8" "uet_sec_sd_get st' sdi = Some sd'" "tx_stamped sd ?t ?t sd' stamp"
    using op_step_stamped [OF Cons.prems(2,3) e s(1)] t by auto
  have "fst (uet_sec_rot_now t0) \<le> fst (uet_sec_rot_now ?t)" using Cons.prems(6) by (intro rot_now_mono) simp
  with Cons.prems(5) have m: "sd_tx_rot sd \<le> fst (uet_sec_rot_now ?t)" by (rule order_trans)
  note i = tx_stamped_inv [OF sd'(3) Cons.prems(4) m]
  note IH = Cons.IH [OF s(2) sd'(1,2) _ i(1)]
  show ?case
  proof (cases stamp)
    case None
    then show ?thesis using IH [OF i(2) [OF None]] Cons.prems(6,7) s(3) by simp
  next
    case (Some p)
    obtain an tsc where p: "p = (an, tsc)" by (cases p)
    then show ?thesis using IH [OF i(3) [OF Some [unfolded p], THEN conjunct2]] i(3) [OF Some [unfolded p]] Cons.prems(6,7) s(3) Some
      by (auto simp: nonce_of_def)
  qed
qed simp

lemma tx_stamped_rot:
  assumes "tx_stamped sd now1 now2 sd' stamp" "sd_rotation_enabled sd"
  shows "sd_rotation_enabled sd'"
    and "sd_tx_rot sd' = sd_tx_rot sd \<or> sd_tx_rot sd' = fst (uet_sec_rot_now now2)"
    and "stamp \<noteq> None \<Longrightarrow> sd_tx_rot sd' = fst (uet_sec_rot_now now2)"
  using assms rotate_fields [OF assms(2), of now2]
  by (auto simp: tx_stamped_def tx_ctr_def Let_def split: option.splits)

lemma tx_stamped_reset:
  assumes "tx_stamped sd now1 now2 sd' (Some (an, tsc))" "sd_rotation_enabled sd" "sd_tx_rot sd \<noteq> fst (uet_sec_rot_now now2)"
  shows "an = ucast (fst (uet_sec_rot_now now1) AND 1) AND 1" "tsc = sec_epoch_tsc 0 0"
  using assms by (auto simp: tx_stamped_def uet_sec_sd_tx_rotate_def uet_sec_sd_tx_an_def Let_def)

lemma after_rot:
  assumes "sec_after env sdi st ops = Some st'" "length (sdkdb st) = 8" "uet_sec_sd_get st sdi = Some sd"
    and "sd_rotation_enabled sd" "sd_tx_rot sd = r" "\<forall>op \<in> set ops. fst (uet_sec_rot_now (snd (op_times op))) = r"
  shows "length (sdkdb st') = 8 \<and> (\<exists>sd'. uet_sec_sd_get st' sdi = Some sd' \<and> sd_rotation_enabled sd' \<and> sd_tx_rot sd' = r)"
  using assms
proof (induction ops arbitrary: st sd)
  case (Cons op ops)
  obtain st1 stamp where s: "sec_op_step env sdi st op = Some (st1, stamp)" "sec_after env sdi st1 ops = Some st'"
    using Cons.prems(1) by (auto simp: bind_eq_Some_conv)
  obtain sd1 where sd1: "length (sdkdb st1) = 8" "uet_sec_sd_get st1 sdi = Some sd1"
    "tx_stamped sd (fst (op_times op)) (snd (op_times op)) sd1 stamp"
    using op_step_stamped [OF Cons.prems(2-4) s(1)] by blast
  have "sd_tx_rot sd1 = r" using tx_stamped_rot(2) [OF sd1(3) Cons.prems(4)] Cons.prems(5,6) by auto
  with Cons.IH [OF s(2) sd1(1,2) tx_stamped_rot(1) [OF sd1(3) Cons.prems(4)]] Cons.prems(6) show ?case by simp
qed auto

lemma run_append:
  assumes "sec_after env sdi st ops = Some st'" "sec_run env sdi st' ops' = Some stamps'"
  shows "\<exists>stamps. sec_run env sdi st (ops @ ops') = Some (stamps @ stamps')"
  using assms
proof (induction ops arbitrary: st)
  case (Cons op ops)
  obtain st1 stamp where s: "sec_op_step env sdi st op = Some (st1, stamp)" "sec_after env sdi st1 ops = Some st'"
    using Cons.prems(1) by (auto simp: bind_eq_Some_conv)
  obtain stamps where "sec_run env sdi st1 (ops @ ops') = Some (stamps @ stamps')" using Cons.IH [OF s(2) Cons.prems(2)] by blast
  then have "sec_run env sdi st ((op # ops) @ ops') =
    Some ((case stamp of None \<Rightarrow> stamps | Some (an, tsc) \<Rightarrow> (snd (op_times op), an, tsc) # stamps) @ stamps')"
    by (simp add: s(1) split: option.split prod.split)
  then show ?case by blast
qed simp

lemma sel_rot_guard:
  assumes "fst (uet_sec_rot_now now) = r + 1" "snd (uet_sec_rot_now now) < UET_SEC_ROT_GUARD_MS"
  shows "sel_rot (ucast (r AND 1)) now = r"
proof -
  have "ucast (r AND 1) \<noteq> (ucast ((r + 1) AND 1) :: u8)" unfolding an_of_rot by simp
  then show ?thesis using assms by (simp add: sel_rot_def case_prod_beta Let_def)
qed

lemma build_hdr_blank:
  assumes "uet_sec_sd_get st 1 = Some sd" "sd_enabled sd" "\<not> sd_use_ssi sd" "sd_rotation_enabled sd"
    "sd_tx_counter (uet_sec_sd_tx_rotate sd now2) < sd_invoke_fatal_threshold sd"
  shows "\<exists>r. uet_sec_build_hdr env now1 now2 st 1 0 blank_pkt 20 60 False = Some r \<and> sh_rc r = 0 \<and>
    sh_state r = sd_put (sd_put st 1 (uet_sec_sd_tx_rotate sd now2)) 1
        ((uet_sec_sd_tx_rotate sd now2)\<lparr>sd_tx_counter := sd_tx_counter (uet_sec_sd_tx_rotate sd now2) + 1\<rparr>)
    \<and> sec_stamp (sh_buf r) (sh_pkt r) False = Some (uet_sec_sd_tx_an sd now1 AND 1,
         sec_epoch_tsc (sd_epoch (uet_sec_sd_tx_rotate sd now2)) (sd_tx_counter (uet_sec_sd_tx_rotate sd now2)))"
proof -
  let ?s = "uet_sec_sd_tx_rotate sd now2" and ?t = "hdr_tfs (uet_sec_sd_tx_rotate sd now2) (uet_sec_sd_tx_an sd now1)"
  have f: "\<not> sd_use_ssi ?s" "sd_invoke_fatal_threshold ?s = sd_invoke_fatal_threshold sd"
    using assms(3) by (simp_all add: uet_sec_sd_tx_rotate_def Let_def)
  have l: "length blank_pkt = 100" "sec_l3_len False = 38" by (simp_all add: blank_pkt_def sec_l3_len_def)
  obtain h where h: "rdn blank_pkt 20 38 = Some h" "length h = 38" by (simp add: rdn_def l)
  obtain b1 where b1: "wr blank_pkt 8 h = Some b1" "length b1 = 100" using wr_in [of 8 h blank_pkt] wr_length h(2) l by auto
  obtain b2 where b2: "wr b1 46 (be32 ?t) = Some b2" "length b2 = 100" using wr_in [of 46 "be32 ?t" b1] wr_length b1(2) by auto
  let ?e = "be64 (sec_epoch_tsc (sd_epoch ?s) (sd_tx_counter ?s))"
  obtain b3 where b3: "wr b2 50 ?e = Some b3" using wr_in [of 50 ?e b2] b2(2) by auto
  have "sec_stamp b3 8 False = Some (sec_tfs_an ?t, sec_epoch_tsc (sd_epoch ?s) (sd_tx_counter ?s))"
    using wr_stamp [of b1 8 False ?t b2 "[]" _ b3] b2(1) b3 f(1) by (simp add: l hdr_tfs_fields)
  then show ?thesis
    using assms(5) [unfolded not_le [symmetric]] by (subst build_hdr_eq [OF assms(1) _ assms(2)]) (simp_all add: f l h(1) b1(1) b2(1) b3 hdr_tfs_fields)
qed

lemma rot_sd_simps [simp]:
  "sd_enabled rot_sd" "\<not> sd_use_ssi rot_sd" "sd_rotation_enabled rot_sd" "sd_tx_rot rot_sd = 0"
  "sd_invoke_fatal_threshold rot_sd = 0x0000ffffffffffff"
  by (simp_all add: rot_sd_def demo_sd_def sd_zero_def)

lemma blank_step:
  assumes "length (sdkdb st) = 8" "uet_sec_sd_get st 1 = Some sd" "sd_enabled sd" "\<not> sd_use_ssi sd" "sd_rotation_enabled sd"
    "sd_tx_rot sd \<noteq> fst (uet_sec_rot_now now2)" "0 < sd_invoke_fatal_threshold sd"
  shows "\<exists>st' sd'. sec_op_step env 1 st (Sec_build now1 now2 0 blank_pkt 20 60 False) =
      Some (st', Some (uet_sec_sd_tx_an sd now1 AND 1, 0)) \<and> length (sdkdb st') = 8 \<and> uet_sec_sd_get st' 1 = Some sd'
      \<and> sd' = sd\<lparr>sd_tx_rot := fst (uet_sec_rot_now now2), sd_tx_counter := 1, sd_epoch := 0\<rparr>"
proof -
  have s: "uet_sec_sd_tx_rotate sd now2 = sd\<lparr>sd_tx_rot := fst (uet_sec_rot_now now2), sd_tx_counter := 0, sd_epoch := 0\<rparr>"
    using assms(5,6) by (simp add: uet_sec_sd_tx_rotate_def Let_def)
  obtain r where r: "uet_sec_build_hdr env now1 now2 st 1 0 blank_pkt 20 60 False = Some r" "sh_rc r = 0"
    "sh_state r = sd_put (sd_put st 1 (uet_sec_sd_tx_rotate sd now2)) 1
        ((uet_sec_sd_tx_rotate sd now2)\<lparr>sd_tx_counter := sd_tx_counter (uet_sec_sd_tx_rotate sd now2) + 1\<rparr>)"
    "sec_stamp (sh_buf r) (sh_pkt r) False = Some (uet_sec_sd_tx_an sd now1 AND 1, sec_epoch_tsc 0 0)"
    using build_hdr_blank [OF assms(2-5), of now2 env now1] assms(7) by (auto simp: s)
  have "sec_epoch_tsc 0 0 = 0" by (simp add: sec_epoch_tsc_def)
  then show ?thesis using assms(1) by (simp add: sec_op_step_def r s)
qed

lemma blank_first:
  obtains st1 sd1 where "sec_op_step demo_env 1 (demo_st rot_sd) (Sec_build 20000 20000 0 blank_pkt 20 60 False) =
      Some (st1, Some (uet_sec_sd_tx_an rot_sd 20000 AND 1, 0))" "length (sdkdb st1) = 8" "uet_sec_sd_get st1 1 = Some sd1"
      "sd1 = rot_sd\<lparr>sd_tx_rot := 2, sd_tx_counter := 1, sd_epoch := 0\<rparr>"
  using blank_step [of "demo_st rot_sd" rot_sd 20000 demo_env 20000] by (auto simp: uet_sec_rot_now_def)

text \<open>C14: a packet counter is never used twice with one key: over any sequence of header
  operations (new headers and retransmissions) of a rotating secure domain, at clock readings
  that do not decrease and one reading for each operation, no two packets have the same rotation
  of the key and the same epoch and counter, whatever resets the rotations make.\<close>

theorem nonce_unique:
  assumes "length (sdkdb st) = 8" "uet_sec_sd_get st sdi = Some sd" "sd_rotation_enabled sd"
    and "sd_invoke_fatal_threshold sd \<le> 0x0001000000000000" "sd_tx_rot sd \<le> fst (uet_sec_rot_now t0)"
    and "sorted (t0 # map (snd \<circ> op_times) ops)" "\<forall>op \<in> set ops. fst (op_times op) = snd (op_times op)"
    and "sec_run env sdi st ops = Some stamps"
  shows "distinct (map nonce_of stamps)"
  using run_nonces [OF assms(8,1,2) _ assms(5-7), of "{}"] assms(3,4) by (simp add: nonce_inv_def)

theorem nonce_unique_witness:
  "\<exists>stamps. sec_run demo_env 1 (demo_st rot_sd) [Sec_build 20000 20000 0 blank_pkt 20 60 False, Sec_build 30000 30000 0 blank_pkt 20 60 False]
     = Some stamps \<and> length stamps = 2 \<and> distinct (map nonce_of stamps)"
proof -
  obtain st1 sd1 where 1: "sec_op_step demo_env 1 (demo_st rot_sd) (Sec_build 20000 20000 0 blank_pkt 20 60 False) =
      Some (st1, Some (uet_sec_sd_tx_an rot_sd 20000 AND 1, 0))" "length (sdkdb st1) = 8" "uet_sec_sd_get st1 1 = Some sd1"
      "sd1 = rot_sd\<lparr>sd_tx_rot := 2, sd_tx_counter := 1, sd_epoch := 0\<rparr>"
    by (rule blank_first)
  obtain st2 where 2: "sec_op_step demo_env 1 st1 (Sec_build 30000 30000 0 blank_pkt 20 60 False) =
      Some (st2, Some (uet_sec_sd_tx_an sd1 30000 AND 1, 0))"
    using blank_step [OF 1(2,3), of 30000 demo_env 30000] 1(4) by (auto simp: uet_sec_rot_now_def)
  have r: "sec_run demo_env 1 (demo_st rot_sd) [Sec_build 20000 20000 0 blank_pkt 20 60 False, Sec_build 30000 30000 0 blank_pkt 20 60 False]
    = Some [(20000, uet_sec_sd_tx_an rot_sd 20000 AND 1, 0), (30000, uet_sec_sd_tx_an sd1 30000 AND 1, 0)]"
    by (simp add: 1(1) 2)
  show ?thesis
    using nonce_unique [OF _ _ _ _ _ _ _ r, of rot_sd 20000] r by simp
qed

text \<open>C15: the operations read the clock twice, once for the AN and once for the rotation. Whenever
  a rotation boundary falls between the two readings of an operation, its packet carries the AN of
  the old key and the counter of the new rotation, which has been reset: the stamp is the one of
  the first packet of the old rotation, whatever operations came in between. While the guard
  window lasts the encryption selects the same key for both packets, from any two consistent
  states of the key cache over one pool of keys.\<close>

theorem rotation_race_reuses_nonce:
  assumes "length (sdkdb st) = 8" "uet_sec_sd_get st sdi = Some sd" "sd_rotation_enabled sd" "sd_tx_rot sd \<noteq> r"
    and first: "sec_op_step env sdi st op1 = Some (st1, Some (an1, tsc1))"
      "fst (uet_sec_rot_now (fst (op_times op1))) = r" "fst (uet_sec_rot_now (snd (op_times op1))) = r"
    and between: "sec_after env sdi st1 ops = Some st2" "\<forall>op \<in> set ops. fst (uet_sec_rot_now (snd (op_times op))) = r"
    and race: "sec_op_step env sdi st2 op2 = Some (st3, Some (an2, tsc2))"
      "fst (uet_sec_rot_now (fst (op_times op2))) = r" "fst (uet_sec_rot_now (snd (op_times op2))) = r + 1"
      "snd (uet_sec_rot_now (snd (op_times op2))) < UET_SEC_ROT_GUARD_MS"
    and enc: "20000 \<le> u1" "fst (uet_sec_rot_now u1) = r"
      "20000 \<le> u2" "fst (uet_sec_rot_now u2) = r + 1" "snd (uet_sec_rot_now u2) < UET_SEC_ROT_GUARD_MS"
    and keys: "sd_rotation_enabled k1" "key_cache_inv k1" "sd_rotation_enabled k2" "key_cache_inv k2" "sd_pool k2 = sd_pool k1" "fam < 2"
  shows "an2 = an1 \<and> tsc2 = tsc1 \<and> fst (uet_sec_sd_key k2 fam an2 u2) = fst (uet_sec_sd_key k1 fam an1 u1)
    \<and> (\<exists>stamps. sec_run env sdi st (op1 # ops @ [op2]) = Some stamps \<and> \<not> distinct (map nonce_of stamps))"
proof -
  obtain sd1 where 1: "length (sdkdb st1) = 8" "uet_sec_sd_get st1 sdi = Some sd1"
    "tx_stamped sd (fst (op_times op1)) (snd (op_times op1)) sd1 (Some (an1, tsc1))"
    using op_step_stamped [OF assms(1-3) first(1)] by blast
  note r1 = tx_stamped_rot [OF 1(3) assms(3)] and s1 = tx_stamped_reset [OF 1(3) assms(3)]
  obtain sd2 where 2: "length (sdkdb st2) = 8" "uet_sec_sd_get st2 sdi = Some sd2" "sd_rotation_enabled sd2" "sd_tx_rot sd2 = r"
    using after_rot [OF between(1) 1(1,2) r1(1) _ between(2)] r1(3) first(3) by auto
  obtain sd3 where 3: "tx_stamped sd2 (fst (op_times op2)) (snd (op_times op2)) sd3 (Some (an2, tsc2))"
    using op_step_stamped [OF 2(1-3) race(1)] by blast
  note s2 = tx_stamped_reset [OF 3 2(3)]
  have a: "an1 = ucast (r AND 1)" "an2 = ucast (r AND 1)" "tsc2 = tsc1"
    using s1 s2 first(2,3) race(2,3) assms(4) 2(4) by (simp_all add: an_and_1)
  have sel: "sel_rot (ucast (r AND 1)) t = r" if "fst (uet_sec_rot_now t) = r" for t
    using sel_rot_self [of t] that by simp
  have k: "fst (uet_sec_sd_key k2 fam an2 u2) = fst (uet_sec_sd_key k1 fam an1 u1)"
    using enc sel sel_rot_guard [OF enc(4,5)] keys
    by (simp add: a sd_key_spec(1) eff_key_at_cong [OF keys(5)])
  have "sec_run env sdi st2 [op2] = Some [(snd (op_times op2), an2, tsc2)]" by (simp add: race(1))
  from run_append [OF between(1) this] obtain stamps where
    "sec_run env sdi st (op1 # ops @ [op2]) = Some ((snd (op_times op1), an1, tsc1) # stamps @ [(snd (op_times op2), an2, tsc2)])"
    by (auto simp: first(1))
  moreover have "nonce_of (snd (op_times op2), an2, tsc2) = nonce_of (snd (op_times op1), an1, tsc1)"
    using sel [OF first(3)] sel_rot_guard [OF race(3,4)] by (simp add: nonce_of_def a)
  ultimately show ?thesis using a k by auto
qed

theorem rotation_race_reuses_nonce_witness:
  "\<exists>an tsc stamps. sec_run demo_env 1 (demo_st rot_sd) [Sec_build 20000 20000 0 blank_pkt 20 60 False, Sec_build 29999 30000 0 blank_pkt 20 60 False]
     = Some stamps \<and> \<not> distinct (map nonce_of stamps) \<and> stamps = [(20000, an, tsc), (30000, an, tsc)]
   \<and> fst (uet_sec_sd_key rot_sd 0 an 30001) = fst (uet_sec_sd_key rot_sd 0 an 20001)"
proof -
  obtain st1 sd1 where 1: "sec_op_step demo_env 1 (demo_st rot_sd) (Sec_build 20000 20000 0 blank_pkt 20 60 False) =
      Some (st1, Some (uet_sec_sd_tx_an rot_sd 20000 AND 1, 0))" "length (sdkdb st1) = 8" "uet_sec_sd_get st1 1 = Some sd1"
      "sd1 = rot_sd\<lparr>sd_tx_rot := 2, sd_tx_counter := 1, sd_epoch := 0\<rparr>"
    by (rule blank_first)
  obtain st2 where 2: "sec_op_step demo_env 1 st1 (Sec_build 29999 30000 0 blank_pkt 20 60 False) =
      Some (st2, Some (uet_sec_sd_tx_an sd1 29999 AND 1, 0))"
    using blank_step [OF 1(2,3), of 30000 demo_env 29999] 1(4) by (auto simp: uet_sec_rot_now_def)
  have i: "key_cache_inv rot_sd" using demo_sd_inv(2) by (simp add: rot_sd_def key_cache_inv_def key_shape_def key_window_def eff_key_at_def)
  have n: "sec_after demo_env 1 st1 [] = Some st1" "length (sdkdb (demo_st rot_sd)) = 8" "uet_sec_sd_get (demo_st rot_sd) 1 = Some rot_sd" by simp_all
  have "uet_sec_sd_tx_an sd1 29999 AND 1 = uet_sec_sd_tx_an rot_sd 20000 AND 1 \<and> (0 :: u64) = 0
    \<and> fst (uet_sec_sd_key rot_sd 0 (uet_sec_sd_tx_an sd1 29999 AND 1) 30001) = fst (uet_sec_sd_key rot_sd 0 (uet_sec_sd_tx_an rot_sd 20000 AND 1) 20001)
    \<and> (\<exists>stamps. sec_run demo_env 1 (demo_st rot_sd) (Sec_build 20000 20000 0 blank_pkt 20 60 False # [] @ [Sec_build 29999 30000 0 blank_pkt 20 60 False])
        = Some stamps \<and> \<not> distinct (map nonce_of stamps))"
    by (rule rotation_race_reuses_nonce [OF n(2,3) _ _ 1(1) _ _ n(1) _ 2, of 2]) (simp_all add: uet_sec_rot_now_def i)
  then show ?thesis by (simp add: 1(1) 2) metis
qed

lemma client_init:
  assumes "server_kdf 0 ssi = Some d0" "server_kdf 1 ssi = Some d1"
  shows "\<exists>st sd. uet_sec_init (client_env ssi) (ipv4_nic a) now = Some (0, st) \<and> uet_sec_sd_get st 1 = Some sd
     \<and> sd_mode sd = UET_SEC_MODE_SERVER \<and> sd_use_ssi sd \<and> \<not> sd_rotation_enabled sd \<and> \<not> sd_rekey sd
     \<and> sd_pool sd ! 0 = [d0, d1, def_key ! 2, def_key ! 3] \<and> sd_tx_counter sd = 0"
proof -
  have k: "def_key = [def_key ! 0, def_key ! 1, def_key ! 2, def_key ! 3]" by (simp add: def_key_def)
  have f: "uet_sec_derive_family_keys (client_env ssi) sd 0 a [] = Some (sd\<lparr>sd_pool := [[d0, d1, def_key ! 2, def_key ! 3], def_key]\<rparr>)"
    if "sd_pool sd = [def_key, def_key]" "sd_epoch sd = 0" for sd
    using assms that by (simp add: uet_sec_derive_family_keys_def client_env_def) (subst k, simp)
  have e: "env_sec_mode (client_env ssi) = Some ''server''" "env_sec_ssi (client_env ssi) = Some ssi" "env_sec_server (client_env ssi) = None"
    "env_sec_key_rotation (client_env ssi) = None" by (simp_all add: client_env_def)
  have z: "uet_sec_sd_get sec_state_zero 1 = Some sd_zero" "length (sdkdb sec_state_zero) = 8"
    by (simp_all add: sec_state_zero_def uet_sec_sd_get_def)
  show ?thesis
    by (simp add: uet_sec_init_def uet_sec_init_sd_def e f z ipv4_nic_def Let_def) (simp_all add: f z sd_zero_def)
qed

lemma server_init:
  "\<exists>st sd. uet_sec_init (server_env ssi cssi) nic now = Some (0, st) \<and> uet_sec_sd_get st 1 = Some sd
     \<and> sd_mode sd = UET_SEC_MODE_SERVER \<and> sd_use_ssi sd \<and> \<not> sd_rotation_enabled sd \<and> \<not> sd_rekey sd \<and> sd_pool sd ! 0 = def_key \<and> sd_tx_counter sd = 0"
  by (simp add: uet_sec_init_def uet_sec_init_sd_def server_env_def sec_state_zero_def uet_sec_sd_get_def sd_put_def sd_zero_def Let_def)

lemma server_mode_key:
  assumes "sd_mode sd = UET_SEC_MODE_SERVER" "\<not> sd_rotation_enabled sd" "sd_use_ssi sd" "drop_bit 48 tsc = 0" "sd_pool sd ! 0 = def_key"
    "env_sec_server env \<noteq> None"
  shows "sec_derive_key env now sd 0 an tsc (be32 (strtoul10 ssi)) sa p = map_option (\<lambda>d. (Some d, sd)) (server_kdf (unat an) ssi)"
  using assms by (auto simp: sec_derive_key_def uet_sec_sd_key_def Let_def)

lemma client_mode_key:
  assumes "sd_mode sd = UET_SEC_MODE_SERVER" "\<not> sd_rotation_enabled sd" "env_sec_server env = None"
  shows "sec_derive_key env now sd 0 an tsc hssi sa p = Some (Some (take 44 (sd_pool sd ! 0 ! unat an)), sd)"
  using assms by (simp add: sec_derive_key_def uet_sec_sd_key_def Let_def)

text \<open>C16: in server mode the two directions share their nonces: after the initialisation both the
  client and its server start counting at 0, and for each AN and each counter value the server
  encrypts to the client with the key and the initialisation vector the client encrypts with to
  the server.\<close>

theorem server_mode_shares_nonces:
  assumes "an < 2" "drop_bit 48 tsc = 0"
  shows "\<exists>stc sts c s k. uet_sec_init (client_env ssi) (ipv4_nic a) now = Some (0, stc) \<and> uet_sec_sd_get stc 1 = Some c
    \<and> uet_sec_init (server_env sssi ssi) nic now' = Some (0, sts) \<and> uet_sec_sd_get sts 1 = Some s
    \<and> sd_tx_counter c = 0 \<and> sd_tx_counter s = 0
    \<and> sec_derive_key (client_env ssi) t c 0 an tsc (be32 (strtoul10 ssi)) ca sa = Some (Some k, c)
    \<and> sec_derive_key (server_env sssi ssi) t' s 0 an tsc (be32 (strtoul10 ssi)) sa ca = Some (Some k, s)
    \<and> sec_iv c 0 1 tsc (be32 (strtoul10 ssi)) ca k = sec_iv s 0 1 tsc (be32 (strtoul10 ssi)) sa k"
proof -
  obtain d0 d1 where d: "server_kdf 0 ssi = Some d0" "length d0 = 44" "server_kdf 1 ssi = Some d1" "length d1 = 44"
    using kdf_total by meson
  obtain stc c where c: "uet_sec_init (client_env ssi) (ipv4_nic a) now = Some (0, stc)" "uet_sec_sd_get stc 1 = Some c"
    "sd_mode c = UET_SEC_MODE_SERVER" "sd_use_ssi c" "\<not> sd_rotation_enabled c" "sd_pool c ! 0 = [d0, d1, def_key ! 2, def_key ! 3]" "sd_tx_counter c = 0"
    using client_init [OF d(1,3)] by blast
  obtain sts s where s: "uet_sec_init (server_env sssi ssi) nic now' = Some (0, sts)" "uet_sec_sd_get sts 1 = Some s"
    "sd_mode s = UET_SEC_MODE_SERVER" "sd_use_ssi s" "\<not> sd_rotation_enabled s" "sd_pool s ! 0 = def_key" "sd_tx_counter s = 0"
    using server_init by blast
  have e: "env_sec_server (client_env ssi) = None" "env_sec_server (server_env sssi ssi) \<noteq> None"
    by (simp_all add: client_env_def server_env_def)
  obtain k where k: "server_kdf (unat an) ssi = Some k" "take 44 (sd_pool c ! 0 ! unat an) = k"
  proof (cases "an = 0")
    case False
    then have "an = 1" using assms(1) by unat_arith
    then show ?thesis using that d c(6) by simp
  qed (use that d c(6) in simp)
  have "sec_iv c 0 1 tsc (be32 (strtoul10 ssi)) ca k = sec_iv s 0 1 tsc (be32 (strtoul10 ssi)) sa k"
    by (simp add: sec_iv_def c s)
  then show ?thesis
    using c(1,2,7) s(1,2,7) client_mode_key [OF c(3,5) e(1)] server_mode_key [OF s(3,5,4) assms(2) s(6) e(2)] k by auto
qed

theorem server_mode_shares_nonces_witness:
  "\<exists>stc sts c s k. uet_sec_init (client_env ''7'') (ipv4_nic 1) 0 = Some (0, stc) \<and> uet_sec_sd_get stc 1 = Some c
    \<and> uet_sec_init (server_env ''9'' ''7'') (ipv4_nic 2) 0 = Some (0, sts) \<and> uet_sec_sd_get sts 1 = Some s
    \<and> sd_tx_counter c = 0 \<and> sd_tx_counter s = 0
    \<and> sec_derive_key (client_env ''7'') 0 c 0 0 0 (be32 (strtoul10 ''7'')) [] [] = Some (Some k, c)
    \<and> sec_derive_key (server_env ''9'' ''7'') 0 s 0 0 0 (be32 (strtoul10 ''7'')) [] [] = Some (Some k, s)
    \<and> sec_iv c 0 1 0 (be32 (strtoul10 ''7'')) [] k = sec_iv s 0 1 0 (be32 (strtoul10 ''7'')) [] k"
  by (rule server_mode_shares_nonces) simp_all

end
