(* ===== verification/PdsState.thy ===== *)
theory PdsState
  imports BitmapSpec Crc32c Parse Sec
begin

unbundle bit_operations_syntax

text \<open>
  The data of the packet delivery sublayer (\<open>src/uet_pds.c\<close>): the packet descriptor, the
  packet delivery context (PDC), the tables of the PDS manager, and the packet sequence number
  (PSN) arithmetic.  The state of the process is the record \<open>pds_world\<close>.  Packet descriptors
  live in a heap of addresses, so a descriptor that is used after it was freed, freed twice or
  removed from a list it is not on makes the operation \<^const>\<open>None\<close>.  What the engine asks of
  the outside (the clock, \<open>rand\<close>, \<open>calloc\<close>, the NIC and the upcalls into SES) is answered by
  the functions of \<open>pds_ctx\<close>, indexed by a counter that every request advances.  The field
  \<open>w_log\<close> records the transmitted frames and the upcalls, the newest first.
\<close>

section \<open>Sequence numbers\<close>

abbreviation (input) UET_DEFAULT_MP_RANGE :: nat where "UET_DEFAULT_MP_RANGE \<equiv> 128"
abbreviation (input) UET_PDC_MAX :: nat where "UET_PDC_MAX \<equiv> 64"

definition UET_PDS_PSN_OFFSET :: "u32 \<Rightarrow> u32 \<Rightarrow> int" where
  "UET_PDS_PSN_OFFSET a b = sint (a - b)"

definition UET_PDS_PSN_AFTER :: "u32 \<Rightarrow> u32 \<Rightarrow> bool" where
  "UET_PDS_PSN_AFTER a b \<longleftrightarrow> sint (a - b) > 0"

definition UET_PDS_PSN_AFTER_EQ :: "u32 \<Rightarrow> u32 \<Rightarrow> bool" where
  "UET_PDS_PSN_AFTER_EQ a b \<longleftrightarrow> sint (a - b) \<ge> 0"

definition UET_PDS_UPDATE_PSN :: "u32 \<Rightarrow> u32 \<Rightarrow> u32" where
  "UET_PDS_UPDATE_PSN old new = (if sint (new - old) > 0 then new else old)"

definition PSN_IN_MPR :: "u32 \<Rightarrow> u32 \<Rightarrow> bool" where
  "PSN_IN_MPR psn base_psn \<longleftrightarrow> psn - base_psn < 128"

definition PSN_IN_PRIOR_MPR :: "u32 \<Rightarrow> u32 \<Rightarrow> bool" where
  "PSN_IN_PRIOR_MPR psn base_psn \<longleftrightarrow> PSN_IN_MPR psn (base_psn - 128)"

definition uet_pds_decode_mpr :: "u8 \<Rightarrow> u32" where
  "uet_pds_decode_mpr mpr = ucast mpr * 128"

text \<open>The result is an \<open>int16_t\<close>; the assertion of the source always holds (\<open>psn_2c_offset_assert\<close>).\<close>

definition psn_2c_offset :: "u32 \<Rightarrow> u32 \<Rightarrow> u16" where
  "psn_2c_offset base_psn psn = ucast (NOT (base_psn - psn) + 1)"

text \<open>The index \<open>psn - base\<close> of a PSN that is handed to the bitmap as an \<open>int\<close>.\<close>

definition psn_idx :: "u32 \<Rightarrow> u32 \<Rightarrow> int" where
  "psn_idx psn base_psn = sint (psn - base_psn)"

section \<open>Packet descriptors and contexts\<close>

datatype pdc_state_t = PDC_STATE_UNALLOC | PDC_STATE_SYN | PDC_STATE_PENDING | PDC_STATE_ESTABLISHED
  | PDC_STATE_CLOSING | PDC_STATE_ERROR

datatype pdc_type_t = PDC_TYPE_NONE | PDC_TYPE_RUD | PDC_TYPE_ROD

datatype uet_pds_mode_t = UET_PDS_MODE_UUD | UET_PDS_MODE_ROD | UET_PDS_MODE_RUD | UET_PDS_MODE_RUDI

abbreviation (input) UET_PDS_FLAG_SOM :: u8 where "UET_PDS_FLAG_SOM \<equiv> 0x01"
abbreviation (input) UET_PDS_FLAG_EOM :: u8 where "UET_PDS_FLAG_EOM \<equiv> 0x02"
abbreviation (input) UET_PDS_FLAG_MAINTAIN_PDC :: u8 where "UET_PDS_FLAG_MAINTAIN_PDC \<equiv> 0x10"

text \<open>A pointer into a buffer is an offset, a NULL pointer is \<^const>\<open>None\<close>.  \<open>pkt_buf_len\<close> and
  \<open>ack_buf_len\<close> are the lengths of the buffers.\<close>

record uet_pdc_pkt =
  pk_psn :: u32
  pk_msg_id :: u16
  pkt_buf :: "bytes option"
  pk_pkt :: nat
  pk_pkt_len :: nat
  tx_time :: int
  tx_retry_cnt :: int
  tx_pkt_handle :: "nat option"
  tx_pkt_acked :: bool
  dst_recvd :: bool
  pk_flags :: u8
  needs_clear :: bool
  reordered :: bool
  ack_buf :: "bytes option"
  pk_ack :: "nat option"
  pk_ack_len :: nat
  pkt_pp :: uet_parsed_pkt
  pkt_parsed :: bool
  ack_pp :: uet_parsed_pkt
  ack_parsed :: bool

definition pdc_pkt_zero :: uet_pdc_pkt where
  "pdc_pkt_zero = \<lparr>pk_psn = 0, pk_msg_id = 0, pkt_buf = None, pk_pkt = 0, pk_pkt_len = 0, tx_time = 0,
     tx_retry_cnt = 0, tx_pkt_handle = None, tx_pkt_acked = False, dst_recvd = False, pk_flags = 0,
     needs_clear = False, reordered = False, ack_buf = None, pk_ack = None, pk_ack_len = 0,
     pkt_pp = pp_zero, pkt_parsed = False, ack_pp = pp_zero, ack_parsed = False\<rparr>"

text \<open>\<open>struct uet_fa\<close> is a union: the sixteen bytes, an IPv4 address in host order in the first
  four of them.\<close>

type_synonym uet_fa = bytes

definition fa_v4 :: "u32 \<Rightarrow> uet_fa" where
  "fa_v4 a = rev (be32 a) @ replicate 12 0"

record uet_pdc_ini_key =
  ik_type :: pdc_type_t
  ik_job_id :: u32
  ik_src_ip :: uet_fa
  ik_dst_ip :: uet_fa
  ik_tc :: u8

record uet_pdc_tgt_key =
  tk_src_ip :: uet_fa
  tk_dst_ip :: uet_fa
  tk_spdcid :: u16

text \<open>The bitmaps hold addresses of packet descriptors, \<open>tx_pkt_list\<close> is the retransmission list.\<close>

record uet_pdc =
  pdc_state :: pdc_state_t
  is_initiator :: bool
  pdc_id :: u16
  dpdcid :: u16
  active_msg_id :: u16
  active_msg_id_valid :: bool
  close_requested :: bool
  close_started :: bool
  close_cmd_psn :: u32
  ini_hkey :: uet_pdc_ini_key
  tgt_hkey :: uet_pdc_tgt_key
  tx_pkt_list :: "nat list"
  src_mac_addr :: bytes
  dst_mac_addr :: bytes
  src_addr :: uet_fa
  dst_addr :: uet_fa
  pdc_ipv6 :: bool
  syn_offset :: u16
  start_psn :: u32
  pending_time :: int
  next_psn :: u32
  tx_bm :: "nat bitmap"
  tx_bm_base_psn :: u32
  max_cack_psn :: u32
  peer_mp_range :: u32
  mpr_update_cack_psn :: u32
  mpr_update_valid :: bool
  rx_bm :: "nat bitmap"
  rx_bm_base_psn :: u32
  cack_psn :: u32
  max_clear_psn :: u32
  prev_ar_psn :: u32
  max_rcvd_psn :: u32
  accepted_bytes :: u32
  sack_base_track :: u32
  close_req_time :: int
  sec_enabled :: bool
  pdc_sdi :: u32
  pdc_ssi :: u32

definition bm_zero :: "nat bitmap" where
  "bm_zero = \<lparr>bit_arr = [], bit_arr_len = 0, data_arr = [], bm_size = 0\<rparr>"

definition fa_zero :: uet_fa where
  "fa_zero = replicate 16 0"

definition pdc_zero :: uet_pdc where
  "pdc_zero = \<lparr>pdc_state = PDC_STATE_UNALLOC, is_initiator = False, pdc_id = 0, dpdcid = 0, active_msg_id = 0,
     active_msg_id_valid = False, close_requested = False, close_started = False, close_cmd_psn = 0,
     ini_hkey = \<lparr>ik_type = PDC_TYPE_NONE, ik_job_id = 0, ik_src_ip = fa_zero, ik_dst_ip = fa_zero, ik_tc = 0\<rparr>,
     tgt_hkey = \<lparr>tk_src_ip = fa_zero, tk_dst_ip = fa_zero, tk_spdcid = 0\<rparr>, tx_pkt_list = [],
     src_mac_addr = replicate 6 0, dst_mac_addr = replicate 6 0, src_addr = fa_zero, dst_addr = fa_zero,
     pdc_ipv6 = False, syn_offset = 0, start_psn = 0, pending_time = 0, next_psn = 0, tx_bm = bm_zero,
     tx_bm_base_psn = 0, max_cack_psn = 0, peer_mp_range = 0, mpr_update_cack_psn = 0, mpr_update_valid = False,
     rx_bm = bm_zero, rx_bm_base_psn = 0, cack_psn = 0, max_clear_psn = 0, prev_ar_psn = 0, max_rcvd_psn = 0,
     accepted_bytes = 0, sack_base_track = 0, close_req_time = 0, sec_enabled = False, pdc_sdi = 0, pdc_ssi = 0\<rparr>"

definition uet_pds_tx_psn_allowed :: "uet_pdc \<Rightarrow> u32 \<Rightarrow> bool" where
  "uet_pds_tx_psn_allowed pdc psn =
     (if \<not> PSN_IN_MPR psn (tx_bm_base_psn pdc) then False
      else peer_mp_range pdc = 0 \<or> \<not> UET_PDS_PSN_AFTER psn (max_cack_psn pdc + peer_mp_range pdc))"

section \<open>The process state and its environment\<close>

datatype pds_event =
    Ev_tx bytes
  | Ev_rx_req uet_parsed_pkt int bool
  | Ev_rx_rsp "nat option" "uet_parsed_pkt option"
  | Ev_pds_err nat

text \<open>An outstanding RUDI request (\<open>src/uet_pds_rudi.c\<close>).\<close>

record uet_rudi_out_pkt =
  rp_pkt_id :: u32
  rp_handle :: "nat option"
  rp_msg_id :: u16
  rp_pkt_buf :: bytes
  rp_pkt :: nat
  rp_pkt_len :: nat
  rp_sec_enabled :: bool
  rp_sdi :: u32
  rp_ssi :: u32
  rp_is_ipv6 :: bool
  rp_sec_hdr_built :: bool
  rp_tx_retry_cnt :: int
  rp_tx_time :: int

text \<open>\<open>w_pkts\<close> is the heap of packet descriptors and \<open>w_next\<close> the next fresh address.  The hash
  tables hold PDC numbers, the newest entry first; the key of an entry is the key field of its PDC.
  \<open>w_rudi\<close> is the heap of outstanding RUDI requests, \<open>w_rudi_ht\<close> and \<open>w_rto_list\<close> the table and
  the list that refer to it.\<close>

record pds_world =
  w_ready :: bool
  w_pdc :: "uet_pdc list"
  w_alloc :: "nat list"
  w_free :: "nat list"
  w_ini_ht :: "nat list"
  w_tgt_ht :: "nat list"
  w_msgid_ht :: "(u16 \<times> nat) list"
  new_pdc_timeout_cnt :: u32
  psn_range_close_cnt :: u32
  pdc_close_in_err_cnt :: u32
  w_pkts :: "nat \<Rightarrow> uet_pdc_pkt option"
  w_next :: nat
  w_sec :: sec_state
  w_rudi :: "nat \<Rightarrow> uet_rudi_out_pkt option"
  w_rudi_ht :: "nat list"
  w_rto_list :: "nat list"
  w_rudi_next_id :: u32
  w_tick :: nat
  w_log :: "pds_event list"

datatype uet_pds_psn_method_t = UET_PDS_PSN_METHOD_0RTT | UET_PDS_PSN_METHOD_1RTT

text \<open>The answer of SES to \<open>rx_req\<close>.  The last field of an answer lists the completions
  (\<open>msg_cmpl_ind\<close>) SES indicates before its upcall returns.\<close>

type_synonym ses_cmpl = "(uet_pds_mode_t \<times> u16) list"

record ses_reply =
  sr_rc :: int
  sr_next_hdr :: u8
  sr_hdr :: bytes
  sr_nack :: bool
  sr_gtd_del :: bool
  sr_cmpl :: ses_cmpl

record pds_ctx =
  c_uet :: uet_inst
  c_env :: sec_env
  pds_pdc_close_thresh :: int
  pds_pkt_drop_thresh :: int
  pds_new_pdc_time_ms :: int
  pds_close_req_time_ms :: int
  pds_psn_method :: uet_pds_psn_method_t
  o_time :: "nat \<Rightarrow> int"
  o_time_fails :: "nat \<Rightarrow> bool"
  o_now :: "nat \<Rightarrow> u64"
  o_rand :: "nat \<Rightarrow> nat"
  o_calloc :: "nat \<Rightarrow> bool"
  o_nic_tx :: "nat \<Rightarrow> int"
  o_nic_poll :: "nat \<Rightarrow> int"
  o_nic_rx :: "nat \<Rightarrow> int \<times> bytes \<times> nat"
  o_rx_req :: "nat \<Rightarrow> ses_reply"
  o_rx_rsp :: "nat \<Rightarrow> int \<times> ses_cmpl"
  o_pds_err :: "nat \<Rightarrow> ses_cmpl"

text \<open>The arguments of a transmit request of SES: the endpoint, the address handle, and the packet.\<close>

record uet_ep_p =
  ep_job_id :: u32
  ep_entropy :: u16
  ep_msg_ip_tos :: u8

record uet_av_entry =
  av_fa :: uet_fa
  av_is_ipv6 :: bool
  nh_mac_addr :: bytes

record tx_args =
  ta_handle :: "nat option"
  ta_ep :: uet_ep_p
  ta_av :: uet_av_entry
  ta_mode :: uet_pds_mode_t
  ta_flags :: u8
  ta_pds_info :: "(u32 \<times> u16) option"
  ta_msg_id :: u16
  ta_next_hdr :: u8
  ta_ses :: bytes
  ta_pkt :: bytes

section \<open>Primitive operations\<close>

definition tick :: "pds_world \<Rightarrow> pds_world" where
  "tick w = w\<lparr>w_tick := w_tick w + 1\<rparr>"

definition log_ev :: "pds_event \<Rightarrow> pds_world \<Rightarrow> pds_world" where
  "log_ev e w = w\<lparr>w_log := e # w_log w\<rparr>"

definition uet_gettime :: "pds_ctx \<Rightarrow> pds_world \<Rightarrow> int \<times> pds_world" where
  "uet_gettime cx w = (o_time cx (w_tick w), tick w)"

definition c_rand :: "pds_ctx \<Rightarrow> pds_world \<Rightarrow> nat \<times> pds_world" where
  "c_rand cx w = (o_rand cx (w_tick w), tick w)"

definition c_calloc :: "pds_ctx \<Rightarrow> pds_world \<Rightarrow> bool \<times> pds_world" where
  "c_calloc cx w = (o_calloc cx (w_tick w), tick w)"

definition upd_pdc :: "nat \<Rightarrow> (uet_pdc \<Rightarrow> uet_pdc) \<Rightarrow> pds_world \<Rightarrow> pds_world" where
  "upd_pdc p f w = w\<lparr>w_pdc := (w_pdc w)[p := f (w_pdc w ! p)]\<rparr>"

definition put_pkt :: "nat \<Rightarrow> uet_pdc_pkt \<Rightarrow> pds_world \<Rightarrow> pds_world" where
  "put_pkt a k w = w\<lparr>w_pkts := (w_pkts w)(a \<mapsto> k)\<rparr>"

text \<open>\<open>dlist_remove\<close> and \<open>HASH_DELETE\<close> unlink an element that is linked.\<close>

definition unlink :: "'a \<Rightarrow> 'a list \<Rightarrow> 'a list option" where
  "unlink x xs = (if x \<in> set xs then Some (remove1 x xs) else None)"

definition uet_pds_random_check :: "pds_ctx \<Rightarrow> int \<Rightarrow> pds_world \<Rightarrow> bool \<times> pds_world" where
  "uet_pds_random_check cx thresh w = (let (r, w) = c_rand cx w in (int (r mod 10000) < thresh, w))"

definition uet_pds_rand_start_psn :: "pds_ctx \<Rightarrow> pds_world \<Rightarrow> u32 \<times> pds_world" where
  "uet_pds_rand_start_psn cx w =
     (let (r1, w) = c_rand cx w; (r2, w) = c_rand cx w;
          psn = push_bit 16 (word_of_nat r1) XOR word_of_nat r2;
          psn = psn AND 0x7fffffff
      in (if psn < 0x10000 then psn + 0x10000 else psn, w))"

end
