(* ===== verification/PdsFrame.thy ===== *)
theory PdsFrame
  imports PdsState
begin

unbundle bit_operations_syntax

text \<open>
  The frames of \<open>src/uet_pds.c\<close>: \<open>uet_pds_sec_tx_pkt\<close> (CRC or security header and encryption,
  then the NIC) and the header construction of control packets, NACKs, requests, ACKs, closing
  ACKs and default responses.  A builder works on a zeroed or reused buffer and is \<^const>\<open>None\<close>
  when it would write or read outside of it.
\<close>

section \<open>Transmission\<close>

definition sec_now :: "pds_ctx \<Rightarrow> pds_world \<Rightarrow> u64 \<times> pds_world" where
  "sec_now cx w = (o_now cx (w_tick w), tick w)"

text \<open>The NIC, or the impairment shim when it is enabled, takes the frame.\<close>

definition nic_tx :: "pds_ctx \<Rightarrow> bytes \<Rightarrow> pds_world \<Rightarrow> int \<times> pds_world" where
  "nic_tx cx frame w = (o_nic_tx cx (w_tick w), log_ev (Ev_tx frame) (tick w))"

text \<open>The part of a descriptor \<open>uet_pds_sec_tx_pkt\<close> works on: the packet or the ACK.\<close>

record tx_slot =
  sl_buf :: bytes
  sl_pkt :: nat
  sl_len :: nat
  sl_pp :: uet_parsed_pkt
  sl_parsed :: bool

definition get_slot :: "uet_pdc_pkt \<Rightarrow> bool \<Rightarrow> tx_slot option" where
  "get_slot k tx_pkt =
     (if tx_pkt then do {
        b \<leftarrow> pkt_buf k;
        Some \<lparr>sl_buf = b, sl_pkt = pk_pkt k, sl_len = pk_pkt_len k, sl_pp = pkt_pp k, sl_parsed = pkt_parsed k\<rparr> }
      else do {
        b \<leftarrow> ack_buf k;
        a \<leftarrow> pk_ack k;
        Some \<lparr>sl_buf = b, sl_pkt = a, sl_len = pk_ack_len k, sl_pp = ack_pp k, sl_parsed = ack_parsed k\<rparr> })"

definition put_slot :: "uet_pdc_pkt \<Rightarrow> bool \<Rightarrow> tx_slot \<Rightarrow> uet_pdc_pkt" where
  "put_slot k tx_pkt s =
     (if tx_pkt then k\<lparr>pkt_buf := Some (sl_buf s), pk_pkt := sl_pkt s, pk_pkt_len := sl_len s,
        pkt_pp := sl_pp s, pkt_parsed := sl_parsed s\<rparr>
      else k\<lparr>ack_buf := Some (sl_buf s), pk_ack := Some (sl_pkt s), pk_ack_len := sl_len s,
        ack_pp := sl_pp s, ack_parsed := sl_parsed s\<rparr>)"

definition slot_parse :: "uet_inst \<Rightarrow> tx_slot \<Rightarrow> (int \<times> tx_slot) option" where
  "slot_parse uet s =
     (if sl_parsed s then Some (0, s)
      else do {
        (rc, pp) \<leftarrow> uet_parse_pkt uet (drop (sl_pkt s) (sl_buf s)) (sl_len s);
        Some (rc, s\<lparr>sl_pp := pp, sl_parsed := rc = 0\<rparr>) })"

text \<open>The end of both paths: the transmit time, the random drop, the NIC.\<close>

definition pds_xmit :: "pds_ctx \<Rightarrow> uet_pdc_pkt \<Rightarrow> bool \<Rightarrow> bytes \<Rightarrow> pds_world \<Rightarrow> int \<times> uet_pdc_pkt \<times> pds_world" where
  "pds_xmit cx k tx_pkt frame w =
     (let (k, w) = (if tx_pkt then let (t, w) = uet_gettime cx w in (k\<lparr>tx_time := t\<rparr>, w) else (k, w));
          (drp, w) = (if pds_pkt_drop_thresh cx \<noteq> 0 then uet_pds_random_check cx (pds_pkt_drop_thresh cx) w else (False, w))
      in if drp then (0, k, w) else let (rc, w) = nic_tx cx frame w in (rc, k, w))"

text \<open>The CRC covers the packet from the source address on and is appended to it.\<close>

definition append_crc :: "tx_slot \<Rightarrow> (tx_slot \<times> bytes) option" where
  "append_crc s = do {
     let crc_start = pp_ip (sl_pp s) + (if pp_is_ipv6 (sl_pp s) then 8 else 12);
     if unat (pp_pkt_len (sl_pp s)) < crc_start then None
     else do {
       d \<leftarrow> rdn (sl_buf s) (sl_pkt s + crc_start) (unat (pp_pkt_len (sl_pp s)) - crc_start);
       b \<leftarrow> wr (sl_buf s) (sl_pkt s + sl_len s) (rev (be32 (crc32c d)));
       frame \<leftarrow> rdn b (sl_pkt s) (sl_len s + CRC_LEN);
       Some (s\<lparr>sl_buf := b\<rparr>, frame) } }"

definition sec_tx_clear :: "pds_ctx \<Rightarrow> uet_pdc_pkt \<Rightarrow> bool \<Rightarrow> tx_slot \<Rightarrow> pds_world
    \<Rightarrow> (int \<times> uet_pdc_pkt \<times> pds_world) option" where
  "sec_tx_clear cx k tx_pkt s w = do {
     (rc, s) \<leftarrow> slot_parse (c_uet cx) s;
     if rc \<noteq> 0 then Some (rc, put_slot k tx_pkt s, w)
     else do {
       (s, frame) \<leftarrow> append_crc s;
       Some (pds_xmit cx (put_slot k tx_pkt s) tx_pkt frame w) } }"

text \<open>The security header of a packet: refreshed for a retransmission, built otherwise.\<close>

definition sec_refresh :: "pds_ctx \<Rightarrow> bool \<Rightarrow> tx_slot \<Rightarrow> pds_world \<Rightarrow> (int \<times> tx_slot \<times> pds_world) option" where
  "sec_refresh cx v6 s w = do {
     let (now1, w) = sec_now cx w;
     let (now2, w) = sec_now cx w;
     (rc, st, b) \<leftarrow> uet_sec_update_hdr_tsc now1 now2 (w_sec w) (sl_buf s) (sl_pkt s) v6;
     Some (rc, s\<lparr>sl_buf := b\<rparr>, w\<lparr>w_sec := st\<rparr>) }"

definition sec_build :: "pds_ctx \<Rightarrow> u32 \<Rightarrow> u32 \<Rightarrow> bool \<Rightarrow> tx_slot \<Rightarrow> pds_world \<Rightarrow> (int \<times> tx_slot \<times> pds_world) option" where
  "sec_build cx sdi ssi v6 s w = do {
     let (now1, w) = sec_now cx w;
     let (now2, w) = sec_now cx w;
     r \<leftarrow> uet_sec_build_hdr (c_env cx) now1 now2 (w_sec w) sdi ssi (sl_buf s) (sl_pkt s) (int (sl_len s)) v6;
     let w = w\<lparr>w_sec := sh_state r\<rparr>;
     Some (if sh_rc r \<noteq> 0 then (sh_rc r, s\<lparr>sl_buf := sh_buf r\<rparr>, w)
           else (0, s\<lparr>sl_buf := sh_buf r, sl_pkt := sh_pkt r, sl_len := nat (sh_len r) + UET_SEC_TAG_LEN\<rparr>, w)) }"

definition sec_encrypt :: "pds_ctx \<Rightarrow> bool \<Rightarrow> tx_slot \<Rightarrow> pds_world \<Rightarrow> (int \<times> tx_slot \<times> bytes \<times> pds_world) option" where
  "sec_encrypt cx v6 s w = do {
     let (now, w) = sec_now cx w;
     r \<leftarrow> uet_sec_enc_pkt (c_env cx) now (w_sec w) (sl_buf s) (sl_pkt s) (sl_len s) v6;
     let w = w\<lparr>w_sec := se_state r\<rparr>;
     let s = s\<lparr>sl_buf := se_buf r\<rparr>;
     if se_rc r \<noteq> 0 then Some (se_rc r, s, [], w)
     else do {
       frame \<leftarrow> rdn (sl_buf s) (se_pkt r) (nat (se_len r));
       Some (0, s, frame, w) } }"

definition fix_ip_len :: "uet_inst \<Rightarrow> tx_slot \<Rightarrow> tx_slot option" where
  "fix_ip_len uet s = do {
     let ip = sl_pkt s + pp_ip (sl_pp s);
     b \<leftarrow> (if pp_is_ipv6 (sl_pp s)
           then uet_update_ipv6_pl (sl_buf s) ip (word_of_int (int (sl_len s) - int (l2_hdr_size uet) - int IPV6HDR_LEN))
           else uet_update_ipv4_tl (sl_buf s) ip (word_of_int (int (sl_len s) - int (l2_hdr_size uet))));
     Some (s\<lparr>sl_buf := b\<rparr>) }"

definition sec_tx_secure :: "pds_ctx \<Rightarrow> uet_pdc \<Rightarrow> uet_pdc_pkt \<Rightarrow> bool \<Rightarrow> bool \<Rightarrow> tx_slot \<Rightarrow> pds_world
    \<Rightarrow> (int \<times> uet_pdc_pkt \<times> pds_world) option" where
  "sec_tx_secure cx pdc k tx_pkt is_rtx s w = do {
     (rc, s, w) \<leftarrow> (if is_rtx then sec_refresh cx (pdc_ipv6 pdc) s w
                   else sec_build cx (pdc_sdi pdc) (pdc_ssi pdc) (pdc_ipv6 pdc) s w);
     if rc \<noteq> 0 then Some (rc, put_slot k tx_pkt s, w)
     else do {
       (rc, s) \<leftarrow> slot_parse (c_uet cx) s;
       if rc \<noteq> 0 then Some (rc, put_slot k tx_pkt s, w)
       else do {
         s \<leftarrow> (if is_rtx then Some s else fix_ip_len (c_uet cx) s);
         (rc, s, frame, w) \<leftarrow> sec_encrypt cx (pdc_ipv6 pdc) s w;
         if rc \<noteq> 0 then Some (rc, put_slot k tx_pkt s, w)
         else Some (pds_xmit cx (put_slot k tx_pkt s) tx_pkt frame w) } } }"

definition uet_pds_sec_tx_pkt :: "pds_ctx \<Rightarrow> uet_pdc \<Rightarrow> uet_pdc_pkt \<Rightarrow> bool \<Rightarrow> bool \<Rightarrow> pds_world
    \<Rightarrow> (int \<times> uet_pdc_pkt \<times> pds_world) option" where
  "uet_pds_sec_tx_pkt cx pdc k tx_pkt is_rtx w = do {
     s \<leftarrow> get_slot k tx_pkt;
     if sec_enabled pdc then sec_tx_secure cx pdc k tx_pkt is_rtx s w else sec_tx_clear cx k tx_pkt s w }"

section \<open>Header construction\<close>

definition ip_hdr_size :: "bool \<Rightarrow> nat" where
  "ip_hdr_size v6 = (if v6 then IPV6HDR_LEN else IPHDR_LEN)"

text \<open>The offset of the PDS header in a frame, behind Ethernet, IP and entropy.\<close>

definition pds_off :: "bool \<Rightarrow> nat" where
  "pds_off v6 = ETHHDR_LEN + ip_hdr_size v6 + ENTROPY_LEN"

text \<open>An address of a PDC in network byte order.\<close>

definition fa_net :: "bool \<Rightarrow> uet_fa \<Rightarrow> bytes" where
  "fa_net v6 fa = (if v6 then take 16 fa else rev (take 4 fa))"

definition build_ip :: "uet_inst \<Rightarrow> bool \<Rightarrow> bytes \<Rightarrow> nat \<Rightarrow> bytes \<Rightarrow> bytes \<Rightarrow> nat \<Rightarrow> u8 \<Rightarrow> bool \<Rightarrow> bytes option" where
  "build_ip uet v6 b pkt dip sip len tos crc_en =
     (if v6 then uet_build_ipv6_hdr (uet_ipproto uet) b (pkt + ETHHDR_LEN) dip sip
        (word_of_int (int len - int (l2_hdr_size uet) - int IPV6HDR_LEN)) tos crc_en
      else uet_build_ipv4_hdr (uet_ipproto uet) b (pkt + ETHHDR_LEN) dip sip
        (word_of_int (int len - int (l2_hdr_size uet))) tos crc_en)"

text \<open>The source (0) or destination (1) IP address of a received packet.\<close>

definition pp_ipaddr :: "bool \<Rightarrow> uet_parsed_pkt \<Rightarrow> nat \<Rightarrow> bytes option" where
  "pp_ipaddr v6 pp i =
     (if v6 then rdn (pp_data pp) (pp_ip pp + 8 + 16 * i) 16 else rdn (pp_data pp) (pp_ip pp + 12 + 4 * i) 4)"

definition pp_h_dest :: "uet_parsed_pkt \<Rightarrow> bytes option" where
  "pp_h_dest pp = rdn (pp_data pp) 0 6"

definition pp_h_source :: "uet_parsed_pkt \<Rightarrow> bytes option" where
  "pp_h_source pp = rdn (pp_data pp) 6 6"

definition ctrl_frame :: "uet_inst \<Rightarrow> uet_pdc \<Rightarrow> bytes \<Rightarrow> nat \<Rightarrow> u8 \<Rightarrow> u8 \<Rightarrow> u32 \<Rightarrow> u32 \<Rightarrow> bytes option" where
  "ctrl_frame uet pdc b pkt ctrl_type flags cp_psn payload = do {
     let v6 = pdc_ipv6 pdc;
     let h = pkt + pds_off v6;
     b \<leftarrow> uet_build_eth_hdr b pkt (dst_mac_addr pdc) (src_mac_addr pdc) v6;
     b \<leftarrow> wr b (h - ENTROPY_LEN) (be16 0x4242);
     b \<leftarrow> wr b h (be16 (prlg UET_PDS_TYPE_CTRL ctrl_type flags) @ [0, 0] @ be32 cp_psn @ be16 (pdc_id pdc)
            @ be16 (dpdcid pdc) @ be32 payload);
     build_ip uet v6 b pkt (fa_net v6 (dst_addr pdc)) (fa_net v6 (src_addr pdc)) (pds_off v6 + PDS_CTRL_LEN)
       (ack_ip_tos uet) (\<not> sec_enabled pdc) }"

definition nack_frame :: "uet_inst \<Rightarrow> uet_pdc \<Rightarrow> bytes \<Rightarrow> nat \<Rightarrow> uet_parsed_pkt \<Rightarrow> u8 \<Rightarrow> u32 \<Rightarrow> bytes option" where
  "nack_frame uet pdc b pkt orig_pp nack_code payload = do {
     let v6 = pdc_ipv6 pdc;
     let h = pkt + pds_off v6;
     smac \<leftarrow> pp_h_source orig_pp;
     dmac \<leftarrow> pp_h_dest orig_pp;
     b \<leftarrow> uet_build_eth_hdr b pkt smac dmac (pp_is_ipv6 orig_pp);
     b \<leftarrow> wr b (h - ENTROPY_LEN) (be16 (entropy_val orig_pp));
     let flags = (if pds_flags orig_pp AND UET_PDS_REQ_FLAGS_RETX \<noteq> 0 then UET_PDS_NACK_FLAGS_RETX else 0);
     b \<leftarrow> wr b h (be16 (prlg UET_PDS_TYPE_NACK UET_HDR_NONE flags) @ [nack_code, 0] @ be32 (pds_psn orig_pp)
            @ be16 (pdc_id pdc) @ be16 (pds_spdcid orig_pp) @ be32 payload);
     saddr \<leftarrow> pp_ipaddr v6 orig_pp 0;
     daddr \<leftarrow> pp_ipaddr v6 orig_pp 1;
     build_ip uet v6 b pkt saddr daddr (pds_off v6 + PDS_NACK_LEN) (ack_ip_tos uet) (\<not> sec_enabled pdc) }"

definition req_frame :: "uet_inst \<Rightarrow> uet_pdc \<Rightarrow> bytes \<Rightarrow> nat \<Rightarrow> u8 \<Rightarrow> tx_args \<Rightarrow> bytes option" where
  "req_frame uet pdc b pkt pds_pkt_type ta = do {
     let v6 = pdc_ipv6 pdc;
     let h = pkt + pds_off v6;
     let syn = (pdc_state pdc = PDC_STATE_SYN);
     b \<leftarrow> uet_build_eth_hdr b pkt (dst_mac_addr pdc) (src_mac_addr pdc) v6;
     b \<leftarrow> wr b (h - ENTROPY_LEN) (be16 (ep_entropy (ta_ep ta)));
     let flags = (if syn then UET_PDS_REQ_FLAGS_SYN else 0)
       OR (if per_pkt_ack_enabled uet \<or> ta_flags ta AND UET_PDS_FLAG_EOM \<noteq> 0 then UET_PDS_REQ_FLAGS_AR else 0);
     b \<leftarrow> wr b h (be16 (prlg pds_pkt_type (ta_next_hdr ta) flags)
            @ be16 (psn_2c_offset (next_psn pdc) (tx_bm_base_psn pdc - 1)) @ be32 (next_psn pdc) @ be16 (pdc_id pdc)
            @ be16 (if syn then syn_offset pdc AND 0x0fff else dpdcid pdc));
     b \<leftarrow> wr b (h + PDS_REQ_LEN) (ta_ses ta);
     b \<leftarrow> wr b (h + PDS_REQ_LEN + length (ta_ses ta)) (ta_pkt ta);
     build_ip uet v6 b pkt (fa_net v6 (dst_addr pdc)) (fa_net v6 (src_addr pdc))
       (pds_off v6 + PDS_REQ_LEN + length (ta_ses ta) + length (ta_pkt ta)) (ep_msg_ip_tos (ta_ep ta)) (\<not> sec_enabled pdc) }"

section \<open>Acknowledgements\<close>

definition uet_pds_update_sack_base :: "uet_pdc \<Rightarrow> uet_pdc_pkt \<Rightarrow> bool \<Rightarrow> uet_pdc" where
  "uet_pds_update_sack_base pdc k is_sack_trigger =
     (if is_sack_trigger then
        (if UET_PDS_PSN_AFTER (max_rcvd_psn pdc) (sack_base_track pdc + 63)
         then pdc\<lparr>sack_base_track := sack_base_track pdc + 64\<rparr> else pdc)
      else if UET_PDS_PSN_AFTER (cack_psn pdc) (sack_base_track pdc) then pdc\<lparr>sack_base_track := cack_psn pdc\<rparr>
      else if UET_PDS_PSN_AFTER (pds_psn (pkt_pp k)) (cack_psn pdc)
          \<and> UET_PDS_PSN_AFTER (sack_base_track pdc) (pds_psn (pkt_pp k))
        then pdc\<lparr>sack_base_track := pds_psn (pkt_pp k)\<rparr> else pdc)"

text \<open>The ACK_CC extension behind the ACK header at \<open>h\<close>.\<close>

definition uet_pds_build_ack_cc_ext :: "uet_inst \<Rightarrow> uet_pdc \<Rightarrow> uet_pdc_pkt \<Rightarrow> bytes \<Rightarrow> nat \<Rightarrow> u8
    \<Rightarrow> (bytes \<times> uet_pdc) option" where
  "uet_pds_build_ack_cc_ext uet pdc k b h atype = do {
     let (sack_base_psn, pdc) = (if per_pkt_ack_enabled uet then (pds_psn (pkt_pp k), pdc)
        else (sack_base_track pdc, uet_pds_update_sack_base pdc k True));
     let bm_start_idx = UET_PDS_PSN_OFFSET sack_base_psn (rx_bm_base_psn pdc);
     bits \<leftarrow> bm_extract64 (rx_bm pdc) bm_start_idx;
     b \<leftarrow> wr b (h + PDS_ACK_LEN) ([0, 1] @ be16 (psn_2c_offset (cack_psn pdc) sack_base_psn) @ be64 bits @ be64 0);
     b \<leftarrow> (if atype = UET_PDS_TYPE_ACK_CCX then wr b (h + PDS_ACK_CC_LEN) (be64 0) else Some b);
     Some (b, pdc) }"

definition is_cc_ack :: "u8 \<Rightarrow> bool" where
  "is_cc_ack t \<longleftrightarrow> t = UET_PDS_TYPE_ACK_CC \<or> t = UET_PDS_TYPE_ACK_CCX"

text \<open>Ethernet, IP and entropy of a packet that answers the received packet \<open>k\<close>.\<close>

definition reply_l3 :: "uet_inst \<Rightarrow> uet_pdc \<Rightarrow> uet_pdc_pkt \<Rightarrow> bytes \<Rightarrow> nat \<Rightarrow> nat \<Rightarrow> bytes option" where
  "reply_l3 uet pdc k b pkt len = do {
     let v6 = pdc_ipv6 pdc;
     smac \<leftarrow> pp_h_source (pkt_pp k);
     dmac \<leftarrow> pp_h_dest (pkt_pp k);
     b \<leftarrow> uet_build_eth_hdr b pkt smac dmac v6;
     saddr \<leftarrow> pp_ipaddr v6 (pkt_pp k) 0;
     daddr \<leftarrow> pp_ipaddr v6 (pkt_pp k) 1;
     b \<leftarrow> build_ip uet v6 b pkt saddr daddr len (ack_ip_tos uet) (\<not> sec_enabled pdc);
     wr b (pkt + ETHHDR_LEN + ip_hdr_size v6) (be16 (entropy_val (pkt_pp k))) }"

definition ack_hdr_bytes :: "uet_pdc \<Rightarrow> uet_pdc_pkt \<Rightarrow> u8 \<Rightarrow> u8 \<Rightarrow> u8 \<Rightarrow> bytes" where
  "ack_hdr_bytes pdc k ty nxt flags = be16 (prlg ty nxt flags) @ be16 (psn_2c_offset (cack_psn pdc) (pds_psn (pkt_pp k)))
     @ be32 (cack_psn pdc) @ be16 (pdc_id pdc) @ be16 (dpdcid pdc)"

definition uet_pds_build_ack_pkt :: "uet_inst \<Rightarrow> uet_pdc \<Rightarrow> uet_pdc_pkt \<Rightarrow> u8 \<Rightarrow> bytes \<Rightarrow> nat
    \<Rightarrow> (uet_pdc_pkt \<times> uet_pdc) option" where
  "uet_pds_build_ack_pkt uet pdc k nxt ses_hdr pds_ack_hdr_len = do {
     b \<leftarrow> ack_buf k;
     pkt \<leftarrow> pk_ack k;
     let h = pkt + pds_off (pdc_ipv6 pdc);
     b \<leftarrow> reply_l3 uet pdc k b pkt (pk_ack_len k);
     let flags = (if needs_clear k then UET_PDS_ACK_FLAGS_REQ_CLR else 0);
     b \<leftarrow> wr b h (ack_hdr_bytes pdc k (ack_type uet) nxt flags);
     (b, pdc) \<leftarrow> (if is_cc_ack (ack_type uet) then uet_pds_build_ack_cc_ext uet pdc k b h (ack_type uet) else Some (b, pdc));
     b \<leftarrow> (if ses_hdr = [] then Some b else wr b (h + pds_ack_hdr_len) ses_hdr);
     Some (k\<lparr>ack_buf := Some b\<rparr>, pdc) }"

definition uet_pds_ack_hdr_len :: "uet_inst \<Rightarrow> nat" where
  "uet_pds_ack_hdr_len uet =
     (if ack_type uet = UET_PDS_TYPE_ACK_CC then PDS_ACK_CC_LEN
      else if ack_type uet = UET_PDS_TYPE_ACK_CCX then PDS_ACK_CCX_LEN else PDS_ACK_LEN)"

text \<open>The head space of a buffer whose packet may get a security header.\<close>

definition sec_headroom :: "uet_pdc \<Rightarrow> nat" where
  "sec_headroom pdc = (if sec_enabled pdc then UET_SEC_MAX_HDR_LEN else 0)"

text \<open>An ACK; \<open>ses_hdr\<close> is the SES response (empty for a plain ACK).  \<open>ack_data_len\<close> is a \<open>uint16_t\<close>.\<close>

definition uet_pds_tx_ack_pkt :: "pds_ctx \<Rightarrow> uet_pdc \<Rightarrow> uet_pdc_pkt \<Rightarrow> u8 \<Rightarrow> bytes \<Rightarrow> pds_world
    \<Rightarrow> (int \<times> uet_pdc_pkt \<times> uet_pdc \<times> pds_world) option" where
  "uet_pds_tx_ack_pkt cx pdc k nxt ses_hdr w = do {
     let hl = uet_pds_ack_hdr_len (c_uet cx);
     let n = pds_off (pdc_ipv6 pdc) + hl;
     let alen = (if nxt = UET_HDR_NONE then n
        else if nxt = UET_HDR_RSP then n + SES_RSP_LEN
        else n + SES_RSP_D_LEN + unat (word_of_int (int (length ses_hdr) - int SES_RSP_D_LEN) :: u16));
     (k, pdc) \<leftarrow> uet_pds_build_ack_pkt (c_uet cx) pdc (k\<lparr>pk_ack_len := alen, pk_ack := Some (sec_headroom pdc)\<rparr>) nxt ses_hdr hl;
     (rc, k, w) \<leftarrow> uet_pds_sec_tx_pkt cx pdc k False False w;
     Some (rc, k, pdc, w) }"

definition uet_pds_tx_close_ack_epsn :: "pds_ctx \<Rightarrow> uet_pdc \<Rightarrow> uet_pdc_pkt \<Rightarrow> u32 \<Rightarrow> pds_world
    \<Rightarrow> (int \<times> uet_pdc_pkt \<times> pds_world) option" where
  "uet_pds_tx_close_ack_epsn cx pdc k payload w = do {
     let pkt = sec_headroom pdc;
     let h = pkt + pds_off (pdc_ipv6 pdc);
     let k = k\<lparr>pk_ack_len := pds_off (pdc_ipv6 pdc) + PDS_ACK_EPSN_LEN, pk_ack := Some pkt\<rparr>;
     b \<leftarrow> ack_buf k;
     b \<leftarrow> reply_l3 (c_uet cx) pdc k b pkt (pk_ack_len k);
     b \<leftarrow> wr b h (ack_hdr_bytes pdc k UET_PDS_TYPE_ACK UET_HDR_NONE UET_PDS_ACK_FLAGS_EPSN @ be32 payload);
     uet_pds_sec_tx_pkt cx pdc (k\<lparr>ack_buf := Some b\<rparr>) False False w }"

text \<open>The default response is built in the ACK buffer of \<open>k\<close> and sent from a temporary descriptor.\<close>

definition uet_pds_tx_def_rsp_ack_pkt :: "pds_ctx \<Rightarrow> uet_pdc \<Rightarrow> uet_pdc_pkt \<Rightarrow> pds_world
    \<Rightarrow> (int \<times> uet_pdc_pkt \<times> uet_pdc \<times> pds_world) option" where
  "uet_pds_tx_def_rsp_ack_pkt cx pdc k w = do {
     let uet = c_uet cx;
     let hl = uet_pds_ack_hdr_len uet;
     let len = pds_off (pdc_ipv6 pdc) + hl + PDS_DEF_RSP_LEN;
     b \<leftarrow> ack_buf k;
     let pkt = sec_headroom pdc;
     let h = pkt + pds_off (pdc_ipv6 pdc);
     b \<leftarrow> reply_l3 uet pdc k (replicate (length b) 0) pkt len;
     b \<leftarrow> wr b h (ack_hdr_bytes pdc k (ack_type uet) UET_HDR_RSP 0);
     (b, pdc) \<leftarrow> (if is_cc_ack (ack_type uet) then uet_pds_build_ack_cc_ext uet pdc k b h (ack_type uet) else Some (b, pdc));
     b \<leftarrow> wr b (h + hl) ([UET_DEFAULT_RESPONSE, 0] @ be16 (ses_msg_id (pkt_pp k)));
     (rc, tmp, w) \<leftarrow> uet_pds_sec_tx_pkt cx pdc
        (pdc_pkt_zero\<lparr>ack_buf := Some b, pk_ack := Some pkt, pk_ack_len := len\<rparr>) False False w;
     Some (rc, k\<lparr>ack_buf := ack_buf tmp\<rparr>, pdc, w) }"

end
