(* ===== verification/PdsTx.thy ===== *)
theory PdsTx
  imports PdsFrame
begin

unbundle bit_operations_syntax

text \<open>
  The PDS manager and the transmit side of \<open>src/uet_pds.c\<close>: the pool of PDCs, packet
  descriptors, the message table, control packets, the closing handshake of the initiator and of
  the target, draining, NACKs, the assignment of PDCs, transmit requests of SES and the
  retransmission timer.  A PDC is named by its index in the pool.
\<close>

abbreviation (input) UET_PDS_ACK_BUF_LEN :: nat where "UET_PDS_ACK_BUF_LEN \<equiv> 332"

section \<open>Lists\<close>

text \<open>\<open>dlist_foreach_container_safe\<close>: the successor of the current element is read before the
  body runs.  The body may end the loop with a value.  The fuel bounds the number of
  iterations; running out of it is \<^const>\<open>None\<close>.\<close>

fun dnext :: "nat \<Rightarrow> nat list \<Rightarrow> nat option option" where
  "dnext a [] = None"
| "dnext a [x] = (if x = a then Some None else None)"
| "dnext a (x # y # xs) = (if x = a then Some (Some y) else dnext a (y # xs))"

fun foreach_safe :: "nat \<Rightarrow> ('s \<Rightarrow> nat list) \<Rightarrow> (nat \<Rightarrow> 's \<Rightarrow> ('r option \<times> 's) option)
    \<Rightarrow> nat option \<Rightarrow> 's \<Rightarrow> ('r option \<times> 's) option" where
  "foreach_safe fuel xs body None w = Some (None, w)"
| "foreach_safe 0 xs body (Some a) w = None"
| "foreach_safe (Suc fuel) xs body (Some a) w = do {
     tmp \<leftarrow> dnext a (xs w);
     (r, w) \<leftarrow> body a w;
     (case r of Some v \<Rightarrow> Some (Some v, w) | None \<Rightarrow> foreach_safe fuel xs body tmp w) }"

definition dfirst :: "nat list \<Rightarrow> nat option" where
  "dfirst xs = (case xs of [] \<Rightarrow> None | x # _ \<Rightarrow> Some x)"

section \<open>Contexts and packet descriptors\<close>

definition uet_init_pdc :: "uet_pdc \<Rightarrow> pdc_state_t \<Rightarrow> bool \<Rightarrow> uet_pdc" where
  "uet_init_pdc pdc st ini = pdc\<lparr>pdc_state := st, is_initiator := ini, dpdcid := 0, active_msg_id := 0,
     active_msg_id_valid := False, close_requested := False, close_started := False, close_cmd_psn := 0,
     close_req_time := 0, pending_time := 0, tx_pkt_list := [], src_mac_addr := replicate 6 0,
     dst_mac_addr := replicate 6 0, src_addr := fa_zero, dst_addr := fa_zero, syn_offset := 0, next_psn := 0,
     tx_bm := bm_clear (tx_bm pdc), tx_bm_base_psn := 0, max_cack_psn := 0, peer_mp_range := 128,
     mpr_update_cack_psn := 0, mpr_update_valid := False, rx_bm := bm_clear (rx_bm pdc), rx_bm_base_psn := 0\<rparr>"

text \<open>\<open>PDS_GO\<close> ends the process when the engine is not initialised.\<close>

definition PDS_GO :: "pds_world \<Rightarrow> unit option" where
  "PDS_GO w = (if w_ready w then Some () else None)"

definition uet_pdsm_alloc_pdc :: "pds_world \<Rightarrow> (nat option \<times> pds_world) option" where
  "uet_pdsm_alloc_pdc w = do {
     PDS_GO w;
     (case w_free w of
        [] \<Rightarrow> Some (None, w)
      | p # ps \<Rightarrow> Some (Some p, w\<lparr>w_free := ps, w_alloc := w_alloc w @ [p]\<rparr>)) }"

definition uet_pds_free_pdc_pkt :: "nat \<Rightarrow> pds_world \<Rightarrow> pds_world option" where
  "uet_pds_free_pdc_pkt a w = do {
     k \<leftarrow> w_pkts w a;
     Some (w\<lparr>w_pkts := (w_pkts w)(a := None)\<rparr>) }"

definition uet_pds_alloc_pdc_pkt :: "pds_ctx \<Rightarrow> nat \<Rightarrow> nat \<Rightarrow> pds_world \<Rightarrow> nat option \<times> pds_world" where
  "uet_pds_alloc_pdc_pkt cx pkt_buf_len ack_buf_len w =
     (let buf = (\<lambda>n. if n > 0 then Some (replicate n 0) else None);
          (ok, w) = c_calloc cx w in
      if \<not> ok then (None, w)
      else let (ok, w) = (if pkt_buf_len > 0 then c_calloc cx w else (True, w)) in
      if \<not> ok then (None, w)
      else let (ok, w) = (if ack_buf_len > 0 then c_calloc cx w else (True, w)) in
      if \<not> ok then (None, w)
      else (Some (w_next w), (put_pkt (w_next w) (pdc_pkt_zero\<lparr>pkt_buf := buf pkt_buf_len, ack_buf := buf ack_buf_len\<rparr>) w)
              \<lparr>w_next := w_next w + 1\<rparr>))"

text \<open>Freeing the packets a bitmap tracks; the loop visits the set bits.\<close>

definition free_bm_pkts :: "nat bitmap \<Rightarrow> pds_world \<Rightarrow> pds_world option" where
  "free_bm_pkts bm w = do {
     js \<leftarrow> bm_each (UET_DEFAULT_MP_RANGE + 1) bm 0;
     foldM (\<lambda>j w. do {
         (found, d) \<leftarrow> bm_get bm j None;
         (case d of None \<Rightarrow> Some w
          | Some a \<Rightarrow> if found then uet_pds_free_pdc_pkt a w else Some w) }) js w }"

definition uet_pdsm_free_pdc_pkts :: "nat \<Rightarrow> pds_world \<Rightarrow> pds_world option" where
  "uet_pdsm_free_pdc_pkts p w = do {
     w \<leftarrow> free_bm_pkts (tx_bm (w_pdc w ! p)) w;
     let w = upd_pdc p (\<lambda>pdc. pdc\<lparr>tx_bm := bm_clear (tx_bm pdc), tx_pkt_list := []\<rparr>) w;
     w \<leftarrow> free_bm_pkts (rx_bm (w_pdc w ! p)) w;
     Some (upd_pdc p (\<lambda>pdc. pdc\<lparr>rx_bm := bm_clear (rx_bm pdc)\<rparr>) w) }"

definition uet_pdsm_free_pdc :: "nat \<Rightarrow> pds_world \<Rightarrow> pds_world option" where
  "uet_pdsm_free_pdc p w = do {
     PDS_GO w;
     w \<leftarrow> (if is_initiator (w_pdc w ! p)
          then map_option (\<lambda>t. w\<lparr>w_ini_ht := t\<rparr>) (unlink p (w_ini_ht w))
          else map_option (\<lambda>t. w\<lparr>w_tgt_ht := t\<rparr>) (unlink p (w_tgt_ht w)));
     let w = upd_pdc p (\<lambda>pdc. pdc\<lparr>pdc_state := PDC_STATE_UNALLOC\<rparr>) w;
     w \<leftarrow> uet_pdsm_free_pdc_pkts p w;
     let w = upd_pdc p (\<lambda>pdc. pdc\<lparr>close_requested := False, close_started := False, close_cmd_psn := 0,
               close_req_time := 0, active_msg_id := 0, active_msg_id_valid := False\<rparr>) w;
     al \<leftarrow> unlink p (w_alloc w);
     Some (w\<lparr>w_alloc := al, w_free := w_free w @ [p]\<rparr>) }"

definition uet_pdsm_get_sdi :: "pds_ctx \<Rightarrow> uet_pdc \<Rightarrow> uet_pdc" where
  "uet_pdsm_get_sdi cx pdc = pdc\<lparr>sec_enabled := (env_sec_mode (c_env cx) \<noteq> None), pdc_sdi := 1,
     pdc_ssi := (case env_sec_ssi (c_env cx) of None \<Rightarrow> 0 | Some s \<Rightarrow> strtoul10 s)\<rparr>"

section \<open>The message table\<close>

definition uet_pdsm_map_msgid_pdc :: "pds_ctx \<Rightarrow> u16 \<Rightarrow> nat \<Rightarrow> pds_world \<Rightarrow> (int \<times> pds_world) option" where
  "uet_pdsm_map_msgid_pdc cx msg_id p w = do {
     PDS_GO w;
     let (ok, w) = c_calloc cx w;
     Some (if ok then (0, w\<lparr>w_msgid_ht := (msg_id, p) # w_msgid_ht w\<rparr>) else (- ENOMEM, w)) }"

fun del_first :: "'k \<Rightarrow> ('k \<times> 'v) list \<Rightarrow> ('k \<times> 'v) list" where
  "del_first k [] = []"
| "del_first k (x # xs) = (if fst x = k then xs else x # del_first k xs)"

definition uet_pdsm_unmap_msgid_pdc :: "u16 \<Rightarrow> pds_world \<Rightarrow> (int \<times> pds_world) option" where
  "uet_pdsm_unmap_msgid_pdc msg_id w = do {
     PDS_GO w;
     Some (if map_of (w_msgid_ht w) msg_id = None then (- ENOKEY, w)
           else (0, w\<lparr>w_msgid_ht := del_first msg_id (w_msgid_ht w)\<rparr>)) }"

definition uet_pdsm_get_msgid_pdc :: "u16 \<Rightarrow> pds_world \<Rightarrow> nat option option" where
  "uet_pdsm_get_msgid_pdc msg_id w = do {
     PDS_GO w;
     Some (map_of (w_msgid_ht w) msg_id) }"

section \<open>Control packets and closing\<close>

text \<open>The flags, the PSN and whether the packet is tracked; \<open>orig\<close> is the descriptor an ACK request
  asks about.\<close>

definition ctrl_params :: "pds_world \<Rightarrow> uet_pdc \<Rightarrow> u8 \<Rightarrow> nat option \<Rightarrow> (u8 \<times> u32 \<times> bool) option option" where
  "ctrl_params w pdc ctrl_type orig =
     (if ctrl_type = UET_PDS_CTRL_TYPE_CLOSE \<or> ctrl_type = UET_PDS_CTRL_TYPE_CLOSE_REQ
        then Some (Some (UET_PDS_CTRL_FLAGS_AR, next_psn pdc, True))
      else if ctrl_type = UET_PDS_CTRL_TYPE_ACK_REQ then
        (case orig of None \<Rightarrow> Some None | Some a \<Rightarrow> do { k \<leftarrow> w_pkts w a; Some (Some (0, pk_psn k, False)) })
      else if ctrl_type = UET_PDS_CTRL_TYPE_CLEAR then Some (Some (0, 0, False))
      else Some None)"

text \<open>Setting the bit of a PSN in the transmit window of \<open>p\<close>, refused when it is set already.\<close>

definition tx_track :: "nat \<Rightarrow> u32 \<Rightarrow> nat \<Rightarrow> pds_world \<Rightarrow> (bool \<times> pds_world) option" where
  "tx_track p psn a w = do {
     let pdc = w_pdc w ! p;
     let i = psn_idx psn (tx_bm_base_psn pdc);
     (found, d) \<leftarrow> bm_get (tx_bm pdc) i None;
     if found then Some (False, w)
     else do {
       (ok, bm) \<leftarrow> bm_set (tx_bm pdc) i (Some a);
       Some (ok, upd_pdc p (\<lambda>pdc. pdc\<lparr>tx_bm := bm\<rparr>) w) } }"

definition tx_untrack :: "nat \<Rightarrow> u32 \<Rightarrow> pds_world \<Rightarrow> pds_world option" where
  "tx_untrack p psn w = do {
     let pdc = w_pdc w ! p;
     bm \<leftarrow> bm_unset (tx_bm pdc) (psn_idx psn (tx_bm_base_psn pdc));
     Some (upd_pdc p (\<lambda>pdc. pdc\<lparr>tx_bm := bm\<rparr>) w) }"

definition pkt_buf_size :: "pds_ctx \<Rightarrow> uet_pdc \<Rightarrow> nat" where
  "pkt_buf_size cx pdc = max_pkt_size (c_uet cx) * (if sec_enabled pdc then 2 else 1)"

definition uet_pds_send_ctrl_pkt :: "pds_ctx \<Rightarrow> nat \<Rightarrow> u8 \<Rightarrow> u32 \<Rightarrow> nat option \<Rightarrow> pds_world
    \<Rightarrow> (int \<times> pds_world) option" where
  "uet_pds_send_ctrl_pkt cx p ctrl_type payload orig w =
     (let pdc = w_pdc w ! p; (ao, w) = uet_pds_alloc_pdc_pkt cx (pkt_buf_size cx pdc) 0 w in
      case ao of None \<Rightarrow> Some (- ENOMEM, w)
      | Some a \<Rightarrow> do {
          par \<leftarrow> ctrl_params w pdc ctrl_type orig;
          (case par of None \<Rightarrow> do { w \<leftarrow> uet_pds_free_pdc_pkt a w; Some (- EINVAL, w) }
           | Some (flags, cp_psn, need_track) \<Rightarrow>
             if need_track \<and> \<not> uet_pds_tx_psn_allowed pdc cp_psn
             then do { w \<leftarrow> uet_pds_free_pdc_pkt a w; Some (- EAGAIN, w) }
             else do {
               k \<leftarrow> w_pkts w a;
               b \<leftarrow> pkt_buf k;
               b \<leftarrow> ctrl_frame (c_uet cx) pdc b (sec_headroom pdc) ctrl_type flags cp_psn payload;
               let k = k\<lparr>pkt_buf := Some b, pk_pkt := sec_headroom pdc,
                   pk_pkt_len := pds_off (pdc_ipv6 pdc) + PDS_CTRL_LEN, pk_psn := cp_psn, pk_msg_id := 0,
                   tx_retry_cnt := 0, tx_pkt_handle := None, tx_pkt_acked := False, pk_flags := 0\<rparr>;
               let w = put_pkt a k w;
               (ok, w) \<leftarrow> (if need_track then tx_track p cp_psn a w else Some (True, w));
               if \<not> ok then do { w \<leftarrow> uet_pds_free_pdc_pkt a w; Some (- EIO, w) }
               else do {
                 (rc, k, w) \<leftarrow> uet_pds_sec_tx_pkt cx pdc k True False w;
                 let w = put_pkt a k w;
                 if rc \<noteq> 0 then do {
                   w \<leftarrow> (if need_track then tx_untrack p cp_psn w else Some w);
                   w \<leftarrow> uet_pds_free_pdc_pkt a w;
                   Some (rc, w) }
                 else if need_track then
                   Some (0, upd_pdc p (\<lambda>pdc. pdc\<lparr>next_psn := next_psn pdc + 1, tx_pkt_list := tx_pkt_list pdc @ [a]\<rparr>) w)
                 else do {
                   w \<leftarrow> uet_pds_free_pdc_pkt a w;
                   Some (0, w) } } }) })"

definition uet_pds_initiate_pdc_close :: "pds_ctx \<Rightarrow> nat \<Rightarrow> pds_world \<Rightarrow> (int \<times> pds_world) option" where
  "uet_pds_initiate_pdc_close cx p w =
     (let pdc = w_pdc w ! p in
      if close_requested pdc \<and> close_started pdc then Some (0, w)
      else if \<not> is_initiator pdc then Some (- EINVAL, w)
      else
        let w = upd_pdc p (\<lambda>pdc. pdc\<lparr>close_requested := True\<rparr>) w in
        if active_msg_id_valid pdc then Some (- EAGAIN, w)
        else if tx_pkt_list pdc \<noteq> [] then Some (- EAGAIN, w)
        else if pdc_state pdc = PDC_STATE_SYN then do { w \<leftarrow> uet_pdsm_free_pdc p w; Some (0, w) }
        else do {
          let close_psn = next_psn pdc;
          (rc, w) \<leftarrow> uet_pds_send_ctrl_pkt cx p UET_PDS_CTRL_TYPE_CLOSE 0 None w;
          if rc \<noteq> 0 then Some (rc, w)
          else Some (0, upd_pdc p (\<lambda>pdc. pdc\<lparr>close_started := True, close_cmd_psn := close_psn,
                          pdc_state := PDC_STATE_CLOSING\<rparr>) w) })"

definition uet_pds_target_pdc_close :: "pds_ctx \<Rightarrow> nat \<Rightarrow> pds_world \<Rightarrow> (int \<times> pds_world) option" where
  "uet_pds_target_pdc_close cx p w =
     (let pdc = w_pdc w ! p in
      if close_started pdc then Some (0, w)
      else if pdc_state pdc \<noteq> PDC_STATE_ESTABLISHED then Some (- EINVAL, w)
      else if tx_pkt_list pdc \<noteq> [] then Some (- EAGAIN, w)
      else do {
        (rc, w) \<leftarrow> uet_pds_send_ctrl_pkt cx p UET_PDS_CTRL_TYPE_CLOSE_REQ 0 None w;
        if rc \<noteq> 0 then Some (rc, w)
        else do {
          let (t, w) = uet_gettime cx w;
          Some (0, upd_pdc p (\<lambda>pdc. pdc\<lparr>close_started := True, close_req_time := t\<rparr>) w) } })"

definition uet_pds_msg_cmpl_ind :: "pds_ctx \<Rightarrow> uet_pds_mode_t \<Rightarrow> u16 \<Rightarrow> pds_world \<Rightarrow> (int \<times> pds_world) option" where
  "uet_pds_msg_cmpl_ind cx mode msg_id w =
     (if mode = UET_PDS_MODE_RUDI \<or> mode = UET_PDS_MODE_UUD then Some (0, w)
      else do {
        po \<leftarrow> uet_pdsm_get_msgid_pdc msg_id w;
        (case po of None \<Rightarrow> Some (- EINVAL, w)
         | Some p \<Rightarrow> do {
             let w = upd_pdc p (\<lambda>pdc. pdc\<lparr>active_msg_id := 0, active_msg_id_valid := False\<rparr>) w;
             (rc, w) \<leftarrow> uet_pdsm_unmap_msgid_pdc msg_id w;
             if rc \<noteq> 0 then Some (rc, w)
             else if close_requested (w_pdc w ! p) \<and> \<not> close_started (w_pdc w ! p) then do {
               (rc, w) \<leftarrow> uet_pds_initiate_pdc_close cx p w;
               Some (if rc \<noteq> 0 \<and> rc \<noteq> - EAGAIN then (rc, w) else (0, w)) }
             else Some (0, w) }) })"

section \<open>Upcalls\<close>

text \<open>During an upcall SES may indicate completions; it ignores their results.\<close>

definition ses_completions :: "pds_ctx \<Rightarrow> ses_cmpl \<Rightarrow> pds_world \<Rightarrow> pds_world option" where
  "ses_completions cx cs w = foldM (\<lambda>(mode, msg_id) w. map_option snd (uet_pds_msg_cmpl_ind cx mode msg_id w)) cs w"

definition up_pds_err :: "pds_ctx \<Rightarrow> nat \<Rightarrow> pds_world \<Rightarrow> pds_world option" where
  "up_pds_err cx h w = ses_completions cx (o_pds_err cx (w_tick w)) (log_ev (Ev_pds_err h) (tick w))"

definition up_rx_rsp :: "pds_ctx \<Rightarrow> nat option \<Rightarrow> uet_parsed_pkt option \<Rightarrow> pds_world \<Rightarrow> (int \<times> pds_world) option" where
  "up_rx_rsp cx h pp w = do {
     let (rc, cs) = o_rx_rsp cx (w_tick w);
     w \<leftarrow> ses_completions cx cs (log_ev (Ev_rx_rsp h pp) (tick w));
     Some (rc, w) }"

definition up_rx_req :: "pds_ctx \<Rightarrow> uet_parsed_pkt \<Rightarrow> pds_world \<Rightarrow> (ses_reply \<times> pds_world) option" where
  "up_rx_req cx pp w = do {
     let r = o_rx_req cx (w_tick w);
     w \<leftarrow> ses_completions cx (sr_cmpl r) (log_ev (Ev_rx_req pp (sr_rc r) (sr_nack r)) (tick w));
     Some (r, w) }"

section \<open>Draining and dropping\<close>

definition untrack_in_mpr :: "nat \<Rightarrow> u32 \<Rightarrow> pds_world \<Rightarrow> pds_world option" where
  "untrack_in_mpr p psn w =
     (if PSN_IN_MPR psn (tx_bm_base_psn (w_pdc w ! p)) then tx_untrack p psn w else Some w)"

definition tx_unlist :: "nat \<Rightarrow> nat \<Rightarrow> pds_world \<Rightarrow> pds_world option" where
  "tx_unlist p a w = do {
     l \<leftarrow> unlink a (tx_pkt_list (w_pdc w ! p));
     Some (upd_pdc p (\<lambda>pdc. pdc\<lparr>tx_pkt_list := l\<rparr>) w) }"

definition uet_pdsm_drain_tx_pkts :: "pds_ctx \<Rightarrow> nat \<Rightarrow> pds_world \<Rightarrow> pds_world option" where
  "uet_pdsm_drain_tx_pkts cx p w = do {
     let xs = tx_pkt_list (w_pdc w ! p);
     (r, w) \<leftarrow> foreach_safe (length xs) (\<lambda>w. tx_pkt_list (w_pdc w ! p)) (\<lambda>a w. do {
         k \<leftarrow> w_pkts w a;
         w \<leftarrow> untrack_in_mpr p (pk_psn k) w;
         w \<leftarrow> tx_unlist p a w;
         w \<leftarrow> (case tx_pkt_handle k of None \<Rightarrow> Some w | Some h \<Rightarrow> up_pds_err cx h w);
         w \<leftarrow> uet_pds_free_pdc_pkt a w;
         Some (None :: unit option, w) }) (dfirst xs) w;
     Some w }"

definition uet_pds_close_pdc_in_error :: "pds_ctx \<Rightarrow> nat \<Rightarrow> pds_world \<Rightarrow> pds_world option" where
  "uet_pds_close_pdc_in_error cx p w = do {
     let w = w\<lparr>pdc_close_in_err_cnt := pdc_close_in_err_cnt w + 1\<rparr>;
     w \<leftarrow> uet_pdsm_drain_tx_pkts cx p w;
     if close_started (w_pdc w ! p) then uet_pdsm_free_pdc p w
     else if is_initiator (w_pdc w ! p) then map_option snd (uet_pds_initiate_pdc_close cx p w)
     else map_option snd (uet_pds_target_pdc_close cx p w) }"

definition uet_pdsm_discard_pdc :: "pds_ctx \<Rightarrow> nat \<Rightarrow> pds_world \<Rightarrow> pds_world option" where
  "uet_pdsm_discard_pdc cx p w = do {
     w \<leftarrow> uet_pdsm_drain_tx_pkts cx p w;
     uet_pdsm_free_pdc p (w\<lparr>w_msgid_ht := filter (\<lambda>(m, q). q \<noteq> p) (w_msgid_ht w)\<rparr>) }"

end
