(* ===== verification/Rudi.thy ===== *)
theory Rudi
  imports PdsTx
begin

unbundle bit_operations_syntax

text \<open>
  The connectionless engines: RUDI (\<open>src/uet_pds_rudi.c\<close>), whose initiator keeps every request
  until its response arrives and retransmits it from a timer, and UUD (\<open>src/uet_pds_uud.c\<close>),
  which sends datagrams once.  The outstanding requests of RUDI are held in a table for the
  matching of responses and in a list ordered by transmit time.
\<close>

section \<open>RUDI\<close>

definition uet_pds_rudi_init :: "pds_world \<Rightarrow> pds_world" where
  "uet_pds_rudi_init w = w\<lparr>w_rudi_ht := [], w_rto_list := [], w_rudi_next_id := 1\<rparr>"

text \<open>Taking an outstanding request out of both structures and freeing it.\<close>

definition rudi_remove :: "nat \<Rightarrow> pds_world \<Rightarrow> pds_world option" where
  "rudi_remove a w = do {
     ht \<leftarrow> unlink a (w_rudi_ht w);
     l \<leftarrow> unlink a (w_rto_list w);
     rp \<leftarrow> w_rudi w a;
     Some (w\<lparr>w_rudi_ht := ht, w_rto_list := l, w_rudi := (w_rudi w)(a := None)\<rparr>) }"

definition uet_pds_rudi_finalize :: "pds_world \<Rightarrow> pds_world option" where
  "uet_pds_rudi_finalize w = foldM rudi_remove (rev (w_rudi_ht w)) w"

definition uet_pds_rudi_drop_tx_pkts :: "nat option \<Rightarrow> pds_world \<Rightarrow> (nat \<times> pds_world) option" where
  "uet_pds_rudi_drop_tx_pkts h w =
     (if h = None then Some (0, w)
      else foldM (\<lambda>a (n, w). do {
          rp \<leftarrow> w_rudi w a;
          if rp_handle rp \<noteq> h then Some (n, w)
          else map_option (Pair (n + 1)) (rudi_remove a w) }) (rev (w_rudi_ht w)) (0, w))"

definition uet_rudi_get_sec :: "pds_ctx \<Rightarrow> bool \<times> u32 \<times> u32" where
  "uet_rudi_get_sec cx = (env_sec_mode (c_env cx) \<noteq> None, 1,
     case env_sec_ssi (c_env cx) of None \<Rightarrow> 0 | Some s \<Rightarrow> strtoul10 s)"

definition rudi_slot :: "uet_rudi_out_pkt \<Rightarrow> tx_slot" where
  "rudi_slot rp = \<lparr>sl_buf = rp_pkt_buf rp, sl_pkt = rp_pkt rp, sl_len = rp_pkt_len rp, sl_pp = pp_zero, sl_parsed = False\<rparr>"

definition rudi_put :: "uet_rudi_out_pkt \<Rightarrow> tx_slot \<Rightarrow> uet_rudi_out_pkt" where
  "rudi_put rp s = rp\<lparr>rp_pkt_buf := sl_buf s, rp_pkt := sl_pkt s, rp_pkt_len := sl_len s\<rparr>"

definition rudi_xmit :: "pds_ctx \<Rightarrow> uet_rudi_out_pkt \<Rightarrow> bytes \<Rightarrow> pds_world \<Rightarrow> int \<times> uet_rudi_out_pkt \<times> pds_world" where
  "rudi_xmit cx rp frame w =
     (let (t, w) = uet_gettime cx w; (rc, w) = nic_tx cx frame w in (rc, rp\<lparr>rp_tx_time := t\<rparr>, w))"

text \<open>The security header of a request: refreshed, or built once with the IP length corrected.\<close>

definition rudi_sec_hdr :: "pds_ctx \<Rightarrow> uet_rudi_out_pkt \<Rightarrow> bool \<Rightarrow> pds_world
    \<Rightarrow> (int \<times> uet_rudi_out_pkt \<times> pds_world) option" where
  "rudi_sec_hdr cx rp is_rtx w =
     (if is_rtx then do {
        (rc, s, w) \<leftarrow> sec_refresh cx (rp_is_ipv6 rp) (rudi_slot rp) w;
        Some (rc, rudi_put rp s, w) }
      else if rp_sec_hdr_built rp then Some (0, rp, w)
      else do {
        (rc, s, w) \<leftarrow> sec_build cx (rp_sdi rp) (rp_ssi rp) (rp_is_ipv6 rp) (rudi_slot rp) w;
        if rc \<noteq> 0 then Some (rc, rudi_put rp s, w)
        else do {
          let rp = (rudi_put rp s)\<lparr>rp_sec_hdr_built := True\<rparr>;
          (rc, s) \<leftarrow> slot_parse (c_uet cx) s;
          if rc \<noteq> 0 then Some (rc, rp, w)
          else do {
            s \<leftarrow> fix_ip_len (c_uet cx) s;
            Some (0, rudi_put rp s, w) } } })"

definition uet_rudi_send :: "pds_ctx \<Rightarrow> uet_rudi_out_pkt \<Rightarrow> bool \<Rightarrow> pds_world
    \<Rightarrow> (int \<times> uet_rudi_out_pkt \<times> pds_world) option" where
  "uet_rudi_send cx rp is_rtx w =
     (if \<not> rp_sec_enabled rp then do {
        (rc, s) \<leftarrow> slot_parse (c_uet cx) (rudi_slot rp);
        if rc \<noteq> 0 then Some (rc, rp, w)
        else do {
          (s, frame) \<leftarrow> append_crc s;
          Some (rudi_xmit cx (rudi_put rp s) frame w) } }
      else do {
        (rc, rp, w) \<leftarrow> rudi_sec_hdr cx rp is_rtx w;
        if rc \<noteq> 0 then Some (rc, rp, w)
        else do {
          (rc, s, frame, w) \<leftarrow> sec_encrypt cx (rp_is_ipv6 rp) (rudi_slot rp) w;
          if rc \<noteq> 0 then Some (rc, rudi_put rp s, w)
          else Some (rudi_xmit cx (rudi_put rp s) frame w) } })"

definition rudi_zero :: uet_rudi_out_pkt where
  "rudi_zero = \<lparr>rp_pkt_id = 0, rp_handle = None, rp_msg_id = 0, rp_pkt_buf = [], rp_pkt = 0, rp_pkt_len = 0,
     rp_sec_enabled = False, rp_sdi = 0, rp_ssi = 0, rp_is_ipv6 = False, rp_sec_hdr_built = False,
     rp_tx_retry_cnt = 0, rp_tx_time = 0\<rparr>"

text \<open>A frame with the PDS header \<open>hdr\<close> (its prologue apart), the SES header and the payload.\<close>

definition dgram_frame :: "uet_inst \<Rightarrow> u8 \<Rightarrow> u16 \<Rightarrow> bytes \<Rightarrow> uet_fa \<Rightarrow> bool \<Rightarrow> bool \<Rightarrow> u8 \<Rightarrow> u8 \<Rightarrow> bytes \<Rightarrow> bytes
    \<Rightarrow> bytes \<Rightarrow> bytes \<Rightarrow> (bytes \<times> nat \<times> nat) option" where
  "dgram_frame uet tos entropy dst_mac dst_fa v6 sec ty nxt hdr ses payload b = do {
     let pkt = (if sec then UET_SEC_MAX_HDR_LEN else 0);
     let h = pkt + pds_off v6;
     let len = pds_off v6 + 2 + length hdr + length ses + length payload;
     b \<leftarrow> uet_build_eth_hdr b pkt dst_mac (nic_mac_addr uet) v6;
     b \<leftarrow> wr b (h - ENTROPY_LEN) (be16 entropy @ [0, 0]);
     b \<leftarrow> wr b h (be16 (prlg ty nxt 0) @ hdr);
     b \<leftarrow> (if ses = [] then Some b else wr b (h + 2 + length hdr) ses);
     b \<leftarrow> (if payload = [] then Some b else wr b (h + 2 + length hdr + length ses) payload);
     b \<leftarrow> build_ip uet v6 b pkt (fa_net v6 dst_fa) (if v6 then nic_ipv6_addr uet else be32 (nic_ipv4_addr uet))
            len tos (\<not> sec);
     Some (b, pkt, len) }"

definition uet_rudi_build_frame :: "pds_ctx \<Rightarrow> u8 \<Rightarrow> u16 \<Rightarrow> bytes \<Rightarrow> uet_fa \<Rightarrow> bool \<Rightarrow> bool \<Rightarrow> u8 \<Rightarrow> u8 \<Rightarrow> u32
    \<Rightarrow> bytes \<Rightarrow> bytes \<Rightarrow> uet_rudi_out_pkt \<Rightarrow> pds_world \<Rightarrow> (int \<times> uet_rudi_out_pkt \<times> pds_world) option" where
  "uet_rudi_build_frame cx tos entropy dst_mac dst_fa v6 sec ty nxt pkt_id ses payload rp w = do {
     let (ok, w) = c_calloc cx w;
     if \<not> ok then Some (- ENOMEM, rp, w)
     else do {
       let b = replicate (max_pkt_size (c_uet cx) * (if sec then 2 else 1)) 0;
       (b, pkt, len) \<leftarrow> dgram_frame (c_uet cx) tos entropy dst_mac dst_fa v6 sec ty nxt ([0, 0] @ be32 pkt_id) ses payload b;
       Some (0, rp\<lparr>rp_pkt_buf := b, rp_pkt := pkt, rp_pkt_len := len\<rparr>, w) } }"

abbreviation (input) ENOSYS :: int where "ENOSYS \<equiv> 38"

definition uet_pds_rudi_tx_pkt :: "pds_ctx \<Rightarrow> tx_args \<Rightarrow> pds_world \<Rightarrow> (int \<times> pds_world) option" where
  "uet_pds_rudi_tx_pkt cx ta w =
     (if ta_pds_info ta \<noteq> None then Some (- ENOSYS, w)
      else do {
        let (sec, sdi, ssi) = uet_rudi_get_sec cx;
        let v6 = av_is_ipv6 (ta_av ta);
        let (ok, w) = c_calloc cx w;
        if \<not> ok then Some (- ENOMEM, w)
        else do {
          let pkt_id = w_rudi_next_id w;
          let w = w\<lparr>w_rudi_next_id := pkt_id + 1\<rparr>;
          (rc, rp, w) \<leftarrow> uet_rudi_build_frame cx (ep_msg_ip_tos (ta_ep ta)) (ep_entropy (ta_ep ta)) (nh_mac_addr (ta_av ta))
             (av_fa (ta_av ta)) v6 sec UET_PDS_TYPE_RUDI_REQ (ta_next_hdr ta) pkt_id (ta_ses ta) (ta_pkt ta) rudi_zero w;
          if rc \<noteq> 0 then Some (rc, w)
          else do {
            (rc, rp, w) \<leftarrow> uet_rudi_send cx (rp\<lparr>rp_pkt_id := pkt_id, rp_handle := ta_handle ta, rp_msg_id := ta_msg_id ta,
                 rp_sec_enabled := sec, rp_sdi := sdi, rp_ssi := ssi, rp_is_ipv6 := v6, rp_tx_retry_cnt := 0\<rparr>) False w;
            if rc \<noteq> 0 then Some (rc, w)
            else Some (0, w\<lparr>w_rudi := (w_rudi w)(w_next w \<mapsto> rp), w_next := w_next w + 1,
                            w_rudi_ht := w_next w # w_rudi_ht w, w_rto_list := w_rto_list w @ [w_next w]\<rparr>) } } })"

text \<open>The IP address a response goes to, as a fabric address.\<close>

definition pp_src_fa :: "uet_parsed_pkt \<Rightarrow> uet_fa option" where
  "pp_src_fa pp = do {
     a \<leftarrow> pp_ipaddr (pp_is_ipv6 pp) pp 0;
     Some (if pp_is_ipv6 pp then a else fa_v4 (be_val a)) }"

definition uet_rudi_rx_req :: "pds_ctx \<Rightarrow> uet_parsed_pkt \<Rightarrow> pds_world \<Rightarrow> (int \<times> pds_world) option" where
  "uet_rudi_rx_req cx pp w = do {
     let (ok, w) = c_calloc cx w;
     if \<not> ok then Some (- ENOMEM, w)
     else do {
       (r, w) \<leftarrow> up_rx_req cx pp w;
       if sr_rc r \<noteq> 0 then Some (sr_rc r, w)
       else if sr_nack r then Some (0, w)
       else do {
         let (sec, sdi, ssi) = uet_rudi_get_sec cx;
         dst_mac \<leftarrow> pp_h_source pp;
         dst_fa \<leftarrow> pp_src_fa pp;
         (rc, rp, w) \<leftarrow> uet_rudi_build_frame cx (default_msg_ip_tos (c_uet cx)) (entropy_val pp) dst_mac dst_fa (pp_is_ipv6 pp)
            sec UET_PDS_TYPE_RUDI_RESP (sr_next_hdr r) (pds_rudi_pkt_id pp) (sr_hdr r) [] rudi_zero w;
         if rc \<noteq> 0 then Some (rc, w)
         else do {
           (rc, rp, w) \<leftarrow> uet_rudi_send cx (rp\<lparr>rp_sec_enabled := sec, rp_sdi := sdi, rp_ssi := ssi,
                rp_is_ipv6 := pp_is_ipv6 pp\<rparr>) False w;
           Some (rc, w) } } } }"

definition rudi_find :: "u32 \<Rightarrow> pds_world \<Rightarrow> nat option" where
  "rudi_find pkt_id w = find (\<lambda>a. map_option rp_pkt_id (w_rudi w a) = Some pkt_id) (w_rudi_ht w)"

definition uet_rudi_rx_rsp :: "pds_ctx \<Rightarrow> uet_parsed_pkt \<Rightarrow> pds_world \<Rightarrow> (int \<times> pds_world) option" where
  "uet_rudi_rx_rsp cx pp w =
     (case rudi_find (pds_rudi_pkt_id pp) w of None \<Rightarrow> Some (0, w)
      | Some a \<Rightarrow> do {
          rp \<leftarrow> w_rudi w a;
          (rc, w) \<leftarrow> up_rx_rsp cx (rp_handle rp) (Some pp) w;
          w \<leftarrow> rudi_remove a w;
          Some (0, w) })"

definition uet_pds_rudi_rx :: "pds_ctx \<Rightarrow> uet_parsed_pkt \<Rightarrow> pds_world \<Rightarrow> (int \<times> pds_world) option" where
  "uet_pds_rudi_rx cx pp w =
     (if pds_type pp = UET_PDS_TYPE_RUDI_REQ then uet_rudi_rx_req cx pp w else uet_rudi_rx_rsp cx pp w)"

text \<open>One turn of the timer loop; a value ends it.\<close>

definition rudi_rto_step :: "pds_ctx \<Rightarrow> int \<Rightarrow> nat \<Rightarrow> pds_world \<Rightarrow> (int option \<times> pds_world) option" where
  "rudi_rto_step cx now a w = do {
     rp \<leftarrow> w_rudi w a;
     if now - rp_tx_time rp < tx_timeout (c_uet cx) then Some (Some 0, w)
     else if rp_tx_retry_cnt rp \<ge> max_tx_retries (c_uet cx) then do {
       w \<leftarrow> rudi_remove a w;
       (n, w) \<leftarrow> uet_pds_rudi_drop_tx_pkts (rp_handle rp) w;
       h \<leftarrow> rp_handle rp;
       w \<leftarrow> up_pds_err cx h w;
       Some (Some (- EPROTO), w) }
     else do {
       let rp = rp\<lparr>rp_tx_retry_cnt := rp_tx_retry_cnt rp + 1\<rparr>;
       l \<leftarrow> unlink a (w_rto_list w);
       let w = w\<lparr>w_rto_list := l @ [a]\<rparr>;
       (rc, rp, w) \<leftarrow> uet_rudi_send cx rp True w;
       let w = w\<lparr>w_rudi := (w_rudi w)(a \<mapsto> rp)\<rparr>;
       Some (if rc \<noteq> 0 then Some rc else None, w) } }"

definition uet_pds_rudi_progress_tx :: "pds_ctx \<Rightarrow> pds_world \<Rightarrow> (int \<times> pds_world) option" where
  "uet_pds_rudi_progress_tx cx w = do {
     let (now, w) = uet_gettime cx w;
     let xs = w_rto_list w;
     (r, w) \<leftarrow> foreach_safe (length xs * (nat (max_tx_retries (c_uet cx)) + 2)) w_rto_list (rudi_rto_step cx now) (dfirst xs) w;
     Some (case r of None \<Rightarrow> 0 | Some rc \<Rightarrow> rc, w) }"

section \<open>UUD\<close>

text \<open>The scratch packet of a datagram is a transmit slot.\<close>

definition uet_uud_send :: "pds_ctx \<Rightarrow> u32 \<Rightarrow> u32 \<Rightarrow> bool \<Rightarrow> bool \<Rightarrow> tx_slot \<Rightarrow> pds_world \<Rightarrow> (int \<times> pds_world) option" where
  "uet_uud_send cx sdi ssi v6 sec s w =
     (if \<not> sec then do {
        (rc, s) \<leftarrow> slot_parse (c_uet cx) s;
        if rc \<noteq> 0 then Some (rc, w)
        else do {
          (s, frame) \<leftarrow> append_crc s;
          Some (nic_tx cx frame w) } }
      else do {
        (rc, s, w) \<leftarrow> sec_build cx sdi ssi v6 s w;
        if rc \<noteq> 0 then Some (rc, w)
        else do {
          (rc, s) \<leftarrow> slot_parse (c_uet cx) s;
          if rc \<noteq> 0 then Some (rc, w)
          else do {
            s \<leftarrow> fix_ip_len (c_uet cx) s;
            (rc, s, frame, w) \<leftarrow> sec_encrypt cx v6 s w;
            Some (if rc \<noteq> 0 then (rc, w) else nic_tx cx frame w) } } })"

definition uet_uud_get_sec :: "pds_ctx \<Rightarrow> bool \<times> u32 \<times> u32" where
  "uet_uud_get_sec cx = (env_sec_mode (c_env cx) \<noteq> None, 1,
     case env_sec_ssi (c_env cx) of None \<Rightarrow> 0 | Some s \<Rightarrow> strtoul10 s)"

definition uet_uud_build_frame :: "pds_ctx \<Rightarrow> u8 \<Rightarrow> u16 \<Rightarrow> bytes \<Rightarrow> uet_fa \<Rightarrow> bool \<Rightarrow> bool \<Rightarrow> u8 \<Rightarrow> bytes \<Rightarrow> bytes
    \<Rightarrow> pds_world \<Rightarrow> (int \<times> tx_slot \<times> pds_world) option" where
  "uet_uud_build_frame cx tos entropy dst_mac dst_fa v6 sec nxt ses payload w = do {
     let (ok, w) = c_calloc cx w;
     if \<not> ok then Some (- ENOMEM, \<lparr>sl_buf = [], sl_pkt = 0, sl_len = 0, sl_pp = pp_zero, sl_parsed = False\<rparr>, w)
     else do {
       let b = replicate (max_pkt_size (c_uet cx) * (if sec then 2 else 1)) 0;
       (b, pkt, len) \<leftarrow> dgram_frame (c_uet cx) tos entropy dst_mac dst_fa v6 sec UET_PDS_TYPE_UUD_REQ nxt [0, 0] ses payload b;
       Some (0, \<lparr>sl_buf = b, sl_pkt = pkt, sl_len = len, sl_pp = pp_zero, sl_parsed = False\<rparr>, w) } }"

definition uet_pds_uud_tx_pkt :: "pds_ctx \<Rightarrow> tx_args \<Rightarrow> pds_world \<Rightarrow> (int \<times> pds_world) option" where
  "uet_pds_uud_tx_pkt cx ta w =
     (if ta_pds_info ta \<noteq> None then Some (- ENOSYS, w)
      else do {
        let (sec, sdi, ssi) = uet_uud_get_sec cx;
        let v6 = av_is_ipv6 (ta_av ta);
        (rc, s, w) \<leftarrow> uet_uud_build_frame cx (ep_msg_ip_tos (ta_ep ta)) (ep_entropy (ta_ep ta)) (nh_mac_addr (ta_av ta))
             (av_fa (ta_av ta)) v6 sec (ta_next_hdr ta) (ta_ses ta) (ta_pkt ta) w;
        if rc \<noteq> 0 then Some (rc, w)
        else do {
          (rc, w) \<leftarrow> uet_uud_send cx sdi ssi v6 sec s w;
          if rc \<noteq> 0 then Some (rc, w)
          else do {
            (rc, w) \<leftarrow> up_rx_rsp cx (ta_handle ta) None w;
            Some (0, w) } } })"

definition uet_pds_uud_rx :: "pds_ctx \<Rightarrow> uet_parsed_pkt \<Rightarrow> pds_world \<Rightarrow> (int \<times> pds_world) option" where
  "uet_pds_uud_rx cx pp w = do {
     (r, w) \<leftarrow> up_rx_req cx pp w;
     Some (sr_rc r, w) }"

end
