(* ===== verification/PdsReq.thy ===== *)
theory PdsReq
  imports Rudi
begin

unbundle bit_operations_syntax

text \<open>
  The downcalls of SES into the packet delivery sublayer: dropping the packets of an abandoned
  transmit, assigning an initiator PDC, transmitting a packet, and the retransmission timer.
\<close>

section \<open>Dropping\<close>

definition drop_pkt_step :: "nat \<Rightarrow> nat option \<Rightarrow> nat \<Rightarrow> nat \<times> pds_world \<Rightarrow> (unit option \<times> nat \<times> pds_world) option" where
  "drop_pkt_step p h a = (\<lambda>(n, w). do {
     k \<leftarrow> w_pkts w a;
     if tx_pkt_handle k \<noteq> h then Some (None, n, w)
     else do {
       w \<leftarrow> untrack_in_mpr p (pk_psn k) w;
       w \<leftarrow> tx_unlist p a w;
       w \<leftarrow> uet_pds_free_pdc_pkt a w;
       Some (None, n + 1, w) } })"

definition drop_pdc_step :: "nat option \<Rightarrow> nat \<Rightarrow> nat \<times> pds_world \<Rightarrow> (unit option \<times> nat \<times> pds_world) option" where
  "drop_pdc_step h p = (\<lambda>(n, w). do {
     let xs = tx_pkt_list (w_pdc w ! p);
     (r, nw) \<leftarrow> foreach_safe (length xs) (\<lambda>(n, w). tx_pkt_list (w_pdc w ! p)) (drop_pkt_step p h) (dfirst xs) (n, w);
     Some (None, nw) })"

definition uet_pds_drop_tx_pkts :: "nat option \<Rightarrow> pds_world \<Rightarrow> (nat \<times> pds_world) option" where
  "uet_pds_drop_tx_pkts h w =
     (if h = None then Some (0, w)
      else do {
        (r, n, w) \<leftarrow> foreach_safe (length (w_alloc w)) (\<lambda>(n, w). w_alloc w) (drop_pdc_step h) (dfirst (w_alloc w)) (0, w);
        (m, w) \<leftarrow> uet_pds_rudi_drop_tx_pkts h w;
        Some (n + m, w) })"

section \<open>Assigning an initiator context\<close>

definition local_fa :: "uet_inst \<Rightarrow> bool \<Rightarrow> uet_fa" where
  "local_fa uet v6 = (if v6 then nic_ipv6_addr uet else fa_v4 (nic_ipv4_addr uet))"

definition ini_key :: "uet_inst \<Rightarrow> uet_ep_p \<Rightarrow> uet_av_entry \<Rightarrow> uet_pds_mode_t \<Rightarrow> uet_pdc_ini_key" where
  "ini_key uet ep av mode =
     \<lparr>ik_type = (case mode of UET_PDS_MODE_ROD \<Rightarrow> PDC_TYPE_ROD | UET_PDS_MODE_RUD \<Rightarrow> PDC_TYPE_RUD | _ \<Rightarrow> PDC_TYPE_NONE),
      ik_job_id = ep_job_id ep, ik_src_ip = local_fa uet (av_is_ipv6 av), ik_dst_ip = av_fa av, ik_tc = 0\<rparr>"

definition ini_find :: "uet_pdc_ini_key \<Rightarrow> pds_world \<Rightarrow> nat option" where
  "ini_find key w = find (\<lambda>p. ini_hkey (w_pdc w ! p) = key) (w_ini_ht w)"

text \<open>A new initiator PDC: the head of the free list, initialised, with its Start_PSN.\<close>

definition new_ini_pdc :: "pds_ctx \<Rightarrow> uet_ep_p \<Rightarrow> uet_av_entry \<Rightarrow> uet_pds_mode_t \<Rightarrow> pds_world
    \<Rightarrow> (nat option \<times> pds_world) option" where
  "new_ini_pdc cx ep av mode w = do {
     (po, w) \<leftarrow> uet_pdsm_alloc_pdc w;
     (case po of None \<Rightarrow> Some (None, w)
      | Some p \<Rightarrow> do {
          let pdc = (uet_init_pdc (w_pdc w ! p) PDC_STATE_SYN True)\<lparr>src_mac_addr := nic_mac_addr (c_uet cx),
              dst_mac_addr := nh_mac_addr av, src_addr := local_fa (c_uet cx) (av_is_ipv6 av), dst_addr := av_fa av,
              pdc_ipv6 := av_is_ipv6 av\<rparr>;
          let pdc = uet_pdsm_get_sdi cx pdc;
          let ini = uet_sec_sd_get_ini_start_psn (w_sec w) (pdc_sdi pdc);
          let (psn, w) = (if sec_enabled pdc \<and> ini \<noteq> 0 then (ini, w) else uet_pds_rand_start_psn cx w);
          let pdc = pdc\<lparr>start_psn := psn, next_psn := psn, tx_bm_base_psn := psn, rx_bm_base_psn := psn,
                       max_cack_psn := psn - 1, ini_hkey := ini_key (c_uet cx) ep av mode\<rparr>;
          let w = upd_pdc p (\<lambda>_. pdc) w;
          Some (Some p, w\<lparr>w_ini_ht := p # w_ini_ht w\<rparr>) }) }"

definition uet_pdsm_assign_ini_pdc :: "pds_ctx \<Rightarrow> uet_ep_p \<Rightarrow> uet_av_entry \<Rightarrow> uet_pds_mode_t \<Rightarrow> pds_world
    \<Rightarrow> (nat option \<times> pds_world) option" where
  "uet_pdsm_assign_ini_pdc cx ep av mode w = do {
     PDS_GO w;
     (case ini_find (ini_key (c_uet cx) ep av mode) w of
        None \<Rightarrow> new_ini_pdc cx ep av mode w
      | Some p \<Rightarrow>
          if pdc_state (w_pdc w ! p) = PDC_STATE_ERROR then do {
            w \<leftarrow> uet_pdsm_discard_pdc cx p w;
            new_ini_pdc cx ep av mode w }
          else if close_requested (w_pdc w ! p) then Some (None, w)
          else Some (Some p, w)) }"

definition uet_pdsm_get_pdc :: "u16 \<Rightarrow> bool \<Rightarrow> pds_world \<Rightarrow> int \<times> nat option" where
  "uet_pdsm_get_pdc i for_fwd w =
     (if i = 0 \<or> unat i \<ge> UET_PDC_MAX then (- EINVAL, None)
      else let pdc = w_pdc w ! unat i in
        if pdc_state pdc = PDC_STATE_UNALLOC \<or> pdc_state pdc = PDC_STATE_ERROR \<or> (for_fwd \<and> is_initiator pdc)
        then (- EINVAL, None) else (0, Some (unat i)))"

section \<open>Transmit requests\<close>

text \<open>The PDC of a request and whether the message has to be mapped to it, or the error.\<close>

definition tx_select_pdc :: "pds_ctx \<Rightarrow> tx_args \<Rightarrow> pds_world \<Rightarrow> ((int + nat \<times> bool) \<times> pds_world) option" where
  "tx_select_pdc cx ta w =
     (case ta_pds_info ta of
        Some (opsn, pdcid) \<Rightarrow>
          (case uet_pdsm_get_pdc pdcid True w of
             (rc, None) \<Rightarrow> Some (Inl rc, w)
           | (rc, Some p) \<Rightarrow> Some (Inr (p, False), w))
      | None \<Rightarrow>
          if ta_flags ta AND UET_PDS_FLAG_SOM \<noteq> 0 then do {
            (po, w) \<leftarrow> uet_pdsm_assign_ini_pdc cx (ta_ep ta) (ta_av ta) (ta_mode ta) w;
            Some (case po of None \<Rightarrow> (Inl (- EAGAIN), w)
              | Some p \<Rightarrow> if active_msg_id_valid (w_pdc w ! p) then (Inl (- EAGAIN), w) else (Inr (p, True), w)) }
          else do {
            po \<leftarrow> uet_pdsm_get_msgid_pdc (ta_msg_id ta) w;
            Some (case po of None \<Rightarrow> (Inl (- EAGAIN), w) | Some p \<Rightarrow> (Inr (p, False), w)) })"

text \<open>The end of a message: unless SES keeps the PDC, the message is unmapped and the PDC may be
  marked for closing.\<close>

definition tx_eom :: "pds_ctx \<Rightarrow> nat \<Rightarrow> u16 \<Rightarrow> pds_world \<Rightarrow> pds_world option" where
  "tx_eom cx p msg_id w = do {
     let w = upd_pdc p (\<lambda>pdc. pdc\<lparr>active_msg_id := 0, active_msg_id_valid := False\<rparr>) w;
     (rc, w) \<leftarrow> uet_pdsm_unmap_msgid_pdc msg_id w;
     let pdc = w_pdc w ! p;
     let (c, w) = (if pds_pdc_close_thresh cx \<noteq> 0 \<and> is_initiator pdc \<and> \<not> close_requested pdc
        then uet_pds_random_check cx (pds_pdc_close_thresh cx) w else (False, w));
     let w = (if c then upd_pdc p (\<lambda>pdc. pdc\<lparr>close_requested := True\<rparr>) w else w);
     let pdc = w_pdc w ! p;
     Some (if sec_enabled pdc \<and> is_initiator pdc \<and> \<not> close_requested pdc \<and> next_psn pdc - start_psn pdc \<ge> 0x80000000
           then (upd_pdc p (\<lambda>pdc. pdc\<lparr>close_requested := True\<rparr>) w)\<lparr>psn_range_close_cnt := psn_range_close_cnt w + 1\<rparr>
           else w) }"

text \<open>After the transmission: the PSN is consumed, the packet joins the retransmission list.\<close>

definition tx_commit :: "pds_ctx \<Rightarrow> nat \<Rightarrow> tx_args \<Rightarrow> nat \<Rightarrow> pds_world \<Rightarrow> pds_world option" where
  "tx_commit cx p ta a w = do {
     let w = upd_pdc p (\<lambda>pdc. pdc\<lparr>next_psn := next_psn pdc + 1,
         syn_offset := (if pdc_state pdc = PDC_STATE_SYN then syn_offset pdc + 1 else syn_offset pdc),
         tx_pkt_list := tx_pkt_list pdc @ [a]\<rparr>) w;
     w \<leftarrow> (if ta_pds_info ta = None \<and> ta_flags ta AND UET_PDS_FLAG_EOM \<noteq> 0 \<and> ta_flags ta AND UET_PDS_FLAG_MAINTAIN_PDC = 0
          then tx_eom cx p (ta_msg_id ta) w else Some w);
     let pdc = w_pdc w ! p;
     if pdc_state pdc = PDC_STATE_ESTABLISHED \<and> is_initiator pdc \<and> close_requested pdc \<and> \<not> close_started pdc
     then map_option snd (uet_pds_initiate_pdc_close cx p w) else Some w }"

definition tx_rollback :: "nat \<Rightarrow> u32 \<Rightarrow> nat \<Rightarrow> bool \<Rightarrow> u16 \<Rightarrow> pds_world \<Rightarrow> pds_world option" where
  "tx_rollback p psn a mapped msg_id w = do {
     w \<leftarrow> tx_untrack p psn w;
     w \<leftarrow> (if mapped then
            map_option snd (uet_pdsm_unmap_msgid_pdc msg_id
              (upd_pdc p (\<lambda>pdc. pdc\<lparr>active_msg_id := 0, active_msg_id_valid := False\<rparr>) w))
          else Some w);
     uet_pds_free_pdc_pkt a w }"

text \<open>Building, tracking and sending the packet on the chosen PDC.\<close>

definition tx_send :: "pds_ctx \<Rightarrow> nat \<Rightarrow> bool \<Rightarrow> u8 \<Rightarrow> tx_args \<Rightarrow> pds_world \<Rightarrow> (int \<times> pds_world) option" where
  "tx_send cx p map_msg_id pds_pkt_type ta w =
     (let pdc = w_pdc w ! p; (ao, w) = uet_pds_alloc_pdc_pkt cx (pkt_buf_size cx pdc) 0 w in
      case ao of None \<Rightarrow> Some (- ENOMEM, w)
      | Some a \<Rightarrow> do {
          k \<leftarrow> w_pkts w a;
          b \<leftarrow> pkt_buf k;
          b \<leftarrow> req_frame (c_uet cx) pdc b (sec_headroom pdc) pds_pkt_type ta;
          let psn = next_psn pdc;
          let k = k\<lparr>pkt_buf := Some b, pk_pkt := sec_headroom pdc,
              pk_pkt_len := pds_off (pdc_ipv6 pdc) + PDS_REQ_LEN + length (ta_ses ta) + length (ta_pkt ta),
              pk_psn := psn, pk_msg_id := ta_msg_id ta, tx_retry_cnt := 0, tx_pkt_handle := ta_handle ta,
              tx_pkt_acked := False, pk_flags := ta_flags ta\<rparr>;
          let w = put_pkt a k w;
          (ok, w) \<leftarrow> tx_track p psn a w;
          if \<not> ok then do { w \<leftarrow> uet_pds_free_pdc_pkt a w; Some (- EIO, w) }
          else do {
            (rc, w) \<leftarrow> (if map_msg_id then uet_pdsm_map_msgid_pdc cx (ta_msg_id ta) p w else Some (0, w));
            if rc \<noteq> 0 then do {
              w \<leftarrow> tx_untrack p psn w;
              w \<leftarrow> uet_pds_free_pdc_pkt a w;
              Some (rc, w) }
            else do {
              let w = (if map_msg_id then upd_pdc p (\<lambda>pdc. pdc\<lparr>active_msg_id := ta_msg_id ta, active_msg_id_valid := True\<rparr>) w
                       else w);
              (rc, k, w) \<leftarrow> uet_pds_sec_tx_pkt cx (w_pdc w ! p) k True False w;
              let w = put_pkt a k w;
              if rc \<noteq> 0 then do {
                w \<leftarrow> tx_rollback p psn a map_msg_id (ta_msg_id ta) w;
                Some (rc, w) }
              else do {
                w \<leftarrow> tx_commit cx p ta a w;
                Some (0, w) } } } })"

definition uet_pds_tx_pkt :: "pds_ctx \<Rightarrow> tx_args \<Rightarrow> pds_world \<Rightarrow> (int \<times> pds_world) option" where
  "uet_pds_tx_pkt cx ta w = do {
     PDS_GO w;
     if ta_mode ta = UET_PDS_MODE_RUDI then uet_pds_rudi_tx_pkt cx ta w
     else if ta_mode ta = UET_PDS_MODE_UUD then uet_pds_uud_tx_pkt cx ta w
     else if ta_next_hdr ta \<noteq> UET_HDR_REQ_STD \<and> ta_next_hdr ta \<noteq> UET_HDR_RSP_DATA then Some (- EINVAL, w)
     else do {
       let ty = (if ta_mode ta = UET_PDS_MODE_RUD then UET_PDS_TYPE_RUD_REQ else UET_PDS_TYPE_ROD_REQ);
       (sel, w) \<leftarrow> tx_select_pdc cx ta w;
       (case sel of Inl rc \<Rightarrow> Some (rc, w)
        | Inr (p, map_msg_id) \<Rightarrow>
            let pdc = w_pdc w ! p in
            if dst_addr pdc \<noteq> av_fa (ta_av ta) then Some (- EINVAL, w)
            else if \<not> uet_pds_tx_psn_allowed pdc (next_psn pdc) then Some (- EAGAIN, w)
            else if ta_flags ta AND UET_PDS_FLAG_SOM = 0 \<and> (\<not> active_msg_id_valid pdc \<or> active_msg_id pdc \<noteq> ta_msg_id ta)
              then Some (- EINVAL, w)
            else tx_send cx p map_msg_id ty ta w) } }"

section \<open>NACKs\<close>

text \<open>Without a PDC the NACK is sent from a temporary one.\<close>

definition uet_pds_tx_nack :: "pds_ctx \<Rightarrow> nat option \<Rightarrow> uet_parsed_pkt \<Rightarrow> u8 \<Rightarrow> u32 \<Rightarrow> pds_world
    \<Rightarrow> (int \<times> pds_world) option" where
  "uet_pds_tx_nack cx po orig_pp nack_code payload w =
     (let pdc = (case po of None \<Rightarrow> pdc_zero\<lparr>pdc_ipv6 := pp_is_ipv6 orig_pp\<rparr> | Some p \<Rightarrow> w_pdc w ! p);
          (ao, w) = uet_pds_alloc_pdc_pkt cx (pkt_buf_size cx pdc) 0 w in
      case ao of None \<Rightarrow> Some (- ENOMEM, w)
      | Some a \<Rightarrow> do {
          k \<leftarrow> w_pkts w a;
          b \<leftarrow> pkt_buf k;
          b \<leftarrow> nack_frame (c_uet cx) pdc b (sec_headroom pdc) orig_pp nack_code payload;
          (rc, k, w) \<leftarrow> uet_pds_sec_tx_pkt cx pdc (k\<lparr>pkt_buf := Some b, pk_pkt := sec_headroom pdc,
              pk_pkt_len := pds_off (pdc_ipv6 pdc) + PDS_NACK_LEN\<rparr>) True False w;
          w \<leftarrow> uet_pds_free_pdc_pkt a (put_pkt a k w);
          Some (rc, w) })"

section \<open>The retransmission timer\<close>

text \<open>Setting the retransmit and ACK-request flags in the PDS header of the packet.\<close>

definition set_retx :: "uet_pdc_pkt \<Rightarrow> uet_pdc_pkt option" where
  "set_retx k = (if \<not> pkt_parsed k then None else do {
     b \<leftarrow> pkt_buf k;
     let h = pk_pkt k + pp_pds (pkt_pp k);
     t \<leftarrow> rd16 b h;
     b \<leftarrow> wr b h (be16 (t OR ucast (UET_PDS_REQ_FLAGS_RETX OR UET_PDS_REQ_FLAGS_AR)));
     let pp = pkt_pp k;
     Some (k\<lparr>pkt_buf := Some b, pkt_pp := pp\<lparr>pds_flags := pds_flags pp OR UET_PDS_REQ_FLAGS_RETX\<rparr>\<rparr>) })"

definition uet_pds_rtx_pkt :: "pds_ctx \<Rightarrow> nat \<Rightarrow> nat \<Rightarrow> pds_world \<Rightarrow> (int \<times> pds_world) option" where
  "uet_pds_rtx_pkt cx p a w = do {
     k \<leftarrow> w_pkts w a;
     if dst_recvd k \<and> tx_retry_cnt k < max_tx_retries (c_uet cx) then do {
       (rc, w) \<leftarrow> uet_pds_send_ctrl_pkt cx p UET_PDS_CTRL_TYPE_ACK_REQ (ucast (pk_msg_id k)) (Some a) w;
       if rc \<noteq> 0 then Some (rc, w)
       else do {
         k \<leftarrow> w_pkts w a;
         let (t, w) = uet_gettime cx w;
         Some (0, put_pkt a (k\<lparr>tx_retry_cnt := tx_retry_cnt k + 1, tx_time := t\<rparr>) w) } }
     else if \<not> uet_pds_tx_psn_allowed (w_pdc w ! p) (pk_psn k) then Some (- EAGAIN, w)
     else do {
       k \<leftarrow> set_retx k;
       (rc, k, w) \<leftarrow> uet_pds_sec_tx_pkt cx (w_pdc w ! p) k True True w;
       if rc \<noteq> 0 then Some (rc, put_pkt a k w)
       else Some (0, put_pkt a (k\<lparr>tx_retry_cnt := tx_retry_cnt k + 1\<rparr>) w) } }"

definition uet_pds_check_rtx_pkt :: "pds_ctx \<Rightarrow> nat \<Rightarrow> nat \<Rightarrow> pds_world \<Rightarrow> (int \<times> pds_world) option" where
  "uet_pds_check_rtx_pkt cx p a w = do {
     k \<leftarrow> w_pkts w a;
     if tx_pkt_acked k then Some (0, w)
     else do {
       let (now, w) = uet_gettime cx w;
       if now - tx_time k < tx_timeout (c_uet cx) then Some (0, w)
       else if \<not> dst_recvd k \<and> \<not> uet_pds_tx_psn_allowed (w_pdc w ! p) (pk_psn k) then Some (0, w)
       else if tx_retry_cnt k \<ge> max_tx_retries (c_uet cx) then Some (- EIO, w)
       else do {
         (rc, w) \<leftarrow> uet_pds_rtx_pkt cx p a w;
         Some (if rc = - EAGAIN then (0, w) else if rc \<noteq> 0 then (- EIO, w) else (- EAGAIN, w)) } } }"

definition uet_pds_progress_tx_pkt :: "pds_ctx \<Rightarrow> nat \<Rightarrow> nat \<Rightarrow> pds_world \<Rightarrow> (int \<times> pds_world) option" where
  "uet_pds_progress_tx_pkt cx p a w = do {
     (rc, w) \<leftarrow> uet_pds_check_rtx_pkt cx p a w;
     if rc = 0 then Some (0, w)
     else do {
       k \<leftarrow> w_pkts w a;
       if rc = - EIO then do {
         w \<leftarrow> uet_pds_close_pdc_in_error cx p w;
         (n, w) \<leftarrow> uet_pds_drop_tx_pkts (tx_pkt_handle k) w;
         Some (- EPROTO, w) }
       else if tx_pkt_acked k then Some (- EAGAIN, w)
       else do {
         w \<leftarrow> tx_unlist p a w;
         Some (- EAGAIN, upd_pdc p (\<lambda>pdc. pdc\<lparr>tx_pkt_list := tx_pkt_list pdc @ [a]\<rparr>) w) } } }"

definition progress_pkts :: "pds_ctx \<Rightarrow> nat \<Rightarrow> pds_world \<Rightarrow> (int option \<times> pds_world) option" where
  "progress_pkts cx p w =
     (let xs = tx_pkt_list (w_pdc w ! p) in
      foreach_safe (length xs * (nat (max_tx_retries (c_uet cx)) + 2)) (\<lambda>w. tx_pkt_list (w_pdc w ! p))
        (\<lambda>a w. do {
           (rc, w) \<leftarrow> uet_pds_progress_tx_pkt cx p a w;
           Some (if rc = 0 \<or> rc = - EPROTO then Some rc else None, w) }) (dfirst xs) w)"

text \<open>The work of the timer on one PDC; the value \<open>-EPROTO\<close> ends the loop.\<close>

definition progress_pdc :: "pds_ctx \<Rightarrow> nat \<Rightarrow> pds_world \<Rightarrow> (int option \<times> pds_world) option" where
  "progress_pdc cx p w =
     (let pdc = w_pdc w ! p in
      if pdc_state pdc = PDC_STATE_PENDING then do {
        let (now, w) = uet_gettime cx w;
        if now - pending_time pdc > pds_new_pdc_time_ms cx then do {
          w \<leftarrow> uet_pdsm_free_pdc p w;
          Some (None, w\<lparr>new_pdc_timeout_cnt := new_pdc_timeout_cnt w + 1\<rparr>) }
        else Some (None, w) }
      else do {
        let chk = (\<not> is_initiator pdc \<and> close_started pdc \<and> close_req_time pdc \<noteq> 0);
        let (now, w) = (if chk then uet_gettime cx w else (0, w));
        if chk \<and> now - close_req_time pdc > pds_close_req_time_ms cx then do {
          w \<leftarrow> uet_pds_close_pdc_in_error cx p w;
          Some (None, w) }
        else do {
          (r, w) \<leftarrow> progress_pkts cx p w;
          Some (if r = Some (- EPROTO) then r else None, w) } })"

definition uet_pds_progress_tx :: "pds_ctx \<Rightarrow> pds_world \<Rightarrow> (int \<times> pds_world) option" where
  "uet_pds_progress_tx cx w = do {
     PDS_GO w;
     (rc, w) \<leftarrow> uet_pds_rudi_progress_tx cx w;
     if rc \<noteq> 0 then Some (rc, w)
     else do {
       (r, w) \<leftarrow> foreach_safe (length (w_alloc w)) w_alloc (progress_pdc cx) (dfirst (w_alloc w)) w;
       Some (case r of None \<Rightarrow> 0 | Some rc \<Rightarrow> rc, w) } }"

end
