(* ===== verification/PdsRx.thy ===== *)
theory PdsRx
  imports PdsReq
begin

unbundle bit_operations_syntax

text \<open>
  The receive side of \<open>src/uet_pds.c\<close>: the assignment of target PDCs, the receive window with its
  cumulative acknowledgement, the delivery of requests to SES, duplicates, and the handlers of
  requests, ACKs, NACKs and control packets up to \<open>uet_pds_progress_rx\<close>.
\<close>

section \<open>Assigning a target context\<close>

definition pp_dst_fa :: "uet_parsed_pkt \<Rightarrow> uet_fa option" where
  "pp_dst_fa pp = do {
     a \<leftarrow> pp_ipaddr (pp_is_ipv6 pp) pp 1;
     Some (if pp_is_ipv6 pp then a else fa_v4 (be_val a)) }"

definition tgt_find :: "uet_pdc_tgt_key \<Rightarrow> pds_world \<Rightarrow> nat option" where
  "tgt_find key w = find (\<lambda>p. tgt_hkey (w_pdc w ! p) = key) (w_tgt_ht w)"

text \<open>The PSN base of a new target PDC and whether the initiator has to restart with it.\<close>

definition tgt_base :: "pds_ctx \<Rightarrow> uet_pdc \<Rightarrow> u32 \<Rightarrow> pds_world \<Rightarrow> u32 \<times> bool \<times> pds_world" where
  "tgt_base cx pdc start w =
     (if \<not> sec_enabled pdc then (start, False, w)
      else if pds_psn_method cx = UET_PDS_PSN_METHOD_1RTT
        then (let (psn, w) = uet_pds_rand_start_psn cx w in (psn, True, w))
      else let expected_psn = uet_sec_sd_get_tgt_start_psn (w_sec w) (pdc_sdi pdc) in
        if \<not> UET_PDS_PSN_AFTER_EQ start expected_psn then (expected_psn, True, w) else (start, False, w))"

record tgt_res =
  tr_rc :: int
  tr_pdc :: "nat option"
  tr_nack_code :: u8
  tr_nack_payload :: u32

definition tgt_ok :: "nat \<Rightarrow> tgt_res" where
  "tgt_ok p = \<lparr>tr_rc = 0, tr_pdc = Some p, tr_nack_code = UET_NACK_NONE, tr_nack_payload = 0\<rparr>"

definition tgt_err :: "int \<Rightarrow> u8 \<Rightarrow> u32 \<Rightarrow> tgt_res" where
  "tgt_err rc code payload = \<lparr>tr_rc = rc, tr_pdc = None, tr_nack_code = code, tr_nack_payload = payload\<rparr>"

text \<open>A SYN for a PDC that exists.\<close>

definition tgt_existing :: "uet_parsed_pkt \<Rightarrow> nat \<Rightarrow> pds_world \<Rightarrow> tgt_res \<times> pds_world" where
  "tgt_existing pp p w =
     (let pdc = w_pdc w ! p; start = pds_psn pp - ucast (pds_syn_off pp) in
      if is_initiator pdc then (tgt_err (- EINVAL) UET_NACK_INVALID_SYN 0, w)
      else if pdc_state pdc = PDC_STATE_PENDING then
        (if start = start_psn pdc then (tgt_ok p, upd_pdc p (\<lambda>pdc. pdc\<lparr>pdc_state := PDC_STATE_ESTABLISHED\<rparr>) w)
         else (tgt_err (- EINVAL) UET_NACK_NEW_START_PSN (start_psn pdc), w))
      else (tgt_ok p, w))"

definition new_tgt_pdc :: "pds_ctx \<Rightarrow> uet_parsed_pkt \<Rightarrow> uet_pdc_tgt_key \<Rightarrow> pds_world \<Rightarrow> (tgt_res \<times> pds_world) option" where
  "new_tgt_pdc cx pp key w = do {
     (po, w) \<leftarrow> uet_pdsm_alloc_pdc w;
     (case po of None \<Rightarrow> Some (tgt_err (- ENOSPC) UET_NACK_NO_PDC_AVAIL 0, w)
      | Some p \<Rightarrow> do {
          smac \<leftarrow> pp_h_source pp;
          dmac \<leftarrow> pp_h_dest pp;
          let pdc = (uet_init_pdc (w_pdc w ! p) PDC_STATE_ESTABLISHED False)\<lparr>src_mac_addr := dmac, dst_mac_addr := smac,
              src_addr := tk_dst_ip key, dst_addr := tk_src_ip key, pdc_ipv6 := pp_is_ipv6 pp, dpdcid := pds_spdcid pp,
              accepted_bytes := 0\<rparr>;
          let pdc = uet_pdsm_get_sdi cx pdc;
          let (base, reject_pending, w) = tgt_base cx pdc (pds_psn pp - ucast (pds_syn_off pp)) w;
          let pdc = pdc\<lparr>start_psn := base, rx_bm_base_psn := base, tx_bm_base_psn := base, next_psn := base,
              max_cack_psn := base - 1, cack_psn := base - 1, max_clear_psn := base - 1, prev_ar_psn := base - 1,
              max_rcvd_psn := base - 1, sack_base_track := base - 1, tgt_hkey := key\<rparr>;
          let w = upd_pdc p (\<lambda>_. pdc) w;
          let w = w\<lparr>w_tgt_ht := p # w_tgt_ht w\<rparr>;
          if reject_pending then do {
            let (t, w) = uet_gettime cx w;
            Some (tgt_err (- EINVAL) UET_NACK_NEW_START_PSN base,
                  upd_pdc p (\<lambda>pdc. pdc\<lparr>pdc_state := PDC_STATE_PENDING, pending_time := t\<rparr>) w) }
          else Some (tgt_ok p, w) }) }"

definition uet_pdsm_assign_tgt_pdc :: "pds_ctx \<Rightarrow> uet_parsed_pkt \<Rightarrow> pds_world \<Rightarrow> (tgt_res \<times> pds_world) option" where
  "uet_pdsm_assign_tgt_pdc cx pp w =
     (if pds_type pp \<noteq> UET_PDS_TYPE_RUD_REQ \<and> pds_type pp \<noteq> UET_PDS_TYPE_ROD_REQ
        then Some (tgt_err (- EINVAL) UET_NACK_PDC_MODE_MISMATCH 0, w)
      else if next_hdr pp \<noteq> UET_HDR_REQ_SMALL \<and> next_hdr pp \<noteq> UET_HDR_REQ_MEDIUM \<and> next_hdr pp \<noteq> UET_HDR_REQ_STD
        then Some (tgt_err (- EINVAL) UET_NACK_PDC_HDR_MISMATCH 0, w)
      else do {
        src \<leftarrow> pp_src_fa pp;
        dst \<leftarrow> pp_dst_fa pp;
        let key = \<lparr>tk_src_ip = src, tk_dst_ip = dst, tk_spdcid = pds_spdcid pp\<rparr>;
        (case tgt_find key w of
           Some p \<Rightarrow> Some (tgt_existing pp p w)
         | None \<Rightarrow> new_tgt_pdc cx pp key w) })"

section \<open>The receive window\<close>

text \<open>The number of packets from the base of the window that can be acknowledged: the scan stops
  at the first gap and at the first packet that still waits for a clear.\<close>

fun cack_scan :: "(nat \<Rightarrow> uet_pdc_pkt option) \<Rightarrow> nat bitmap \<Rightarrow> u32 \<Rightarrow> nat \<Rightarrow> nat \<Rightarrow> nat option" where
  "cack_scan pk bm mclr i 0 = Some i"
| "cack_scan pk bm mclr i (Suc n) = do {
     (found, d) \<leftarrow> bm_get bm (int i) None;
     if \<not> found then Some i
     else do {
       a \<leftarrow> d;
       k \<leftarrow> pk a;
       if needs_clear k \<and> UET_PDS_PSN_AFTER (pk_psn k) mclr then Some i else cack_scan pk bm mclr (Suc i) n } }"

definition uet_pds_update_cack :: "nat \<Rightarrow> u32 \<Rightarrow> pds_world \<Rightarrow> pds_world option" where
  "uet_pds_update_cack p clear_psn w = do {
     let pdc = w_pdc w ! p;
     let mclr = UET_PDS_UPDATE_PSN (max_clear_psn pdc) clear_psn;
     m \<leftarrow> bm_max (rx_bm pdc);
     i \<leftarrow> cack_scan (w_pkts w) (rx_bm pdc) mclr 0 (nat (m + 1));
     Some (upd_pdc p (\<lambda>pdc. pdc\<lparr>max_clear_psn := mclr, cack_psn := rx_bm_base_psn pdc + word_of_nat i - 1\<rparr>) w) }"

definition uet_pds_should_sack :: "uet_inst \<Rightarrow> uet_pdc \<Rightarrow> uet_pdc_pkt \<Rightarrow> bool" where
  "uet_pds_should_sack uet pdc k =
     (if pds_flags (pkt_pp k) AND UET_PDS_REQ_FLAGS_AR \<noteq> 0 \<or> pds_flags (pkt_pp k) AND UET_PDS_REQ_FLAGS_SYN \<noteq> 0
         \<or> needs_clear k then True
      else if accepted_bytes pdc \<ge> ack_gen_trigger uet then True
      else prev_ar_psn pdc = max_rcvd_psn pdc)"

text \<open>Freeing the descriptors of the first \<open>n\<close> positions of a window.\<close>

definition free_front :: "nat bitmap \<Rightarrow> nat \<Rightarrow> pds_world \<Rightarrow> pds_world option" where
  "free_front bm n w = foldM (\<lambda>i w. do {
     (found, d) \<leftarrow> bm_get bm (int i) None;
     (case d of None \<Rightarrow> Some w | Some a \<Rightarrow> if found then uet_pds_free_pdc_pkt a w else Some w) }) [0..<n] w"

definition uet_pds_shift_rx_window :: "nat \<Rightarrow> pds_world \<Rightarrow> pds_world option" where
  "uet_pds_shift_rx_window p w = do {
     let pdc = w_pdc w ! p;
     let shift_count = UET_PDS_PSN_OFFSET (cack_psn pdc + 1) (rx_bm_base_psn pdc);
     if shift_count \<le> 0 then Some w
     else do {
       w \<leftarrow> free_front (rx_bm pdc) (nat shift_count) w;
       bm \<leftarrow> bm_shift_right (rx_bm pdc) (nat shift_count);
       Some (upd_pdc p (\<lambda>pdc. pdc\<lparr>rx_bm := bm, rx_bm_base_psn := rx_bm_base_psn pdc + word_of_int shift_count\<rparr>) w) } }"

section \<open>Delivery to SES\<close>

text \<open>The state after SES accepted the packet: the receive tracking, and the ACK when one is due.\<close>

definition rx_accept :: "pds_ctx \<Rightarrow> nat \<Rightarrow> nat \<Rightarrow> ses_reply \<Rightarrow> pds_world \<Rightarrow> pds_world option" where
  "rx_accept cx p a r w = do {
     k \<leftarrow> w_pkts w a;
     let k = k\<lparr>needs_clear := sr_gtd_del r\<rparr>;
     let psn = pds_psn (pkt_pp k);
     let w = put_pkt a k w;
     let w = upd_pdc p (\<lambda>pdc. pdc\<lparr>
         accepted_bytes := accepted_bytes pdc + max (ucast (pkt_payload_len (pkt_pp k))) (ack_gen_min_pkt_add (c_uet cx)),
         max_rcvd_psn := UET_PDS_UPDATE_PSN (max_rcvd_psn pdc) psn,
         prev_ar_psn := (if pds_flags (pkt_pp k) AND UET_PDS_REQ_FLAGS_AR \<noteq> 0
           then UET_PDS_UPDATE_PSN (prev_ar_psn pdc) psn else prev_ar_psn pdc)\<rparr>) w;
     w \<leftarrow> uet_pds_update_cack p (pds_clear_psn (pkt_pp k)) w;
     let w = upd_pdc p (\<lambda>pdc. uet_pds_update_sack_base pdc k False) w;
     if uet_pds_should_sack (c_uet cx) (w_pdc w ! p) k then do {
       (rc, k, pdc, w) \<leftarrow> uet_pds_tx_ack_pkt cx (w_pdc w ! p) k (sr_next_hdr r) (sr_hdr r) w;
       Some (upd_pdc p (\<lambda>_. pdc\<lparr>accepted_bytes := 0\<rparr>) (put_pkt a k w)) }
     else Some w }"

definition uet_pds_upcall_ses_rx_req :: "pds_ctx \<Rightarrow> nat \<Rightarrow> nat \<Rightarrow> pds_world \<Rightarrow> (int \<times> pds_world) option" where
  "uet_pds_upcall_ses_rx_req cx p a w = do {
     k \<leftarrow> w_pkts w a;
     let (ok, w) = c_calloc cx w;
     if \<not> ok then do {
       (rc, w) \<leftarrow> uet_pds_tx_nack cx (Some p) (pkt_pp k) UET_NACK_NO_SES_MSG_AVAIL 0 w;
       Some (- ENOMEM, w) }
     else do {
       (r, w) \<leftarrow> up_rx_req cx (pkt_pp k) w;
       if sr_rc r \<noteq> 0 then do {
         (rc, w) \<leftarrow> uet_pds_tx_nack cx (Some p) (pkt_pp k) UET_NACK_UNEXP_EVENT 0 w;
         Some (sr_rc r, w) }
       else if sr_nack r then do {
         (rc, w) \<leftarrow> uet_pds_tx_nack cx (Some p) (pkt_pp k) UET_NACK_NO_SES_MSG_AVAIL 0 w;
         Some (- EINVAL, w) }
       else do {
         w \<leftarrow> rx_accept cx p a r w;
         Some (0, w) } } }"

section \<open>Duplicates\<close>

definition send_def_rsp :: "pds_ctx \<Rightarrow> nat \<Rightarrow> nat \<Rightarrow> pds_world \<Rightarrow> (int \<times> pds_world) option" where
  "send_def_rsp cx p a w = do {
     k \<leftarrow> w_pkts w a;
     (rc, k, pdc, w) \<leftarrow> uet_pds_tx_def_rsp_ack_pkt cx (w_pdc w ! p) k w;
     Some (rc, upd_pdc p (\<lambda>_. pdc) (put_pkt a k w)) }"

definition resend_ack :: "pds_ctx \<Rightarrow> nat \<Rightarrow> nat \<Rightarrow> pds_world \<Rightarrow> (int \<times> pds_world) option" where
  "resend_ack cx p a w = do {
     k \<leftarrow> w_pkts w a;
     (rc, k, w) \<leftarrow> uet_pds_sec_tx_pkt cx (w_pdc w ! p) k False True w;
     Some (rc, put_pkt a k w) }"

definition uet_pds_check_duplicate_and_rtx :: "pds_ctx \<Rightarrow> nat \<Rightarrow> nat \<Rightarrow> pds_world \<Rightarrow> (int \<times> bool \<times> pds_world) option" where
  "uet_pds_check_duplicate_and_rtx cx p a w = do {
     k \<leftarrow> w_pkts w a;
     let pdc = w_pdc w ! p;
     let psn = pds_psn (pkt_pp k);
     let res = (\<lambda>(rc, w). if rc \<noteq> 0 then (rc, False, w) else (0 :: int, True, w));
     if PSN_IN_PRIOR_MPR psn (rx_bm_base_psn pdc) then map_option res (send_def_rsp cx p a w)
     else if PSN_IN_MPR psn (rx_bm_base_psn pdc) then do {
       (found, d) \<leftarrow> bm_get (rx_bm pdc) (psn_idx psn (rx_bm_base_psn pdc)) None;
       if \<not> found then Some (0, False, w)
       else (case d of None \<Rightarrow> map_option res (send_def_rsp cx p a w)
         | Some q \<Rightarrow> do {
             orig \<leftarrow> w_pkts w q;
             if pk_ack orig \<noteq> None then map_option res (resend_ack cx p q w)
             else if pds_type (pkt_pp orig) = UET_PDS_TYPE_ROD_REQ \<and> \<not> reordered orig
               then map_option res (uet_pds_tx_nack cx (Some p) (pkt_pp k) UET_NACK_RCVD_SES_PROCG 0 w)
             else map_option res (send_def_rsp cx p a w) }) }
     else do {
       (rc, w) \<leftarrow> uet_pds_tx_nack cx (Some p) (pkt_pp k)
          (if pds_flags (pkt_pp k) AND UET_PDS_REQ_FLAGS_SYN \<noteq> 0 then UET_NACK_INVALID_SYN else UET_NACK_PSN_OOR_WINDOW) 0 w;
       Some (- EINVAL, False, w) } }"

section \<open>Requests\<close>

definition rx_untrack :: "nat \<Rightarrow> int \<Rightarrow> pds_world \<Rightarrow> pds_world option" where
  "rx_untrack p i w = do {
     bm \<leftarrow> bm_unset (rx_bm (w_pdc w ! p)) i;
     Some (upd_pdc p (\<lambda>pdc. pdc\<lparr>rx_bm := bm\<rparr>) w) }"

definition rx_track :: "nat \<Rightarrow> u32 \<Rightarrow> nat \<Rightarrow> pds_world \<Rightarrow> (bool \<times> pds_world) option" where
  "rx_track p psn a w = do {
     let pdc = w_pdc w ! p;
     (ok, bm) \<leftarrow> bm_set (rx_bm pdc) (psn_idx psn (rx_bm_base_psn pdc)) (Some a);
     Some (ok, upd_pdc p (\<lambda>pdc. pdc\<lparr>rx_bm := bm\<rparr>) w) }"

text \<open>The in-order delivery of ROD: from the base of the window up to the first gap.\<close>

fun rod_deliver :: "pds_ctx \<Rightarrow> nat \<Rightarrow> nat \<Rightarrow> nat \<Rightarrow> pds_world \<Rightarrow> pds_world option" where
  "rod_deliver cx p i 0 w = Some w"
| "rod_deliver cx p i (Suc n) w = do {
     (found, d) \<leftarrow> bm_get (rx_bm (w_pdc w ! p)) (int i) None;
     if \<not> found then Some w
     else do {
       a \<leftarrow> d;
       k \<leftarrow> w_pkts w a;
       if reordered k then rod_deliver cx p (Suc i) n w
       else do {
         (rc, w) \<leftarrow> uet_pds_upcall_ses_rx_req cx p a w;
         if rc \<noteq> 0 then do {
           w \<leftarrow> rx_untrack p (int i) w;
           uet_pds_free_pdc_pkt a w }
         else do {
           k \<leftarrow> w_pkts w a;
           rod_deliver cx p (Suc i) n (put_pkt a (k\<lparr>reordered := True\<rparr>) w) } } } }"

definition uet_pds_process_data_pkt :: "pds_ctx \<Rightarrow> nat \<Rightarrow> nat \<Rightarrow> pds_world \<Rightarrow> (int \<times> pds_world) option" where
  "uet_pds_process_data_pkt cx p a w = do {
     k \<leftarrow> w_pkts w a;
     if pds_type (pkt_pp k) = UET_PDS_TYPE_RUD_REQ then do {
       (rc, w) \<leftarrow> uet_pds_upcall_ses_rx_req cx p a w;
       if rc \<noteq> 0 then do {
         w \<leftarrow> rx_untrack p (psn_idx (pds_psn (pkt_pp k)) (rx_bm_base_psn (w_pdc w ! p))) w;
         Some (rc, w) }
       else do {
         w \<leftarrow> uet_pds_shift_rx_window p w;
         Some (0, w) } }
     else do {
       w \<leftarrow> (if pds_type (pkt_pp k) = UET_PDS_TYPE_ROD_REQ then do {
              m \<leftarrow> bm_max (rx_bm (w_pdc w ! p));
              rod_deliver cx p 0 (nat (m + 1)) w }
            else Some w);
       w \<leftarrow> uet_pds_shift_rx_window p w;
       Some (0, w) } }"

definition uet_pds_process_syn_pkt :: "pds_ctx \<Rightarrow> nat \<Rightarrow> pds_world \<Rightarrow> (int \<times> pds_world) option" where
  "uet_pds_process_syn_pkt cx a w = do {
     k \<leftarrow> w_pkts w a;
     let pp = pkt_pp k;
     (r, w) \<leftarrow> uet_pdsm_assign_tgt_pdc cx pp w;
     (case tr_pdc r of
        None \<Rightarrow> do {
          (rc, w) \<leftarrow> uet_pds_tx_nack cx None pp (tr_nack_code r) (tr_nack_payload r) w;
          Some (tr_rc r, w) }
      | Some p \<Rightarrow> do {
          (rc, rtx, w) \<leftarrow> uet_pds_check_duplicate_and_rtx cx p a w;
          if rc \<noteq> 0 then Some (rc, w)
          else if rtx then Some (- EEXIST, w)
          else do {
            (ok, w) \<leftarrow> rx_track p (pds_psn pp) a w;
            if \<not> ok then Some (- ERANGE, w)
            else uet_pds_process_data_pkt cx p a w } }) }"

definition uet_pds_check_pkt_src :: "uet_pdc \<Rightarrow> uet_parsed_pkt \<Rightarrow> bool option" where
  "uet_pds_check_pkt_src pdc pp =
     (if pp_is_ipv6 pp \<noteq> pdc_ipv6 pdc then Some False
      else do {
        a \<leftarrow> pp_ipaddr (pp_is_ipv6 pp) pp 0;
        Some (a = fa_net (pp_is_ipv6 pp) (dst_addr pdc)) })"

text \<open>The checks of a request that is not a SYN and its processing on the PDC \<open>p\<close>.\<close>

definition req_on_pdc :: "pds_ctx \<Rightarrow> nat \<Rightarrow> nat \<Rightarrow> uet_parsed_pkt \<Rightarrow> pds_world \<Rightarrow> (int \<times> pds_world) option" where
  "req_on_pdc cx p a pp w = do {
     let pdc = w_pdc w ! p;
     let nack = (\<lambda>code. do { (rc, w) \<leftarrow> uet_pds_tx_nack cx (Some p) pp code 0 w; Some (- EINVAL, w) });
     src_ok \<leftarrow> uet_pds_check_pkt_src pdc pp;
     if \<not> src_ok then nack UET_NACK_PDC_HDR_MISMATCH
     else if pds_spdcid pp \<noteq> dpdcid pdc then nack UET_NACK_PDC_HDR_MISMATCH
     else if \<not> is_initiator pdc \<and> pdc_state pdc = PDC_STATE_CLOSING \<and> UET_PDS_PSN_AFTER (pds_psn pp) (close_cmd_psn pdc)
       then nack UET_NACK_CLOSING
     else do {
       (rc, rtx, w) \<leftarrow> uet_pds_check_duplicate_and_rtx cx p a w;
       if rc \<noteq> 0 then Some (rc, w)
       else if rtx then Some (- EEXIST, w)
       else if is_initiator (w_pdc w ! p) \<and> pdc_state (w_pdc w ! p) = PDC_STATE_CLOSING then Some (- EINVAL, w)
       else do {
         (ok, w) \<leftarrow> rx_track p (pds_psn pp) a w;
         if \<not> ok then Some (- ERANGE, w)
         else uet_pds_process_data_pkt cx p a w } } }"

definition uet_pds_process_request :: "pds_ctx \<Rightarrow> uet_parsed_pkt \<Rightarrow> bytes \<Rightarrow> nat \<Rightarrow> pds_world \<Rightarrow> (int \<times> pds_world) option" where
  "uet_pds_process_request cx pp pkt len w =
     (if pds_type pp \<noteq> UET_PDS_TYPE_RUD_REQ \<and> pds_type pp \<noteq> UET_PDS_TYPE_ROD_REQ then do {
        (rc, w) \<leftarrow> uet_pds_tx_nack cx None pp UET_NACK_PDC_MODE_MISMATCH 0 w;
        Some (- EINVAL, w) }
      else let (ao, w) = uet_pds_alloc_pdc_pkt cx 0 UET_PDS_ACK_BUF_LEN w in
      case ao of None \<Rightarrow> do {
          (rc, w) \<leftarrow> uet_pds_tx_nack cx None pp UET_NACK_NO_PKT_BUF 0 w;
          Some (- ENOMEM, w) }
      | Some a \<Rightarrow> do {
          k \<leftarrow> w_pkts w a;
          let w = put_pkt a (k\<lparr>pk_psn := pds_psn pp, pk_msg_id := ses_msg_id pp, pk_pkt := 0, pk_pkt_len := len,
                    pkt_buf := Some pkt, pkt_pp := pp, pkt_parsed := True\<rparr>) w;
          (rc, w) \<leftarrow> (if pds_flags pp AND UET_PDS_REQ_FLAGS_SYN \<noteq> 0 then uet_pds_process_syn_pkt cx a w
             else case uet_pdsm_get_pdc (pds_dpdcid pp) False w of
                 (rc, None) \<Rightarrow> do {
                   (rc, w) \<leftarrow> uet_pds_tx_nack cx None pp UET_NACK_INV_DPDCID 0 w;
                   Some (- ENODEV, w) }
               | (rc, Some p) \<Rightarrow> req_on_pdc cx p a pp w);
          if rc = 0 then Some (0, w)
          else do {
            w \<leftarrow> uet_pds_free_pdc_pkt a w;
            Some (rc, w) } })"

end
