(* ===== verification/PdsCtl.thy ===== *)
theory PdsCtl
  imports PdsRx
begin

unbundle bit_operations_syntax

text \<open>
  The handlers of ACKs, NACKs and control packets of \<open>src/uet_pds.c\<close>, the reception of a frame,
  the initialisation and the shutdown of the engine, and the close-wait loop of an endpoint.
\<close>

section \<open>The transmit window\<close>

text \<open>\<open>while (true)\<close>: acknowledged packets leave the window at its base.\<close>

fun shift_tx_loop :: "nat \<Rightarrow> nat \<Rightarrow> pds_world \<Rightarrow> pds_world option" where
  "shift_tx_loop 0 p w = None"
| "shift_tx_loop (Suc fuel) p w = do {
     let pdc = w_pdc w ! p;
     (found, d) \<leftarrow> bm_get (tx_bm pdc) 0 None;
     if \<not> found then Some w
     else do {
       a \<leftarrow> d;
       k \<leftarrow> w_pkts w a;
       if \<not> tx_pkt_acked k then Some w
       else do {
         bm \<leftarrow> bm_shift_right (tx_bm pdc) 1;
         let w = upd_pdc p (\<lambda>pdc. pdc\<lparr>tx_bm := bm, tx_bm_base_psn := tx_bm_base_psn pdc + 1\<rparr>) w;
         w \<leftarrow> uet_pds_free_pdc_pkt a w;
         shift_tx_loop fuel p w } } }"

definition uet_pds_shift_tx_window :: "nat \<Rightarrow> pds_world \<Rightarrow> pds_world option" where
  "uet_pds_shift_tx_window p w = shift_tx_loop (UET_DEFAULT_MP_RANGE + 1) p w"

definition sack_step :: "nat \<Rightarrow> uet_parsed_pkt \<Rightarrow> nat \<Rightarrow> pds_world \<Rightarrow> pds_world option" where
  "sack_step p pp i w =
     (let pdc = w_pdc w ! p; psn = pds_sack_base_psn pp + word_of_nat i;
          idx = UET_PDS_PSN_OFFSET psn (tx_bm_base_psn pdc) in
      if UET_PDS_PSN_AFTER_EQ (max_cack_psn pdc) psn then Some w
      else if \<not> bit (pds_sack_bitmap pp) i then Some w
      else if idx < 0 then Some w
      else do {
        (found, d) \<leftarrow> bm_get (tx_bm pdc) idx None;
        if \<not> found then Some w
        else do {
          a \<leftarrow> d;
          k \<leftarrow> w_pkts w a;
          Some (put_pkt a (k\<lparr>dst_recvd := True\<rparr>) w) } })"

definition uet_pds_process_sack_bitmap :: "nat \<Rightarrow> uet_parsed_pkt \<Rightarrow> pds_world \<Rightarrow> pds_world option" where
  "uet_pds_process_sack_bitmap p pp w = foldM (sack_step p pp) [0..<64] w"

text \<open>A packet is acknowledged: it leaves the retransmission list.\<close>

definition mark_acked :: "nat \<Rightarrow> nat \<Rightarrow> pds_world \<Rightarrow> pds_world option" where
  "mark_acked p a w = do {
     k \<leftarrow> w_pkts w a;
     tx_unlist p a (put_pkt a (k\<lparr>tx_pkt_acked := True\<rparr>) w) }"

definition cack_step :: "pds_ctx \<Rightarrow> nat \<Rightarrow> nat \<Rightarrow> pds_world \<Rightarrow> pds_world option" where
  "cack_step cx p i w = do {
     (found, d) \<leftarrow> bm_get (tx_bm (w_pdc w ! p)) (int i) None;
     if \<not> found then Some w
     else do {
       a \<leftarrow> d;
       k \<leftarrow> w_pkts w a;
       if tx_pkt_acked k then Some w
       else do {
         w \<leftarrow> mark_acked p a w;
         (rc, w) \<leftarrow> up_rx_rsp cx (tx_pkt_handle k) None w;
         Some w } } }"

definition uet_pds_process_cack :: "pds_ctx \<Rightarrow> nat \<Rightarrow> uet_parsed_pkt \<Rightarrow> pds_world \<Rightarrow> pds_world option" where
  "uet_pds_process_cack cx p pp w = do {
     let w = upd_pdc p (\<lambda>pdc. pdc\<lparr>max_cack_psn := UET_PDS_UPDATE_PSN (max_cack_psn pdc) (pds_cack_psn pp)\<rparr>) w;
     let shift_count = UET_PDS_PSN_OFFSET (max_cack_psn (w_pdc w ! p) + 1) (tx_bm_base_psn (w_pdc w ! p));
     foldM (cack_step cx p) [0..<nat shift_count] w }"

definition uet_pds_process_mpr :: "uet_pdc \<Rightarrow> uet_parsed_pkt \<Rightarrow> uet_pdc" where
  "uet_pds_process_mpr pdc pp =
     (if mpr_update_valid pdc \<and> \<not> UET_PDS_PSN_AFTER (pds_cack_psn pp) (mpr_update_cack_psn pdc) then pdc
      else pdc\<lparr>peer_mp_range := uet_pds_decode_mpr (pds_mpr pp), mpr_update_cack_psn := pds_cack_psn pp,
               mpr_update_valid := True\<rparr>)"

section \<open>ACKs\<close>

text \<open>The packet an ACK names: \<open>Inl\<close> the error, \<open>Inr None\<close> a duplicate, \<open>Inr (Some a)\<close> a packet
  that was not acknowledged.\<close>

definition ack_lookup :: "nat \<Rightarrow> uet_parsed_pkt \<Rightarrow> pds_world \<Rightarrow> (int + nat option) option" where
  "ack_lookup p pp w =
     (let pdc = w_pdc w ! p in
      if UET_PDS_PSN_AFTER (tx_bm_base_psn pdc) (pds_psn pp) then Some (Inr None)
      else if \<not> PSN_IN_MPR (pds_psn pp) (tx_bm_base_psn pdc) then Some (Inl (- EINVAL))
      else do {
        (found, d) \<leftarrow> bm_get (tx_bm pdc) (psn_idx (pds_psn pp) (tx_bm_base_psn pdc)) None;
        if \<not> found then Some (Inl (- EINVAL))
        else do {
          a \<leftarrow> d;
          k \<leftarrow> w_pkts w a;
          Some (Inr (if tx_pkt_acked k then None else Some a)) } })"

text \<open>The ACK of the close command: the Expected_PSN is adopted and the PDC is freed.\<close>

definition close_acked :: "pds_ctx \<Rightarrow> nat \<Rightarrow> uet_parsed_pkt \<Rightarrow> pds_world \<Rightarrow> (int \<times> pds_world) option" where
  "close_acked cx p pp w = do {
     let pdc = w_pdc w ! p;
     let w = (if sec_enabled pdc \<and> pds_psn_method cx = UET_PDS_PSN_METHOD_0RTT \<and> pds_flags pp AND UET_PDS_ACK_FLAGS_EPSN \<noteq> 0
                \<and> UET_PDS_PSN_AFTER (pds_payload pp) (uet_sec_sd_get_ini_start_psn (w_sec w) (pdc_sdi pdc))
              then w\<lparr>w_sec := uet_sec_sd_set_ini_start_psn (w_sec w) (pdc_sdi pdc) (pds_payload pp)\<rparr> else w);
     w \<leftarrow> uet_pds_shift_tx_window p w;
     w \<leftarrow> uet_pdsm_free_pdc p w;
     Some (0, w) }"

text \<open>What follows a new ACK: the upcall, the window, a clear and a pending close.\<close>

definition ack_finish :: "pds_ctx \<Rightarrow> nat \<Rightarrow> nat \<Rightarrow> uet_parsed_pkt \<Rightarrow> pds_world \<Rightarrow> (int \<times> pds_world) option" where
  "ack_finish cx p a pp w = do {
     let w = (if pdc_state (w_pdc w ! p) = PDC_STATE_SYN
              then upd_pdc p (\<lambda>pdc. pdc\<lparr>pdc_state := PDC_STATE_ESTABLISHED, dpdcid := pds_spdcid pp\<rparr>) w else w);
     (rc, w) \<leftarrow> (if next_hdr pp \<noteq> UET_HDR_NONE then do {
                   k \<leftarrow> w_pkts w a;
                   up_rx_rsp cx (tx_pkt_handle k) (Some pp) w }
                 else Some (0, w));
     if rc \<noteq> 0 then Some (rc, w)
     else do {
       w \<leftarrow> uet_pds_shift_tx_window p w;
       let pdc = w_pdc w ! p;
       w \<leftarrow> (if is_initiator pdc \<and> pds_flags pp AND UET_PDS_ACK_FLAGS_REQ_CLR \<noteq> 0
            then map_option snd (uet_pds_send_ctrl_pkt cx p UET_PDS_CTRL_TYPE_CLEAR (tx_bm_base_psn pdc - 1) None w)
            else Some w);
       let pdc = w_pdc w ! p;
       w \<leftarrow> (if pdc_state pdc = PDC_STATE_ESTABLISHED \<and> is_initiator pdc \<and> close_requested pdc \<and> \<not> close_started pdc
              \<and> \<not> active_msg_id_valid pdc
            then map_option snd (uet_pds_initiate_pdc_close cx p w) else Some w);
       Some (0, w) } }"

definition uet_pds_process_ack :: "pds_ctx \<Rightarrow> uet_parsed_pkt \<Rightarrow> pds_world \<Rightarrow> (int \<times> pds_world) option" where
  "uet_pds_process_ack cx pp w =
     (case uet_pdsm_get_pdc (pds_dpdcid pp) False w of
        (rc, None) \<Rightarrow> Some (rc, w)
      | (rc, Some p) \<Rightarrow> do {
          let pdc = w_pdc w ! p;
          src_ok \<leftarrow> uet_pds_check_pkt_src pdc pp;
          if \<not> src_ok then Some (- EINVAL, w)
          else if pdc_state pdc \<noteq> PDC_STATE_SYN \<and> dpdcid pdc \<noteq> pds_spdcid pp then Some (- EINVAL, w)
          else if UET_PDS_PSN_AFTER (pds_cack_psn pp) (next_psn pdc - 1) then Some (- EINVAL, w)
          else do {
            l \<leftarrow> ack_lookup p pp w;
            (case l of Inl rc \<Rightarrow> Some (rc, w)
             | Inr ao \<Rightarrow> do {
                 w \<leftarrow> (case ao of None \<Rightarrow> Some w | Some a \<Rightarrow> mark_acked p a w);
                 let w = (if is_cc_ack (pds_type pp) then upd_pdc p (\<lambda>pdc. uet_pds_process_mpr pdc pp) w else w);
                 w \<leftarrow> uet_pds_process_cack cx p pp w;
                 w \<leftarrow> (if is_cc_ack (pds_type pp) then uet_pds_process_sack_bitmap p pp w else Some w);
                 (case ao of
                    None \<Rightarrow> do { w \<leftarrow> uet_pds_shift_tx_window p w; Some (0, w) }
                  | Some a \<Rightarrow>
                      if pdc_state (w_pdc w ! p) = PDC_STATE_CLOSING \<and> pds_psn pp = close_cmd_psn (w_pdc w ! p)
                      then close_acked cx p pp w
                      else ack_finish cx p a pp w) }) } })"

section \<open>NACKs\<close>

datatype nack_action_t = UET_NACK_ACTION_DROP | UET_NACK_ACTION_RETX | UET_NACK_ACTION_CLOSE

definition uet_pds_nack_action :: "u8 \<Rightarrow> nack_action_t" where
  "uet_pds_nack_action code =
     (if code \<in> {UET_NACK_TRIMMED, UET_NACK_TRIMMED_LAST_HOP, UET_NACK_TRIMMED_ACK, UET_NACK_NO_PDC_AVAIL,
                 UET_NACK_NO_CCC_AVAIL, UET_NACK_NO_BITMAP, UET_NACK_NO_PKT_BUF, UET_NACK_NO_GTD_DEL_AVAIL,
                 UET_NACK_NO_SES_MSG_AVAIL, UET_NACK_NO_RESOURCE, UET_NACK_PSN_OOR_WINDOW, UET_NACK_ROD_OOO,
                 UET_NACK_PKT_NOT_RCVD, UET_NACK_ACK_WITH_DATA, UET_NACK_NEW_START_PSN, UET_NACK_RCVR_INFER_LESS,
                 UET_NACK_EXP_NACK_NORMAL, UET_NACK_EXP_NACK_ERR} then UET_NACK_ACTION_RETX
      else if code \<in> {UET_NACK_INV_DPDCID, UET_NACK_PDC_HDR_MISMATCH, UET_NACK_CLOSING, UET_NACK_CLOSING_IN_ERR,
                      UET_NACK_GTD_RESP_UNAVAIL, UET_NACK_INVALID_SYN, UET_NACK_PDC_MODE_MISMATCH,
                      UET_NACK_UNEXP_EVENT, UET_NACK_EXP_NACK_FATAL} then UET_NACK_ACTION_CLOSE
      else UET_NACK_ACTION_DROP)"

text \<open>One queued packet gets its shifted PSN and is sent again.\<close>

definition restamp :: "u32 \<Rightarrow> uet_pdc_pkt \<Rightarrow> uet_pdc_pkt option" where
  "restamp delta k = (if \<not> pkt_parsed k then None else do {
     let psn = pk_psn k + delta;
     b \<leftarrow> pkt_buf k;
     b \<leftarrow> wr b (pk_pkt k + pp_pds (pkt_pp k) + 4) (be32 psn);
     let pp = pkt_pp k;
     Some (k\<lparr>pk_psn := psn, pkt_pp := pp\<lparr>pds_psn := psn\<rparr>, pkt_buf := Some b, tx_retry_cnt := 0\<rparr>) })"

definition redrive_step :: "pds_ctx \<Rightarrow> nat \<Rightarrow> u32 \<Rightarrow> nat \<Rightarrow> pds_world \<Rightarrow> (unit option \<times> pds_world) option" where
  "redrive_step cx p delta a w = do {
     k \<leftarrow> w_pkts w a;
     if tx_pkt_acked k then Some (None, w)
     else do {
       k \<leftarrow> restamp delta k;
       (rc, k, w) \<leftarrow> uet_pds_sec_tx_pkt cx (w_pdc w ! p) k True True w;
       Some (None, put_pkt a k w) } }"

definition uet_pds_reestablish_start_psn :: "pds_ctx \<Rightarrow> nat \<Rightarrow> u32 \<Rightarrow> pds_world \<Rightarrow> pds_world option" where
  "uet_pds_reestablish_start_psn cx p new_start_psn w =
     (let pdc = w_pdc w ! p; delta = new_start_psn - start_psn pdc in
      if pdc_state pdc \<noteq> PDC_STATE_SYN then Some w
      else if delta = 0 then Some w
      else do {
        let w = upd_pdc p (\<lambda>pdc. pdc\<lparr>start_psn := start_psn pdc + delta, next_psn := next_psn pdc + delta,
            tx_bm_base_psn := tx_bm_base_psn pdc + delta, rx_bm_base_psn := rx_bm_base_psn pdc + delta,
            max_cack_psn := max_cack_psn pdc + delta\<rparr>) w;
        let xs = tx_pkt_list (w_pdc w ! p);
        (r, w) \<leftarrow> foreach_safe (length xs) (\<lambda>w. tx_pkt_list (w_pdc w ! p)) (redrive_step cx p delta) (dfirst xs) w;
        Some w })"

text \<open>The retransmission a NACK asks for.\<close>

definition nack_retx :: "pds_ctx \<Rightarrow> nat \<Rightarrow> uet_parsed_pkt \<Rightarrow> pds_world \<Rightarrow> (int \<times> pds_world) option" where
  "nack_retx cx p pp w = do {
     let pdc = w_pdc w ! p;
     (found, d) \<leftarrow> bm_get (tx_bm pdc) (psn_idx (pds_psn pp) (tx_bm_base_psn pdc)) None;
     if \<not> found then Some (- EINVAL, w)
     else do {
       a \<leftarrow> d;
       k \<leftarrow> w_pkts w a;
       if tx_pkt_acked k then Some (0, w)
       else if \<not> dst_recvd k \<and> \<not> uet_pds_tx_psn_allowed pdc (pk_psn k) then Some (0, w)
       else if tx_retry_cnt k \<ge> max_tx_retries (c_uet cx) then do {
         w \<leftarrow> uet_pds_close_pdc_in_error cx p w;
         Some (0, w) }
       else do {
         (rc, w) \<leftarrow> uet_pds_rtx_pkt cx p a w;
         if rc = - EAGAIN then Some (0, w)
         else if rc \<noteq> 0 then Some (rc, w)
         else do {
           w \<leftarrow> tx_unlist p a w;
           Some (0, upd_pdc p (\<lambda>pdc. pdc\<lparr>tx_pkt_list := tx_pkt_list pdc @ [a]\<rparr>) w) } } } }"

definition uet_pds_process_nack :: "pds_ctx \<Rightarrow> uet_parsed_pkt \<Rightarrow> pds_world \<Rightarrow> (int \<times> pds_world) option" where
  "uet_pds_process_nack cx pp w =
     (case uet_pdsm_get_pdc (pds_dpdcid pp) False w of
        (rc, None) \<Rightarrow> Some (rc, w)
      | (rc, Some p) \<Rightarrow> do {
          let pdc = w_pdc w ! p;
          src_ok \<leftarrow> uet_pds_check_pkt_src pdc pp;
          if \<not> src_ok then Some (- EINVAL, w)
          else if pds_nack_code pp = UET_NACK_NEW_START_PSN
            then map_option (Pair 0) (uet_pds_reestablish_start_psn cx p (pds_payload pp) w)
          else if uet_pds_nack_action (pds_nack_code pp) = UET_NACK_ACTION_DROP then Some (- EINVAL, w)
          else if UET_PDS_PSN_AFTER (tx_bm_base_psn pdc) (pds_psn pp) \<or> UET_PDS_PSN_AFTER (pds_psn pp) (next_psn pdc - 1)
            then Some (- EINVAL, w)
          else do {
            let w = (if pdc_state pdc = PDC_STATE_SYN \<and> pds_spdcid pp \<noteq> 0
                     then upd_pdc p (\<lambda>pdc. pdc\<lparr>pdc_state := PDC_STATE_ESTABLISHED, dpdcid := pds_spdcid pp\<rparr>) w else w);
            if uet_pds_nack_action (pds_nack_code pp) = UET_NACK_ACTION_CLOSE
            then map_option (Pair 0) (uet_pds_close_pdc_in_error cx p w)
            else nack_retx cx p pp w } })"

section \<open>Control packets\<close>

definition uet_pds_process_ack_req_cp :: "pds_ctx \<Rightarrow> nat \<Rightarrow> uet_parsed_pkt \<Rightarrow> pds_world \<Rightarrow> (int \<times> pds_world) option" where
  "uet_pds_process_ack_req_cp cx p pp w =
     (let pdc = w_pdc w ! p in
      if \<not> PSN_IN_MPR (pds_psn pp) (rx_bm_base_psn pdc) then Some (- EINVAL, w)
      else do {
        (found, d) \<leftarrow> bm_get (rx_bm pdc) (psn_idx (pds_psn pp) (rx_bm_base_psn pdc)) None;
        if \<not> found then do {
          (rc, w) \<leftarrow> uet_pds_tx_nack cx (Some p) pp UET_NACK_PKT_NOT_RCVD 0 w;
          Some (0, w) }
        else do {
          a \<leftarrow> d;
          k \<leftarrow> w_pkts w a;
          if pk_ack k \<noteq> None then resend_ack cx p a w
          else if pds_type (pkt_pp k) = UET_PDS_TYPE_ROD_REQ \<and> \<not> reordered k
            then uet_pds_tx_nack cx (Some p) pp UET_NACK_RCVD_SES_PROCG 0 w
          else send_def_rsp cx p a w } })"

definition tx_plain_ack :: "pds_ctx \<Rightarrow> nat \<Rightarrow> nat \<Rightarrow> pds_world \<Rightarrow> (int \<times> pds_world) option" where
  "tx_plain_ack cx p a w = do {
     k \<leftarrow> w_pkts w a;
     (rc, k, pdc, w) \<leftarrow> uet_pds_tx_ack_pkt cx (w_pdc w ! p) k UET_HDR_NONE [] w;
     Some (rc, upd_pdc p (\<lambda>_. pdc) (put_pkt a k w)) }"

text \<open>A new close request: it is tracked, acknowledged, and the close starts.\<close>

definition accept_close_req :: "pds_ctx \<Rightarrow> nat \<Rightarrow> uet_parsed_pkt \<Rightarrow> pds_world \<Rightarrow> (int \<times> pds_world) option" where
  "accept_close_req cx p pp w =
     (let (ao, w) = uet_pds_alloc_pdc_pkt cx 0 UET_PDS_ACK_BUF_LEN w in
      case ao of None \<Rightarrow> Some (- ENOMEM, w)
      | Some a \<Rightarrow> do {
          k \<leftarrow> w_pkts w a;
          let w = put_pkt a (k\<lparr>pk_psn := pds_psn pp, pkt_pp := pp, pkt_parsed := True, needs_clear := False,
                    reordered := True\<rparr>) w;
          (ok, w) \<leftarrow> rx_track p (pds_psn pp) a w;
          if \<not> ok then do { w \<leftarrow> uet_pds_free_pdc_pkt a w; Some (- ERANGE, w) }
          else do {
            let w = upd_pdc p (\<lambda>pdc. pdc\<lparr>close_requested := True,
                max_rcvd_psn := UET_PDS_UPDATE_PSN (max_rcvd_psn pdc) (pds_psn pp),
                prev_ar_psn := (if pds_flags pp AND UET_PDS_CTRL_FLAGS_AR \<noteq> 0
                  then UET_PDS_UPDATE_PSN (prev_ar_psn pdc) (pds_psn pp) else prev_ar_psn pdc)\<rparr>) w;
            (rc, w) \<leftarrow> tx_plain_ack cx p a w;
            (rc, w) \<leftarrow> uet_pds_initiate_pdc_close cx p w;
            Some (0, w) } })"

definition uet_pds_process_close_req_cp :: "pds_ctx \<Rightarrow> nat \<Rightarrow> uet_parsed_pkt \<Rightarrow> pds_world \<Rightarrow> (int \<times> pds_world) option" where
  "uet_pds_process_close_req_cp cx p pp w =
     (let pdc = w_pdc w ! p in
      if \<not> is_initiator pdc then do {
        (rc, w) \<leftarrow> uet_pds_tx_nack cx (Some p) pp UET_NACK_UNEXP_EVENT 0 w;
        Some (- EINVAL, w) }
      else if PSN_IN_PRIOR_MPR (pds_psn pp) (rx_bm_base_psn pdc) then
        (let (ao, w) = uet_pds_alloc_pdc_pkt cx 0 UET_PDS_ACK_BUF_LEN w in
         case ao of None \<Rightarrow> Some (- ENOMEM, w)
         | Some a \<Rightarrow> do {
             k \<leftarrow> w_pkts w a;
             (rc, w) \<leftarrow> tx_plain_ack cx p a (put_pkt a (k\<lparr>pkt_pp := pp\<rparr>) w);
             w \<leftarrow> uet_pds_free_pdc_pkt a w;
             Some (rc, w) })
      else if \<not> PSN_IN_MPR (pds_psn pp) (rx_bm_base_psn pdc) then do {
        (rc, w) \<leftarrow> uet_pds_tx_nack cx (Some p) pp UET_NACK_PSN_OOR_WINDOW 0 w;
        Some (- EINVAL, w) }
      else do {
        (found, d) \<leftarrow> bm_get (rx_bm pdc) (psn_idx (pds_psn pp) (rx_bm_base_psn pdc)) None;
        if found then do {
          a \<leftarrow> d;
          resend_ack cx p a w }
        else accept_close_req cx p pp w })"

text \<open>The Expected_PSN of the domain moves past the Start_PSN of the closed PDC.\<close>

definition close_expected_psn :: "uet_pdc \<Rightarrow> pds_world \<Rightarrow> u32 \<times> pds_world" where
  "close_expected_psn pdc w =
     (let e = uet_sec_sd_get_tgt_start_psn (w_sec w) (pdc_sdi pdc) in
      if UET_PDS_PSN_AFTER_EQ (start_psn pdc) e
      then (start_psn pdc + 1, w\<lparr>w_sec := uet_sec_sd_set_tgt_start_psn (w_sec w) (pdc_sdi pdc) (start_psn pdc + 1)\<rparr>)
      else (e, w))"

definition close_cmd_ack :: "pds_ctx \<Rightarrow> nat \<Rightarrow> nat \<Rightarrow> pds_world \<Rightarrow> pds_world option" where
  "close_cmd_ack cx p a w =
     (let pdc = w_pdc w ! p in
      if sec_enabled pdc \<and> pds_psn_method cx = UET_PDS_PSN_METHOD_0RTT then do {
        let (e, w) = close_expected_psn pdc w;
        k \<leftarrow> w_pkts w a;
        (rc, k, w) \<leftarrow> uet_pds_tx_close_ack_epsn cx pdc k e w;
        Some (put_pkt a k w) }
      else map_option snd (tx_plain_ack cx p a w))"

definition uet_pds_process_close_command_cp :: "pds_ctx \<Rightarrow> nat \<Rightarrow> uet_parsed_pkt \<Rightarrow> pds_world \<Rightarrow> (int \<times> pds_world) option" where
  "uet_pds_process_close_command_cp cx p pp w =
     (let pdc = w_pdc w ! p in
      if is_initiator pdc then do {
        (rc, w) \<leftarrow> uet_pds_tx_nack cx (Some p) pp UET_NACK_UNEXP_EVENT 0 w;
        Some (- EINVAL, w) }
      else if \<not> UET_PDS_PSN_AFTER (pds_psn pp) (cack_psn pdc) then do {
        (rc, w) \<leftarrow> uet_pds_tx_nack cx (Some p) pp UET_NACK_PSN_OOR_WINDOW 0 w;
        Some (- EINVAL, w) }
      else let (ao, w) = uet_pds_alloc_pdc_pkt cx 0 UET_PDS_ACK_BUF_LEN w in
      case ao of None \<Rightarrow> Some (- ENOMEM, w)
      | Some a \<Rightarrow> do {
          k \<leftarrow> w_pkts w a;
          let w = put_pkt a (k\<lparr>pkt_pp := pp\<rparr>) w;
          let w = upd_pdc p (\<lambda>pdc. pdc\<lparr>close_started := True, close_cmd_psn := pds_psn pp, pdc_state := PDC_STATE_CLOSING,
              max_clear_psn := max_rcvd_psn pdc, cack_psn := max_rcvd_psn pdc\<rparr>) w;
          w \<leftarrow> uet_pds_shift_rx_window p w;
          n \<leftarrow> bm_count (tx_bm (w_pdc w ! p));
          if n > 0 then do {
            (rc, w) \<leftarrow> uet_pds_tx_nack cx (Some p) pp UET_NACK_CLOSING_IN_ERR (word_of_int n) w;
            w \<leftarrow> uet_pds_free_pdc_pkt a w;
            w \<leftarrow> uet_pds_close_pdc_in_error cx p w;
            Some (- EINVAL, w) }
          else do {
            w \<leftarrow> close_cmd_ack cx p a w;
            w \<leftarrow> uet_pds_free_pdc_pkt a w;
            w \<leftarrow> uet_pdsm_free_pdc p w;
            Some (0, w) } })"

definition uet_pds_process_clear_cp :: "nat \<Rightarrow> uet_parsed_pkt \<Rightarrow> pds_world \<Rightarrow> (int \<times> pds_world) option" where
  "uet_pds_process_clear_cp p pp w = do {
     w \<leftarrow> uet_pds_update_cack p (pds_ctrl_payload pp) w;
     w \<leftarrow> uet_pds_shift_rx_window p w;
     Some (0, w) }"

definition uet_pds_process_control :: "pds_ctx \<Rightarrow> uet_parsed_pkt \<Rightarrow> pds_world \<Rightarrow> (int \<times> pds_world) option" where
  "uet_pds_process_control cx pp w =
     (let err = (\<lambda>po code. if pds_flags pp AND UET_PDS_CTRL_FLAGS_AR \<noteq> 0
            then map_option (\<lambda>(rc, w). (- EINVAL, w)) (uet_pds_tx_nack cx po pp code 0 w) else Some (- EINVAL, w)) in
      case uet_pdsm_get_pdc (pds_dpdcid pp) False w of
        (rc, None) \<Rightarrow> err None UET_NACK_INV_DPDCID
      | (rc, Some p) \<Rightarrow> do {
          let pdc = w_pdc w ! p;
          src_ok \<leftarrow> uet_pds_check_pkt_src pdc pp;
          if \<not> src_ok then err (Some p) UET_NACK_PDC_HDR_MISMATCH
          else if dpdcid pdc \<noteq> pds_spdcid pp then err (Some p) UET_NACK_PDC_HDR_MISMATCH
          else if pdc_state pdc \<noteq> PDC_STATE_ESTABLISHED \<and> pdc_state pdc \<noteq> PDC_STATE_CLOSING
            then err (Some p) UET_NACK_UNEXP_EVENT
          else if pds_ctrl_type pp = UET_PDS_CTRL_TYPE_ACK_REQ then uet_pds_process_ack_req_cp cx p pp w
          else if pds_ctrl_type pp = UET_PDS_CTRL_TYPE_CLOSE_REQ then uet_pds_process_close_req_cp cx p pp w
          else if pds_ctrl_type pp = UET_PDS_CTRL_TYPE_CLOSE then uet_pds_process_close_command_cp cx p pp w
          else if pds_ctrl_type pp = UET_PDS_CTRL_TYPE_CLEAR then uet_pds_process_clear_cp p pp w
          else err (Some p) UET_NACK_UNEXP_EVENT })"

section \<open>Receiving a frame\<close>

text \<open>The buffer holds the frame the NIC wrote and zeros behind it.  \<open>Inl\<close> is the return code when
  no packet is available.\<close>

definition uet_pds_sec_rx_pkt :: "pds_ctx \<Rightarrow> pds_world \<Rightarrow> ((int + bytes \<times> nat) \<times> pds_world) option" where
  "uet_pds_sec_rx_pkt cx w =
     (let rc = o_nic_poll cx (w_tick w); w = tick w in
      if rc \<noteq> 1 then Some (Inl rc, w)
      else let (ok, w) = c_calloc cx w in
      if \<not> ok then Some (Inl (- ENOMEM), w)
      else let (rc, frame, len) = o_nic_rx cx (w_tick w); w = tick w;
               n = max_pkt_size (c_uet cx); b = take n (frame @ replicate n 0) in
      if rc \<noteq> 1 then Some (Inl rc, w)
      else do {
        let (now, w) = sec_now cx w;
        (rc, st, b, tag) \<leftarrow> uet_sec_dec_pkt (uet_ipproto (c_uet cx)) (c_env cx) now (w_sec w) b len;
        let w = w\<lparr>w_sec := st\<rparr>;
        Some (if rc \<noteq> 0 then Inl rc else Inr (b, len), w) })"

definition rx_crc_ok :: "uet_parsed_pkt \<Rightarrow> bytes \<Rightarrow> bool option" where
  "rx_crc_ok pp b = do {
     let (off, n) = (if pp_is_ipv6 pp then (8, 32) else (12, 8));
     d \<leftarrow> rdn b (pp_ip pp + off) (n + unat (ip_payload_len pp) - CRC_LEN);
     c \<leftarrow> rdn b (pp_ip pp + unat (ip_len pp) + unat (ip_payload_len pp) - CRC_LEN) CRC_LEN;
     Some (rev (be32 (crc32c d)) = c) }"

definition rx_dispatch :: "pds_ctx \<Rightarrow> uet_parsed_pkt \<Rightarrow> pkt_kind \<Rightarrow> bytes \<Rightarrow> nat \<Rightarrow> pds_world \<Rightarrow> (int \<times> pds_world) option" where
  "rx_dispatch cx pp kind pkt len w =
     (if pds_type pp = UET_PDS_TYPE_RUDI_REQ \<or> pds_type pp = UET_PDS_TYPE_RUDI_RESP then uet_pds_rudi_rx cx pp w
      else if pds_type pp = UET_PDS_TYPE_UUD_REQ then uet_pds_uud_rx cx pp w
      else if pkt_is_ack kind then uet_pds_process_ack cx pp w
      else if pkt_is_nack kind then uet_pds_process_nack cx pp w
      else if pkt_is_ctrl kind then uet_pds_process_control cx pp w
      else uet_pds_process_request cx pp pkt len w)"

definition uet_pds_progress_rx :: "pds_ctx \<Rightarrow> pds_world \<Rightarrow> (int \<times> pds_world) option" where
  "uet_pds_progress_rx cx w = do {
     PDS_GO w;
     (r, w) \<leftarrow> uet_pds_sec_rx_pkt cx w;
     (case r of Inl rc \<Rightarrow> Some (rc, w)
      | Inr (b, len) \<Rightarrow> do {
          (valid, kind) \<leftarrow> uet_pds_rx_pkt_chk (c_uet cx) b len;
          if \<not> valid then Some (- EINVAL, w)
          else do {
            (rc, pp) \<leftarrow> uet_parse_pkt (c_uet cx) b len;
            if rc \<noteq> 0 then Some (rc, w)
            else do {
              crc_ok \<leftarrow> (if pp_sec pp = None then rx_crc_ok pp b else Some True);
              if \<not> crc_ok then Some (- EINVAL, w) else rx_dispatch cx pp kind b len w } } }) }"

text \<open>The close-wait loop receives until the maximum segment lifetime is over.\<close>

fun close_wait_loop :: "nat \<Rightarrow> pds_ctx \<Rightarrow> int \<Rightarrow> pds_world \<Rightarrow> pds_world option" where
  "close_wait_loop 0 cx start w = None"
| "close_wait_loop (Suc fuel) cx start w =
     (if o_time_fails cx (w_tick w) then Some (tick w)
      else let (now, w) = uet_gettime cx w in
        if now - start > msl (c_uet cx) then Some w
        else do {
          (rc, w) \<leftarrow> uet_pds_progress_rx cx w;
          close_wait_loop fuel cx start w })"

definition uet_pds_ep_close_wait :: "nat \<Rightarrow> pds_ctx \<Rightarrow> pds_world \<Rightarrow> pds_world option" where
  "uet_pds_ep_close_wait fuel cx w =
     (if o_time_fails cx (w_tick w) then Some (tick w)
      else let (start, w) = uet_gettime cx w in close_wait_loop fuel cx start w)"

section \<open>Initialisation and shutdown\<close>

text \<open>\<open>ge\<close> is \<open>getenv\<close>.  A value is cut to the type of the variable it is stored in.\<close>

definition env_int :: "(string \<Rightarrow> string option) \<Rightarrow> string \<Rightarrow> int \<Rightarrow> int" where
  "env_int ge name d = (case ge name of None \<Rightarrow> d | Some s \<Rightarrow> sint (strtoul10 s :: u32))"

definition env_long :: "(string \<Rightarrow> string option) \<Rightarrow> string \<Rightarrow> int \<Rightarrow> int" where
  "env_long ge name d = (case ge name of None \<Rightarrow> d | Some s \<Rightarrow> sint (strtoul10 s :: u64))"

definition create_bm :: "pds_ctx \<Rightarrow> pds_world \<Rightarrow> nat bitmap option \<times> pds_world" where
  "create_bm cx w =
     (let (m, w) = c_calloc cx w; (c1, w) = c_calloc cx w; (c2, w) = c_calloc cx w
      in (bm_create m c1 c2 128, w))"

text \<open>The pool: PDC 0 is reserved.  \<^const>\<open>False\<close> is a failed allocation.\<close>

fun init_pool :: "pds_ctx \<Rightarrow> nat list \<Rightarrow> pds_world \<Rightarrow> bool \<times> pds_world" where
  "init_pool cx [] w = (True, w)"
| "init_pool cx (i # is) w =
     (let w = upd_pdc i (\<lambda>pdc. pdc\<lparr>pdc_state := PDC_STATE_UNALLOC, pdc_id := word_of_nat i\<rparr>) w;
          (t, w) = create_bm cx w in
      case t of None \<Rightarrow> (False, w)
      | Some t \<Rightarrow>
          let w = upd_pdc i (\<lambda>pdc. pdc\<lparr>tx_bm := t\<rparr>) w; (r, w) = create_bm cx w in
          case r of None \<Rightarrow> (False, w)
          | Some r \<Rightarrow>
              let w = upd_pdc i (\<lambda>pdc. pdc\<lparr>rx_bm := r\<rparr>) w in
              init_pool cx is (w\<lparr>w_free := w_free w @ [i]\<rparr>))"

definition pds_state_zero :: "pds_world \<Rightarrow> pds_world" where
  "pds_state_zero w = w\<lparr>w_ready := False, w_pdc := replicate UET_PDC_MAX pdc_zero, w_alloc := [], w_free := [], w_ini_ht := [],
     w_tgt_ht := [], w_msgid_ht := [], new_pdc_timeout_cnt := 0, psn_range_close_cnt := 0, pdc_close_in_err_cnt := 0\<rparr>"

definition init_ack_type :: "(string \<Rightarrow> string option) \<Rightarrow> u8 option" where
  "init_ack_type ge = (case ge ''UET_PDS_ACK_TYPE'' of None \<Rightarrow> Some UET_PDS_TYPE_ACK
     | Some s \<Rightarrow> if s = ''ack'' then Some UET_PDS_TYPE_ACK else if s = ''ack_cc'' then Some UET_PDS_TYPE_ACK_CC
         else if s = ''ack_ccx'' then Some UET_PDS_TYPE_ACK_CCX else None)"

definition init_psn_method :: "(string \<Rightarrow> string option) \<Rightarrow> uet_pds_psn_method_t \<Rightarrow> uet_pds_psn_method_t option" where
  "init_psn_method ge cur = (case ge ''UET_PDS_PSN_METHOD'' of None \<Rightarrow> Some cur
     | Some s \<Rightarrow> if s = ''1rtt'' then Some UET_PDS_PSN_METHOD_1RTT
         else if s = ''0rtt'' then Some UET_PDS_PSN_METHOD_0RTT else None)"

text \<open>\<open>imp\<close> tells whether the impairment shim is enabled.\<close>

definition uet_pds_initialize :: "(string \<Rightarrow> string option) \<Rightarrow> bool \<Rightarrow> pds_ctx \<Rightarrow> pds_world \<Rightarrow> int \<times> pds_ctx \<times> pds_world" where
  "uet_pds_initialize ge imp cx w =
     (let cx = cx\<lparr>pds_pdc_close_thresh := env_int ge ''UET_PDC_CLOSE_THRESH'' (pds_pdc_close_thresh cx),
            pds_pkt_drop_thresh := (if imp then pds_pkt_drop_thresh cx
              else env_int ge ''UET_PKT_DROP_THRESH'' (pds_pkt_drop_thresh cx)),
            pds_new_pdc_time_ms := env_int ge ''UET_NEW_PDC_TIME'' (pds_new_pdc_time_ms cx)\<rparr> in
      case init_psn_method ge (pds_psn_method cx) of None \<Rightarrow> (- EINVAL, cx, w)
      | Some meth \<Rightarrow>
        let uet = (c_uet cx)\<lparr>tx_timeout := env_long ge ''UET_PDS_TX_TIMEOUT'' 5,
              max_tx_retries := env_int ge ''UET_PDS_MAX_TX_RETRIES'' 5, msl := 2000,
              ack_ip_tos := 0xb8, max_ack_data := 16,
              per_pkt_ack_enabled := (case ge ''UET_PDS_PER_PKT_ACK_ENB'' of None \<Rightarrow> False | Some s \<Rightarrow> (strtoul10 s :: u64) \<noteq> 0),
              ack_gen_min_pkt_add := 1024, ack_gen_trigger := 16384\<rparr>;
            cx = cx\<lparr>pds_psn_method := meth, c_uet := uet\<rparr> in
        case init_ack_type ge of None \<Rightarrow> (- EINVAL, cx, w)
        | Some t \<Rightarrow>
          let cx = cx\<lparr>c_uet := uet\<lparr>ack_type := t\<rparr>\<rparr>;
              (ok, w) = init_pool cx [1..<UET_PDC_MAX] (pds_state_zero w) in
          if \<not> ok then (- ENOMEM, cx, w)
          else (0, cx, (uet_pds_rudi_init w)\<lparr>w_ready := True\<rparr>))"

text \<open>Every allocated PDC leaves its hash table; the packets of the windows are not freed.\<close>

fun finalize_alloc :: "nat list \<Rightarrow> pds_world \<Rightarrow> pds_world option" where
  "finalize_alloc [] w = Some w"
| "finalize_alloc (p # ps) w = do {
     w \<leftarrow> (if is_initiator (w_pdc w ! p)
          then map_option (\<lambda>t. w\<lparr>w_ini_ht := t\<rparr>) (unlink p (w_ini_ht w))
          else map_option (\<lambda>t. w\<lparr>w_tgt_ht := t\<rparr>) (unlink p (w_tgt_ht w)));
     finalize_alloc ps (w\<lparr>w_alloc := ps\<rparr>) }"

definition uet_pds_finalize :: "pds_world \<Rightarrow> pds_world option" where
  "uet_pds_finalize w = do {
     PDS_GO w;
     w \<leftarrow> finalize_alloc (w_alloc w) w;
     w \<leftarrow> uet_pds_rudi_finalize w;
     Some (pds_state_zero w) }"

end
