(* ===== verification/PdsInv.thy ===== *)
theory PdsInv
  imports PdsCtl
begin

text \<open>
  What every operation of the packet delivery sublayer keeps of the PDS manager.  The tables of the
  manager are the \<open>pdsm\<close> part of the state.  The locale \<open>pds_law\<close> collects what a property of these
  tables has to satisfy: it survives operations that leave the tables alone, the updates handlers make to a
  context, and releasing and creating a context.  Every entry point of the sublayer then keeps it.
\<close>

section \<open>The tables of the manager\<close>

type_synonym pdsm = "uet_pdc list \<times> nat list \<times> nat list \<times> nat list \<times> nat list"

definition pdsm_of :: "pds_world \<Rightarrow> pdsm" where
  "pdsm_of w = (w_pdc w, w_alloc w, w_free w, w_ini_ht w, w_tgt_ht w)"

text \<open>Handlers change neither the identity nor the direction of a context, never enter the error state
  and keep the shape of its bitmaps.\<close>

definition bm_keeps :: "'d bitmap \<Rightarrow> 'd bitmap \<Rightarrow> bool" where
  "bm_keeps bm bm' \<longleftrightarrow> (bm_wf bm \<longrightarrow> bm_wf bm' \<and> bm_size bm' = bm_size bm)"

definition pdc_keeps :: "uet_pdc \<Rightarrow> uet_pdc \<Rightarrow> bool" where
  "pdc_keeps pdc pdc' \<longleftrightarrow> pdc_id pdc' = pdc_id pdc \<and> is_initiator pdc' = is_initiator pdc
     \<and> bm_keeps (tx_bm pdc) (tx_bm pdc') \<and> bm_keeps (rx_bm pdc) (rx_bm pdc')
     \<and> (pdc_state pdc' = PDC_STATE_ERROR \<longrightarrow> pdc_state pdc = PDC_STATE_ERROR)"

section \<open>Postconditions\<close>

lemma opt_resultD: "pred_option Q m \<Longrightarrow> m = Some x \<Longrightarrow> Q x"
  by simp

lemma opt_resultD2: "pred_option (\<lambda>(a, b). Q a b) m \<Longrightarrow> m = Some (a, b) \<Longrightarrow> Q a b"
  by simp

lemma opt_resultD3: "pred_option (\<lambda>(a, b, c). Q a b c) m \<Longrightarrow> m = Some (a, b, c) \<Longrightarrow> Q a b c"
  by simp

lemma opt_map_option [opt_vcg]: "pred_option (\<lambda>x. Q (f x)) m \<Longrightarrow> pred_option Q (map_option f m)"
  by (cases m) simp_all

lemma opt_let_prod:
  "(\<And>a b. t = (a, b) \<Longrightarrow> pred_option Q (f a b)) \<Longrightarrow> pred_option Q (let (a, b) = t in f a b)"
  by (simp split: prod.splits)

lemma opt_case_sum [opt_vcg]:
  "(\<And>a. x = Inl a \<Longrightarrow> pred_option Q (f a)) \<Longrightarrow> (\<And>b. x = Inr b \<Longrightarrow> pred_option Q (g b))
    \<Longrightarrow> pred_option Q (case x of Inl a \<Rightarrow> f a | Inr b \<Rightarrow> g b)"
  by (cases x) auto

lemma opt_eq: "(\<And>x. m = Some x \<Longrightarrow> Q x) \<Longrightarrow> pred_option Q m"
  by (cases m) simp_all

lemmas opt_rules = opt_let_prod opt_vcg opt_eq

lemma opt_foldM:
  assumes "\<And>i s. pred_option (\<lambda>s'. P s \<longrightarrow> P s') (f i s)"
  shows "pred_option (\<lambda>s'. P s \<longrightarrow> P s') (foldM f xs s)"
proof (induction xs arbitrary: s)
  case (Cons i xs)
  show ?case using assms [of s i] Cons.IH by (cases "f i s") (auto simp: option.pred_set)
qed simp

lemma opt_foreach_safe:
  assumes "\<And>a s. pred_option (\<lambda>(r, s'). P s \<longrightarrow> P s') (body a s)"
  shows "pred_option (\<lambda>(r, s'). P s \<longrightarrow> P s') (foreach_safe fuel xs body c s)"
proof (induction fuel arbitrary: c s)
  case 0
  show ?case by (cases c) simp_all
next
  case (Suc fuel)
  show ?case
  proof (cases c)
    case (Some a)
    then show ?thesis using assms [of s a]
      by (auto intro!: opt_eq simp: bind_eq_Some_conv split: option.splits dest!: Suc.IH [THEN opt_resultD])
  qed simp
qed

section \<open>Bitmaps\<close>

lemma aset_length: "aset a i x = Some b \<Longrightarrow> length b = length a"
  by (auto simp: aset_def split: if_splits)

lemma foldM_length:
  "(\<And>i a b. step i a = Some b \<Longrightarrow> length b = length a) \<Longrightarrow> foldM step is a = Some b \<Longrightarrow> length b = length a"
  by (induction "is" arbitrary: a) (auto split: option.splits)

lemma bm_keeps_refl [simp]: "bm_keeps bm bm"
  by (simp add: bm_keeps_def)

lemma bm_keeps_clear [simp]: "bm_keeps bm (bm_clear bm)"
  by (simp add: bm_keeps_def bm_clear_ok)

lemma bm_keeps_set: "bm_set bm i d = Some (ok, bm') \<Longrightarrow> bm_keeps bm bm'"
  by (auto simp: bm_keeps_def bm_set_def Let_def bm_wf_def bind_eq_Some_conv dest: aset_length split: if_splits)

lemma bm_keeps_unset: "bm_unset bm i = Some bm' \<Longrightarrow> bm_keeps bm bm'"
  by (auto simp: bm_keeps_def bm_unset_def Let_def bm_wf_def bind_eq_Some_conv dest: aset_length split: if_splits)

lemma bm_keeps_shift: "bm_shift_right bm s = Some bm' \<Longrightarrow> bm_keeps bm bm'"
  by (auto simp: bm_keeps_def bm_shift_right_def Let_def bm_wf_def bind_eq_Some_conv
    dest!: foldM_length [rotated] dest: aset_length split: if_splits)

section \<open>Operations that leave the tables alone\<close>

text \<open>An operation that touches no table of the manager; the counter of the requests to the environment only grows.\<close>

definition same :: "pds_world \<Rightarrow> pds_world \<Rightarrow> bool" where
  "same w w' \<longleftrightarrow> pdsm_of w' = pdsm_of w \<and> w_ready w' = w_ready w \<and> w_tick w \<le> w_tick w'"

named_theorems pdsm_same

lemma pdsm_of_prims [simp]:
  "pdsm_of (tick w) = pdsm_of w" "pdsm_of (log_ev e w) = pdsm_of w" "pdsm_of (put_pkt a k w) = pdsm_of w"
  "pdsm_of (w\<lparr>w_sec := st\<rparr>) = pdsm_of w" "pdsm_of (w\<lparr>w_pkts := h\<rparr>) = pdsm_of w"
  "pdsm_of (w\<lparr>w_next := n\<rparr>) = pdsm_of w" "pdsm_of (w\<lparr>w_msgid_ht := t\<rparr>) = pdsm_of w"
  "pdsm_of (w\<lparr>new_pdc_timeout_cnt := c\<rparr>) = pdsm_of w" "pdsm_of (w\<lparr>psn_range_close_cnt := c\<rparr>) = pdsm_of w"
  "pdsm_of (w\<lparr>pdc_close_in_err_cnt := c\<rparr>) = pdsm_of w" "pdsm_of (w\<lparr>w_rudi := r\<rparr>) = pdsm_of w"
  "pdsm_of (w\<lparr>w_rudi_ht := l\<rparr>) = pdsm_of w" "pdsm_of (w\<lparr>w_rto_list := l\<rparr>) = pdsm_of w"
  "pdsm_of (w\<lparr>w_rudi_next_id := i\<rparr>) = pdsm_of w"
  by (simp_all add: pdsm_of_def tick_def log_ev_def put_pkt_def)

lemma w_tick_prims [simp]:
  "w_tick (tick w) = Suc (w_tick w)" "w_tick (log_ev e w) = w_tick w" "w_tick (put_pkt a k w) = w_tick w"
  "w_tick (upd_pdc p f w) = w_tick w"
  by (simp_all add: tick_def log_ev_def put_pkt_def upd_pdc_def)

lemma w_ready_prims [simp]:
  "w_ready (tick w) = w_ready w" "w_ready (log_ev e w) = w_ready w" "w_ready (put_pkt a k w) = w_ready w"
  "w_ready (upd_pdc p f w) = w_ready w"
  by (simp_all add: tick_def log_ev_def put_pkt_def upd_pdc_def)

lemma same_prims [simp]:
  "same w (tick w)" "same w (log_ev e w)" "same w (put_pkt a k w)"
  "same w (w\<lparr>w_sec := st\<rparr>)" "same w (w\<lparr>w_pkts := h\<rparr>)" "same w (w\<lparr>w_next := n\<rparr>)" "same w (w\<lparr>w_msgid_ht := t\<rparr>)"
  "same w (w\<lparr>new_pdc_timeout_cnt := c\<rparr>)" "same w (w\<lparr>psn_range_close_cnt := c\<rparr>)" "same w (w\<lparr>pdc_close_in_err_cnt := c\<rparr>)"
  "same w (w\<lparr>w_rudi := r\<rparr>)" "same w (w\<lparr>w_rudi_ht := l\<rparr>)" "same w (w\<lparr>w_rto_list := l\<rparr>)" "same w (w\<lparr>w_rudi_next_id := i\<rparr>)"
  by (simp_all add: same_def)

lemma w_pdc_prims [simp]:
  "w_pdc (tick w) = w_pdc w" "w_pdc (log_ev e w) = w_pdc w" "w_pdc (put_pkt a k w) = w_pdc w"
  by (simp_all add: tick_def log_ev_def put_pkt_def)

lemma same_refl [simp]: "same w w"
  by (simp add: same_def)

lemma same_trans: "same u v \<Longrightarrow> same v w \<Longrightarrow> same u w"
  by (simp add: same_def)

lemmas env_defs = uet_gettime_def c_rand_def c_calloc_def uet_pds_random_check_def sec_now_def nic_tx_def

lemma pds_xmit_same [pdsm_same]: "pds_xmit cx k t f w = (rc, k', w') \<Longrightarrow> same w w'"
  by (auto simp: same_def pds_xmit_def env_defs Let_def split: if_splits)

lemma sec_refresh_same [pdsm_same]: "sec_refresh cx v6 s w = Some (rc, s', w') \<Longrightarrow> same w w'"
  by (auto simp: same_def sec_refresh_def env_defs Let_def bind_eq_Some_conv)

lemma sec_build_same [pdsm_same]: "sec_build cx sdi ssi v6 s w = Some (rc, s', w') \<Longrightarrow> same w w'"
  by (auto simp: same_def sec_build_def env_defs Let_def bind_eq_Some_conv split: if_splits)

lemma sec_encrypt_same [pdsm_same]: "sec_encrypt cx v6 s w = Some (rc, s', f, w') \<Longrightarrow> same w w'"
  by (auto simp: same_def sec_encrypt_def env_defs Let_def bind_eq_Some_conv split: if_splits)

lemma sec_tx_secure_same [pdsm_same]:
  "sec_tx_secure cx pdc k t r s w = Some (rc, k', w') \<Longrightarrow> same w w'"
  by (auto simp: same_def sec_tx_secure_def bind_eq_Some_conv split: if_splits dest!: pdsm_same)

lemma uet_pds_sec_tx_pkt_same [pdsm_same]:
  "uet_pds_sec_tx_pkt cx pdc k t r w = Some (rc, k', w') \<Longrightarrow> same w w'"
  by (auto simp: same_def uet_pds_sec_tx_pkt_def sec_tx_clear_def bind_eq_Some_conv split: if_splits dest!: pdsm_same)

lemma uet_pds_update_sack_base_keeps [simp]: "pdc_keeps pdc (uet_pds_update_sack_base pdc k b)"
  by (simp add: pdc_keeps_def uet_pds_update_sack_base_def)

lemma pdc_keeps_refl [simp]: "pdc_keeps pdc pdc"
  by (simp add: pdc_keeps_def)

lemma pdc_keeps_counters [simp]:
  "pdc_keeps pdc (pdc'\<lparr>accepted_bytes := n\<rparr>) = pdc_keeps pdc pdc'"
  "pdc_keeps pdc (pdc'\<lparr>accepted_bytes := n, max_rcvd_psn := m, prev_ar_psn := l\<rparr>) = pdc_keeps pdc pdc'"
  by (simp_all add: pdc_keeps_def)

lemma uet_pds_process_mpr_keeps [simp]: "pdc_keeps pdc (uet_pds_process_mpr pdc pp)"
  by (simp add: pdc_keeps_def uet_pds_process_mpr_def)

lemma uet_pds_build_ack_cc_ext_keeps: "uet_pds_build_ack_cc_ext uet pdc k b h t = Some (b', pdc') \<Longrightarrow> pdc_keeps pdc pdc'"
  by (auto simp: uet_pds_build_ack_cc_ext_def Let_def bind_eq_Some_conv split: if_splits)

lemma uet_pds_tx_ack_pkt_same:
  "uet_pds_tx_ack_pkt cx pdc k nxt h w = Some (rc, k', pdc', w') \<Longrightarrow> same w w' \<and> pdc_keeps pdc pdc'"
  by (auto simp: uet_pds_tx_ack_pkt_def uet_pds_build_ack_pkt_def Let_def bind_eq_Some_conv split: if_splits
    dest!: uet_pds_sec_tx_pkt_same uet_pds_build_ack_cc_ext_keeps)

lemma uet_pds_tx_close_ack_epsn_same [pdsm_same]:
  "uet_pds_tx_close_ack_epsn cx pdc k pl w = Some (rc, k', w') \<Longrightarrow> same w w'"
  by (auto simp: same_def uet_pds_tx_close_ack_epsn_def Let_def bind_eq_Some_conv dest!: pdsm_same)

lemma uet_pds_tx_def_rsp_ack_pkt_same:
  "uet_pds_tx_def_rsp_ack_pkt cx pdc k w = Some (rc, k', pdc', w') \<Longrightarrow> same w w' \<and> pdc_keeps pdc pdc'"
  by (auto simp: uet_pds_tx_def_rsp_ack_pkt_def Let_def bind_eq_Some_conv split: if_splits
    dest!: uet_pds_sec_tx_pkt_same uet_pds_build_ack_cc_ext_keeps)

lemma uet_pds_alloc_pdc_pkt_same [pdsm_same]:
  "uet_pds_alloc_pdc_pkt cx n m w = (ao, w') \<Longrightarrow> same w w'"
  by (auto simp: same_def uet_pds_alloc_pdc_pkt_def env_defs Let_def split: if_splits)

lemma uet_pds_free_pdc_pkt_same [pdsm_same]: "uet_pds_free_pdc_pkt a w = Some w' \<Longrightarrow> same w w'"
  by (auto simp: same_def uet_pds_free_pdc_pkt_def bind_eq_Some_conv)

lemma foldM_same:
  "(\<And>i w w'. f i w = Some w' \<Longrightarrow> same w w') \<Longrightarrow> foldM f xs w = Some w' \<Longrightarrow> same w w'"
proof (induction xs arbitrary: w)
  case (Cons i xs)
  then obtain v where v: "f i w = Some v" "foldM f xs v = Some w'" by (auto split: option.splits)
  show ?case using same_trans [OF Cons.prems(1) [OF v(1)] Cons.IH [OF Cons.prems(1) v(2)]] .
qed simp

lemma free_slot_same:
  "do {
     (found, d) \<leftarrow> bm_get bm j None;
     (case d of None \<Rightarrow> Some w | Some a \<Rightarrow> if found then uet_pds_free_pdc_pkt a w else Some w) } = Some w' \<Longrightarrow> same w w'"
  by (cases "bm_get bm j None") (auto split: option.splits prod.splits if_splits dest: uet_pds_free_pdc_pkt_same)

lemma free_bm_pkts_same [pdsm_same]: "free_bm_pkts bm w = Some w' \<Longrightarrow> same w w'"
  unfolding free_bm_pkts_def by (cases "bm_each (UET_DEFAULT_MP_RANGE + 1) bm 0") (simp, simp only: bind.bind_lunit, rule foldM_same [OF free_slot_same])

lemma free_front_same [pdsm_same]: "free_front bm n w = Some w' \<Longrightarrow> same w w'"
  unfolding free_front_def by (rule foldM_same [OF free_slot_same])

lemma uet_pdsm_map_msgid_pdc_same [pdsm_same]:
  "uet_pdsm_map_msgid_pdc cx m p w = Some (rc, w') \<Longrightarrow> same w w'"
  by (auto simp: same_def uet_pdsm_map_msgid_pdc_def env_defs Let_def bind_eq_Some_conv split: if_splits)

lemma uet_pdsm_unmap_msgid_pdc_same [pdsm_same]:
  "uet_pdsm_unmap_msgid_pdc m w = Some (rc, w') \<Longrightarrow> same w w'"
  by (auto simp: same_def uet_pdsm_unmap_msgid_pdc_def bind_eq_Some_conv split: if_splits)

lemma uet_pds_tx_nack_same [pdsm_same]:
  "uet_pds_tx_nack cx po pp c pl w = Some (rc, w') \<Longrightarrow> same w w'"
  by (auto simp: same_def uet_pds_tx_nack_def Let_def bind_eq_Some_conv split: prod.splits option.splits dest!: pdsm_same)

lemma uet_pds_rand_start_psn_same [pdsm_same]: "uet_pds_rand_start_psn cx w = (psn, w') \<Longrightarrow> same w w'"
  by (auto simp: same_def uet_pds_rand_start_psn_def env_defs Let_def)

lemma sack_step_same: "sack_step p pp i w = Some w' \<Longrightarrow> same w w'"
  by (auto simp: same_def sack_step_def Let_def bind_eq_Some_conv split: if_splits)

lemma uet_pds_process_sack_bitmap_same [pdsm_same]:
  "uet_pds_process_sack_bitmap p pp w = Some w' \<Longrightarrow> same w w'"
  unfolding uet_pds_process_sack_bitmap_def by (erule foldM_same [rotated]) (rule sack_step_same)

lemma resend_ack_same [pdsm_same]: "resend_ack cx p a w = Some (rc, w') \<Longrightarrow> same w w'"
  by (auto simp: same_def resend_ack_def bind_eq_Some_conv dest!: pdsm_same)

lemma rudi_remove_same [pdsm_same]: "rudi_remove a w = Some w' \<Longrightarrow> same w w'"
  by (auto simp: same_def rudi_remove_def bind_eq_Some_conv)

lemma uet_pds_rudi_finalize_same [pdsm_same]: "uet_pds_rudi_finalize w = Some w' \<Longrightarrow> same w w'"
  unfolding uet_pds_rudi_finalize_def by (erule foldM_same [rotated]) (rule rudi_remove_same)

lemma uet_pds_rudi_drop_tx_pkts_same [pdsm_same]:
  "uet_pds_rudi_drop_tx_pkts h w = Some (n, w') \<Longrightarrow> same w w'"
proof -
  let ?f = "\<lambda>a (n :: nat, w). do {
          rp \<leftarrow> w_rudi w a;
          if rp_handle rp \<noteq> h then Some (n, w)
          else map_option (Pair (n + 1)) (rudi_remove a w) }"
  have step: "pred_option (\<lambda>s'. same w (snd s) \<longrightarrow> same w (snd s')) (?f i s)" for i s
    by (intro opt_rules) (auto dest!: rudi_remove_same elim: same_trans)
  show "uet_pds_rudi_drop_tx_pkts h w = Some (n, w') \<Longrightarrow> same w w'"
    using opt_foldM [of "\<lambda>s. same w (snd s)" ?f, OF step, of "(0, w)" "rev (w_rudi_ht w)"]
    by (auto simp: uet_pds_rudi_drop_tx_pkts_def split: if_splits)
qed

lemma rudi_sec_hdr_same [THEN opt_resultD3, pdsm_same]: "pred_option (\<lambda>(rc, rp', w'). same w w') (rudi_sec_hdr cx rp r w)"
  unfolding rudi_sec_hdr_def by (intro opt_rules) (auto dest!: pdsm_same)

lemma rudi_xmit_same [pdsm_same]: "rudi_xmit cx rp f w = (rc, rp', w') \<Longrightarrow> same w w'"
  by (auto simp: same_def rudi_xmit_def env_defs)

lemma uet_rudi_send_same [THEN opt_resultD3, pdsm_same]: "pred_option (\<lambda>(rc, rp', w'). same w w') (uet_rudi_send cx rp r w)"
  unfolding uet_rudi_send_def by (intro opt_rules) (auto dest!: pdsm_same elim: same_trans)

lemma uet_rudi_build_frame_same [THEN opt_resultD3, pdsm_same]:
  "pred_option (\<lambda>(rc, rp', w'). same w w') (uet_rudi_build_frame cx tos e dm fa v6 sec ty nxt i ses pl rp w)"
  unfolding uet_rudi_build_frame_def by (intro opt_rules) (auto simp: env_defs)

lemma uet_pds_rudi_tx_pkt_same [THEN opt_resultD2, pdsm_same]:
  "pred_option (\<lambda>(rc, w'). same w w') (uet_pds_rudi_tx_pkt cx ta w)"
  unfolding uet_pds_rudi_tx_pkt_def by (intro opt_rules) (auto simp: same_def env_defs dest!: pdsm_same)

lemma uet_uud_send_same [THEN opt_resultD2, pdsm_same]: "pred_option (\<lambda>(rc, w'). same w w') (uet_uud_send cx sdi ssi v6 sec s w)"
  unfolding uet_uud_send_def by (intro opt_rules) (auto simp: same_def env_defs dest!: pdsm_same)

lemma uet_uud_build_frame_same [THEN opt_resultD3, pdsm_same]:
  "pred_option (\<lambda>(rc, s, w'). same w w') (uet_uud_build_frame cx tos e dm fa v6 sec nxt ses pl w)"
  unfolding uet_uud_build_frame_def by (intro opt_rules) (auto simp: env_defs)

lemma uet_pds_sec_rx_pkt_same [pdsm_same]: "uet_pds_sec_rx_pkt cx w = Some (r, w') \<Longrightarrow> same w w'"
  by (auto simp: same_def uet_pds_sec_rx_pkt_def env_defs Let_def bind_eq_Some_conv split: if_splits prod.splits)

section \<open>What a property of the tables has to satisfy\<close>

locale pds_law =
  fixes I :: "pds_world \<Rightarrow> bool"
  assumes law_same: "I w \<Longrightarrow> same w w' \<Longrightarrow> I w'"
    and law_upd: "I w \<Longrightarrow> pdc_keeps (w_pdc w ! p) (f (w_pdc w ! p)) \<Longrightarrow> I (upd_pdc p f w)"
    and law_free: "pred_option (\<lambda>w'. I w \<longrightarrow> I w') (uet_pdsm_free_pdc p w)"
    and law_new_ini: "pred_option (\<lambda>(po, w'). I w \<longrightarrow> I w') (new_ini_pdc cx ep av mode w)"
    and law_new_tgt: "pred_option (\<lambda>(r, w'). I w \<longrightarrow> I w') (new_tgt_pdc cx pp key w)"
begin

named_theorems law

lemma law_sameD: "same w w' \<Longrightarrow> I w \<longrightarrow> I w'"
  using law_same by blast

lemma law_same_pdc: "same w w' \<Longrightarrow> (I w \<longrightarrow> I w') \<and> w_pdc w' = w_pdc w"
  using law_same by (auto simp: same_def pdsm_of_def)

lemma law_keeps: "same w w' \<and> pdc_keeps pdc pdc' \<Longrightarrow> (I w \<longrightarrow> I w') \<and> w_pdc w' = w_pdc w \<and> pdc_keeps pdc pdc'"
  using law_same_pdc by blast

lemmas law_frame [law] = pdsm_same [THEN law_sameD]

lemmas law_prims [THEN opt_resultD, law] = law_free law_new_ini law_new_tgt

lemmas law_simps [simp] = law_same [OF _ same_prims(1)] law_same [OF _ same_prims(2)] law_same [OF _ same_prims(3)]
  law_same [OF _ same_prims(4)] law_same [OF _ same_prims(5)] law_same [OF _ same_prims(6)] law_same [OF _ same_prims(7)]
  law_same [OF _ same_prims(8)] law_same [OF _ same_prims(9)] law_same [OF _ same_prims(10)] law_same [OF _ same_prims(11)]
  law_same [OF _ same_prims(12)] law_same [OF _ same_prims(13)] law_same [OF _ same_prims(14)] law_upd

lemma tx_track_law [THEN opt_resultD, law]: "pred_option (\<lambda>(ok, w'). I w \<longrightarrow> I w') (tx_track p psn a w)"
  unfolding tx_track_def by (intro opt_rules) (auto simp: pdc_keeps_def dest: bm_keeps_set)

lemma tx_untrack_law [THEN opt_resultD, law]: "pred_option (\<lambda>w'. I w \<longrightarrow> I w') (tx_untrack p psn w)"
  unfolding tx_untrack_def by (intro opt_rules) (auto simp: pdc_keeps_def dest: bm_keeps_unset)

lemma send_ctrl_law [THEN opt_resultD, law]:
  "pred_option (\<lambda>(rc, w'). I w \<longrightarrow> I w') (uet_pds_send_ctrl_pkt cx p t pl orig w)"
  unfolding uet_pds_send_ctrl_pkt_def
  by (intro opt_rules) (auto simp: pdc_keeps_def dest!: law split: if_splits)

lemma initiate_close_law [THEN opt_resultD, law]:
  "pred_option (\<lambda>(rc, w'). I w \<longrightarrow> I w') (uet_pds_initiate_pdc_close cx p w)"
  unfolding uet_pds_initiate_pdc_close_def
  by (intro opt_rules) (auto simp: pdc_keeps_def dest!: law)

lemma target_close_law [THEN opt_resultD, law]:
  "pred_option (\<lambda>(rc, w'). I w \<longrightarrow> I w') (uet_pds_target_pdc_close cx p w)"
  unfolding uet_pds_target_pdc_close_def
  by (intro opt_rules) (auto simp: pdc_keeps_def env_defs dest!: law)

lemma msg_cmpl_law [THEN opt_resultD, law]:
  "pred_option (\<lambda>(rc, w'). I w \<longrightarrow> I w') (uet_pds_msg_cmpl_ind cx mode m w)"
  unfolding uet_pds_msg_cmpl_ind_def
  by (intro opt_rules) (auto simp: pdc_keeps_def dest!: law split: if_splits)

lemma ses_completions_law [THEN opt_resultD, law]:
  "pred_option (\<lambda>w'. I w \<longrightarrow> I w') (ses_completions cx cs w)"
  unfolding ses_completions_def by (intro opt_foldM opt_rules) (auto dest!: law split: prod.splits)

lemma up_pds_err_law [THEN opt_resultD, law]:
  "pred_option (\<lambda>w'. I w \<longrightarrow> I w') (up_pds_err cx h w)"
  unfolding up_pds_err_def
  by (intro opt_rules) (auto simp: pdc_keeps_def dest!: law split: if_splits)

lemma up_rx_rsp_law [THEN opt_resultD, law]:
  "pred_option (\<lambda>(rc, w'). I w \<longrightarrow> I w') (up_rx_rsp cx h pp w)"
  unfolding up_rx_rsp_def
  by (intro opt_rules) (auto simp: pdc_keeps_def dest!: law split: if_splits)

lemma up_rx_req_law [THEN opt_resultD, law]:
  "pred_option (\<lambda>(rc, w'). I w \<longrightarrow> I w') (up_rx_req cx pp w)"
  unfolding up_rx_req_def
  by (intro opt_rules) (auto simp: pdc_keeps_def dest!: law split: if_splits)

lemma untrack_in_mpr_law [THEN opt_resultD, law]:
  "pred_option (\<lambda>w'. I w \<longrightarrow> I w') (untrack_in_mpr p psn w)"
  unfolding untrack_in_mpr_def
  by (intro opt_rules) (auto simp: pdc_keeps_def dest!: law split: if_splits)

lemma tx_unlist_law [THEN opt_resultD, law]:
  "pred_option (\<lambda>w'. I w \<longrightarrow> I w') (tx_unlist p a w)"
  unfolding tx_unlist_def
  by (intro opt_rules) (auto simp: pdc_keeps_def dest!: law split: if_splits)

lemma drain_law [THEN opt_resultD, law]:
  "pred_option (\<lambda>w'. I w \<longrightarrow> I w') (uet_pdsm_drain_tx_pkts cx p w)"
  unfolding uet_pdsm_drain_tx_pkts_def
  by (intro opt_let opt_call [OF opt_foreach_safe [where P = "\<lambda>w. I w"]] opt_rules)
    (auto dest!: law split: option.splits)

lemma close_in_error_law [THEN opt_resultD, law]:
  "pred_option (\<lambda>w'. I w \<longrightarrow> I w') (uet_pds_close_pdc_in_error cx p w)"
  unfolding uet_pds_close_pdc_in_error_def
  by (intro opt_rules) (auto dest!: law)

lemma discard_law [THEN opt_resultD, law]:
  "pred_option (\<lambda>w'. I w \<longrightarrow> I w') (uet_pdsm_discard_pdc cx p w)"
  unfolding uet_pdsm_discard_pdc_def
  by (intro opt_rules) (auto dest!: law)

lemma rudi_rx_req_law [THEN opt_resultD, law]:
  "pred_option (\<lambda>(rc, w'). I w \<longrightarrow> I w') (uet_rudi_rx_req cx pp w)"
  unfolding uet_rudi_rx_req_def
  by (intro opt_rules) (auto simp: env_defs dest!: law split: if_splits)

lemma rudi_rx_rsp_law [THEN opt_resultD, law]:
  "pred_option (\<lambda>(rc, w'). I w \<longrightarrow> I w') (uet_rudi_rx_rsp cx pp w)"
  unfolding uet_rudi_rx_rsp_def
  by (intro opt_rules) (auto simp: pdc_keeps_def dest!: law split: if_splits)

lemma rudi_rx_law [THEN opt_resultD, law]:
  "pred_option (\<lambda>(rc, w'). I w \<longrightarrow> I w') (uet_pds_rudi_rx cx pp w)"
  unfolding uet_pds_rudi_rx_def
  by (intro opt_rules) (auto simp: pdc_keeps_def dest!: law split: if_splits)

lemma rudi_rto_step_law [THEN opt_resultD, law]:
  "pred_option (\<lambda>(rc, w'). I w \<longrightarrow> I w') (rudi_rto_step cx now a w)"
  unfolding rudi_rto_step_def
  by (intro opt_rules) (auto simp: pdc_keeps_def dest!: law split: if_splits)

lemma rudi_progress_law [THEN opt_resultD, law]:
  "pred_option (\<lambda>(rc, w'). I w \<longrightarrow> I w') (uet_pds_rudi_progress_tx cx w)"
  unfolding uet_pds_rudi_progress_tx_def
  by (intro opt_let_prod opt_let opt_call [OF opt_foreach_safe [where P = "\<lambda>w. I w"]] opt_rules)
    (auto simp: env_defs dest!: law)

lemma uud_tx_law [THEN opt_resultD, law]:
  "pred_option (\<lambda>(rc, w'). I w \<longrightarrow> I w') (uet_pds_uud_tx_pkt cx ta w)"
  unfolding uet_pds_uud_tx_pkt_def
  by (intro opt_rules) (auto simp: pdc_keeps_def dest!: law split: if_splits)

lemma uud_rx_law [THEN opt_resultD, law]:
  "pred_option (\<lambda>(rc, w'). I w \<longrightarrow> I w') (uet_pds_uud_rx cx pp w)"
  unfolding uet_pds_uud_rx_def
  by (intro opt_rules) (auto simp: pdc_keeps_def dest!: law split: if_splits)

lemma drop_pkt_step_law [THEN opt_resultD, law]:
  "pred_option (\<lambda>(r, nw'). I (snd nw) \<longrightarrow> I (snd nw')) (drop_pkt_step p h a nw)"
  unfolding drop_pkt_step_def by (intro opt_rules) (auto dest!: law)

lemma drop_pdc_step_law [THEN opt_resultD, law]:
  "pred_option (\<lambda>(r, nw'). I (snd nw) \<longrightarrow> I (snd nw')) (drop_pdc_step h p nw)"
  unfolding drop_pdc_step_def
  by (intro opt_case_prod opt_let opt_call [OF opt_foreach_safe [where P = "\<lambda>nw. I (snd nw)"]] opt_rules)
    (auto dest!: law)

lemma drop_tx_pkts_law [THEN opt_resultD, law]:
  "pred_option (\<lambda>(rc, w'). I w \<longrightarrow> I w') (uet_pds_drop_tx_pkts h w)"
  unfolding uet_pds_drop_tx_pkts_def
  by (intro opt_if opt_call [OF opt_foreach_safe [where P = "\<lambda>nw. I (snd nw)"]] opt_rules)
    (auto dest!: law)

lemma assign_ini_law [THEN opt_resultD, law]:
  "pred_option (\<lambda>(rc, w'). I w \<longrightarrow> I w') (uet_pdsm_assign_ini_pdc cx ep av mode w)"
  unfolding uet_pdsm_assign_ini_pdc_def
  by (intro opt_rules) (auto simp: pdc_keeps_def dest!: law split: if_splits)

lemma tx_select_law [THEN opt_resultD, law]:
  "pred_option (\<lambda>(rc, w'). I w \<longrightarrow> I w') (tx_select_pdc cx ta w)"
  unfolding tx_select_pdc_def
  by (intro opt_rules) (auto simp: pdc_keeps_def dest!: law split: if_splits option.splits)

lemma tx_eom_law [THEN opt_resultD, law]:
  "pred_option (\<lambda>w'. I w \<longrightarrow> I w') (tx_eom cx p m w)"
  unfolding tx_eom_def
  by (intro opt_rules) (auto simp: pdc_keeps_def env_defs dest!: law split: if_splits)

lemma tx_commit_law [THEN opt_resultD, law]:
  "pred_option (\<lambda>w'. I w \<longrightarrow> I w') (tx_commit cx p ta a w)"
  unfolding tx_commit_def
  by (intro opt_rules) (auto simp: pdc_keeps_def dest!: law split: if_splits)

lemma tx_rollback_law [THEN opt_resultD, law]:
  "pred_option (\<lambda>w'. I w \<longrightarrow> I w') (tx_rollback p psn a mapped m w)"
  unfolding tx_rollback_def
  by (intro opt_rules) (auto simp: pdc_keeps_def dest!: law split: if_splits)

lemma tx_send_law [THEN opt_resultD, law]:
  "pred_option (\<lambda>(rc, w'). I w \<longrightarrow> I w') (tx_send cx p mm ty ta w)"
  unfolding tx_send_def
  by (intro opt_rules) (auto simp: pdc_keeps_def dest!: law split: if_splits)

lemma tx_pkt_law [THEN opt_resultD, law]:
  "pred_option (\<lambda>(rc, w'). I w \<longrightarrow> I w') (uet_pds_tx_pkt cx ta w)"
  unfolding uet_pds_tx_pkt_def
  by (intro opt_rules) (auto simp: pdc_keeps_def dest!: law split: if_splits)

lemma rtx_pkt_law [THEN opt_resultD, law]:
  "pred_option (\<lambda>(rc, w'). I w \<longrightarrow> I w') (uet_pds_rtx_pkt cx p a w)"
  unfolding uet_pds_rtx_pkt_def
  by (intro opt_rules) (auto simp: env_defs dest!: law split: if_splits)

lemma check_rtx_law [THEN opt_resultD, law]:
  "pred_option (\<lambda>(rc, w'). I w \<longrightarrow> I w') (uet_pds_check_rtx_pkt cx p a w)"
  unfolding uet_pds_check_rtx_pkt_def
  by (intro opt_rules) (auto simp: env_defs dest!: law split: if_splits)

lemma progress_tx_pkt_law [THEN opt_resultD, law]:
  "pred_option (\<lambda>(rc, w'). I w \<longrightarrow> I w') (uet_pds_progress_tx_pkt cx p a w)"
  unfolding uet_pds_progress_tx_pkt_def
  by (intro opt_rules) (auto simp: pdc_keeps_def dest!: law split: if_splits)

lemma progress_pkts_law [THEN opt_resultD, law]:
  "pred_option (\<lambda>(rc, w'). I w \<longrightarrow> I w') (progress_pkts cx p w)"
  unfolding progress_pkts_def Let_def
  by (intro opt_foreach_safe [where P = "\<lambda>w. I w"] opt_rules) (auto dest!: law)

lemma progress_pdc_law [THEN opt_resultD, law]:
  "pred_option (\<lambda>(rc, w'). I w \<longrightarrow> I w') (progress_pdc cx p w)"
  unfolding progress_pdc_def
  by (intro opt_rules) (auto simp: env_defs dest!: law split: if_splits)

lemma progress_tx_law [THEN opt_resultD, law]:
  "pred_option (\<lambda>(rc, w'). I w \<longrightarrow> I w') (uet_pds_progress_tx cx w)"
  unfolding uet_pds_progress_tx_def
  by (intro opt_call [OF opt_foreach_safe [where P = "\<lambda>w. I w"]] opt_rules) (auto dest!: law)

lemma assign_tgt_law [THEN opt_resultD, law]:
  "pred_option (\<lambda>(rc, w'). I w \<longrightarrow> I w') (uet_pdsm_assign_tgt_pdc cx pp w)"
  unfolding uet_pdsm_assign_tgt_pdc_def
  by (intro opt_rules) (auto simp: pdc_keeps_def tgt_existing_def Let_def dest!: law split: if_splits)

lemma update_cack_law [THEN opt_resultD, law]:
  "pred_option (\<lambda>w'. I w \<longrightarrow> I w') (uet_pds_update_cack p c w)"
  unfolding uet_pds_update_cack_def
  by (intro opt_rules) (auto simp: pdc_keeps_def dest!: law split: if_splits)

lemma shift_rx_law [THEN opt_resultD, law]:
  "pred_option (\<lambda>w'. I w \<longrightarrow> I w') (uet_pds_shift_rx_window p w)"
  unfolding uet_pds_shift_rx_window_def
  by (intro opt_rules) (auto simp: pdc_keeps_def dest!: free_front_same [THEN law_same_pdc] bm_keeps_shift)

lemma rx_accept_law [THEN opt_resultD, law]:
  "pred_option (\<lambda>w'. I w \<longrightarrow> I w') (rx_accept cx p a r w)"
  unfolding rx_accept_def
  by (intro opt_rules) (auto dest!: law uet_pds_tx_ack_pkt_same [THEN law_keeps])

lemma upcall_law [THEN opt_resultD, law]:
  "pred_option (\<lambda>(rc, w'). I w \<longrightarrow> I w') (uet_pds_upcall_ses_rx_req cx p a w)"
  unfolding uet_pds_upcall_ses_rx_req_def
  by (intro opt_rules) (auto simp: env_defs dest!: law split: if_splits)

lemma send_def_rsp_law [THEN opt_resultD, law]:
  "pred_option (\<lambda>(rc, w'). I w \<longrightarrow> I w') (send_def_rsp cx p a w)"
  unfolding send_def_rsp_def
  by (intro opt_rules) (auto dest!: uet_pds_tx_def_rsp_ack_pkt_same [THEN law_keeps])

lemma check_dup_law [THEN opt_resultD, law]:
  "pred_option (\<lambda>(rc, b, w'). I w \<longrightarrow> I w') (uet_pds_check_duplicate_and_rtx cx p a w)"
  unfolding uet_pds_check_duplicate_and_rtx_def
  by (intro opt_rules) (auto simp: pdc_keeps_def dest!: law split: if_splits)

lemma rx_untrack_law [THEN opt_resultD, law]:
  "pred_option (\<lambda>w'. I w \<longrightarrow> I w') (rx_untrack p i w)"
  unfolding rx_untrack_def
  by (intro opt_rules) (auto simp: pdc_keeps_def dest: bm_keeps_unset)

lemma rx_track_law [THEN opt_resultD, law]:
  "pred_option (\<lambda>(rc, w'). I w \<longrightarrow> I w') (rx_track p psn a w)"
  unfolding rx_track_def
  by (intro opt_rules) (auto simp: pdc_keeps_def dest: bm_keeps_set)

lemma rod_deliver_law [THEN opt_resultD, law]:
  "pred_option (\<lambda>w'. I w \<longrightarrow> I w') (rod_deliver cx p i n w)"
proof (induction n arbitrary: i w)
  case (Suc n)
  show ?case unfolding rod_deliver.simps
    by (intro opt_rules) (auto dest!: law Suc.IH [THEN opt_resultD])
qed simp

lemma process_data_law [THEN opt_resultD, law]:
  "pred_option (\<lambda>(rc, w'). I w \<longrightarrow> I w') (uet_pds_process_data_pkt cx p a w)"
  unfolding uet_pds_process_data_pkt_def
  by (intro opt_rules) (auto simp: bind_eq_Some_conv dest!: law split: if_splits)

lemma process_syn_law [THEN opt_resultD, law]:
  "pred_option (\<lambda>(rc, w'). I w \<longrightarrow> I w') (uet_pds_process_syn_pkt cx a w)"
  unfolding uet_pds_process_syn_pkt_def
  by (intro opt_rules) (auto simp: pdc_keeps_def dest!: law split: if_splits)

lemma req_on_pdc_law [THEN opt_resultD, law]:
  "pred_option (\<lambda>(rc, w'). I w \<longrightarrow> I w') (req_on_pdc cx p a pp w)"
  unfolding req_on_pdc_def
  by (intro opt_rules) (auto simp: pdc_keeps_def bind_eq_Some_conv dest!: law split: if_splits)

lemma process_request_law [THEN opt_resultD, law]:
  "pred_option (\<lambda>(rc, w'). I w \<longrightarrow> I w') (uet_pds_process_request cx pp pkt len w)"
  unfolding uet_pds_process_request_def
  by (intro opt_rules) (auto simp: pdc_keeps_def bind_eq_Some_conv dest!: law split: if_splits option.splits prod.splits)

lemma shift_tx_loop_law [THEN opt_resultD, law]:
  "pred_option (\<lambda>w'. I w \<longrightarrow> I w') (shift_tx_loop n p w)"
proof (induction n arbitrary: w)
  case (Suc n)
  show ?case unfolding shift_tx_loop.simps
    by (intro opt_rules) (auto simp: pdc_keeps_def dest!: law Suc.IH [THEN opt_resultD] dest: bm_keeps_shift)
qed simp

lemma shift_tx_law [THEN opt_resultD, law]:
  "pred_option (\<lambda>w'. I w \<longrightarrow> I w') (uet_pds_shift_tx_window p w)"
  unfolding uet_pds_shift_tx_window_def
  by (intro opt_rules) (auto simp: pdc_keeps_def bind_eq_Some_conv dest!: law split: if_splits)

lemma mark_acked_law [THEN opt_resultD, law]:
  "pred_option (\<lambda>w'. I w \<longrightarrow> I w') (mark_acked p a w)"
  unfolding mark_acked_def
  by (intro opt_rules) (auto simp: pdc_keeps_def bind_eq_Some_conv dest!: law split: if_splits)

lemma cack_step_law [THEN opt_resultD, law]:
  "pred_option (\<lambda>w'. I w \<longrightarrow> I w') (cack_step cx p i w)"
  unfolding cack_step_def
  by (intro opt_rules) (auto simp: pdc_keeps_def bind_eq_Some_conv dest!: law split: if_splits)

lemma process_cack_law [THEN opt_resultD, law]:
  "pred_option (\<lambda>w'. I w \<longrightarrow> I w') (uet_pds_process_cack cx p pp w)"
  unfolding uet_pds_process_cack_def
  by (intro opt_let opt_eq)
    (auto simp: pdc_keeps_def dest!: opt_foldM [where P = "\<lambda>w. I w", OF opt_eq, THEN opt_resultD, rotated] dest: law)

lemma close_acked_law [THEN opt_resultD, law]:
  "pred_option (\<lambda>(rc, w'). I w \<longrightarrow> I w') (close_acked cx p pp w)"
  unfolding close_acked_def
  by (intro opt_rules) (auto simp: pdc_keeps_def bind_eq_Some_conv dest!: law split: if_splits)

lemma ack_finish_law [THEN opt_resultD, law]:
  "pred_option (\<lambda>(rc, w'). I w \<longrightarrow> I w') (ack_finish cx p a pp w)"
  unfolding ack_finish_def
  by (intro opt_rules) (auto simp: pdc_keeps_def bind_eq_Some_conv dest!: law split: if_splits)

lemma process_ack_law [THEN opt_resultD, law]:
  "pred_option (\<lambda>(rc, w'). I w \<longrightarrow> I w') (uet_pds_process_ack cx pp w)"
  unfolding uet_pds_process_ack_def
  by (intro opt_rules) (auto dest!: law split: if_splits option.splits)

lemma redrive_step_law [THEN opt_resultD, law]:
  "pred_option (\<lambda>(rc, w'). I w \<longrightarrow> I w') (redrive_step cx p d a w)"
  unfolding redrive_step_def
  by (intro opt_rules) (auto simp: pdc_keeps_def dest!: law split: if_splits)

lemma reestablish_law [THEN opt_resultD, law]:
  "pred_option (\<lambda>w'. I w \<longrightarrow> I w') (uet_pds_reestablish_start_psn cx p psn w)"
  unfolding uet_pds_reestablish_start_psn_def
  by (intro opt_let opt_if opt_call [OF opt_foreach_safe [where P = "\<lambda>w. I w"]] opt_rules)
    (auto simp: pdc_keeps_def dest!: law)

lemma nack_retx_law [THEN opt_resultD, law]:
  "pred_option (\<lambda>(rc, w'). I w \<longrightarrow> I w') (nack_retx cx p pp w)"
  unfolding nack_retx_def
  by (intro opt_rules) (auto simp: pdc_keeps_def dest!: law split: if_splits)

lemma process_nack_law [THEN opt_resultD, law]:
  "pred_option (\<lambda>(rc, w'). I w \<longrightarrow> I w') (uet_pds_process_nack cx pp w)"
  unfolding uet_pds_process_nack_def
  by (intro opt_rules) (auto simp: pdc_keeps_def dest!: law split: if_splits)

lemma ack_req_cp_law [THEN opt_resultD, law]:
  "pred_option (\<lambda>(rc, w'). I w \<longrightarrow> I w') (uet_pds_process_ack_req_cp cx p pp w)"
  unfolding uet_pds_process_ack_req_cp_def
  by (intro opt_rules) (auto simp: pdc_keeps_def dest!: law split: if_splits)

lemma tx_plain_ack_law [THEN opt_resultD, law]:
  "pred_option (\<lambda>(rc, w'). I w \<longrightarrow> I w') (tx_plain_ack cx p a w)"
  unfolding tx_plain_ack_def
  by (intro opt_rules) (auto dest!: uet_pds_tx_ack_pkt_same [THEN law_keeps])

lemma accept_close_req_law [THEN opt_resultD, law]:
  "pred_option (\<lambda>(rc, w'). I w \<longrightarrow> I w') (accept_close_req cx p pp w)"
  unfolding accept_close_req_def
  by (intro opt_rules) (auto simp: pdc_keeps_def dest!: law split: if_splits)

lemma close_req_cp_law [THEN opt_resultD, law]:
  "pred_option (\<lambda>(rc, w'). I w \<longrightarrow> I w') (uet_pds_process_close_req_cp cx p pp w)"
  unfolding uet_pds_process_close_req_cp_def
  by (intro opt_rules) (auto simp: pdc_keeps_def bind_eq_Some_conv dest!: law split: if_splits)

lemma close_cmd_ack_law [THEN opt_resultD, law]:
  "pred_option (\<lambda>w'. I w \<longrightarrow> I w') (close_cmd_ack cx p a w)"
  unfolding close_cmd_ack_def close_expected_psn_def
  by (intro opt_rules) (auto simp: Let_def dest!: law split: if_splits)

lemma close_command_cp_law [THEN opt_resultD, law]:
  "pred_option (\<lambda>(rc, w'). I w \<longrightarrow> I w') (uet_pds_process_close_command_cp cx p pp w)"
  unfolding uet_pds_process_close_command_cp_def
  by (intro opt_rules) (auto simp: pdc_keeps_def dest!: law split: if_splits)

lemma clear_cp_law [THEN opt_resultD, law]:
  "pred_option (\<lambda>(rc, w'). I w \<longrightarrow> I w') (uet_pds_process_clear_cp p pp w)"
  unfolding uet_pds_process_clear_cp_def
  by (intro opt_rules) (auto simp: pdc_keeps_def dest!: law split: if_splits)

lemma process_control_law [THEN opt_resultD, law]:
  "pred_option (\<lambda>(rc, w'). I w \<longrightarrow> I w') (uet_pds_process_control cx pp w)"
  unfolding uet_pds_process_control_def
  by (intro opt_rules) (auto simp: pdc_keeps_def bind_eq_Some_conv dest!: law split: if_splits)

lemma rx_dispatch_law [THEN opt_resultD, law]:
  "pred_option (\<lambda>(rc, w'). I w \<longrightarrow> I w') (rx_dispatch cx pp kind pkt len w)"
  unfolding rx_dispatch_def
  by (intro opt_rules) (auto simp: pdc_keeps_def dest!: law split: if_splits)

lemma progress_rx_law [THEN opt_resultD, law]:
  "pred_option (\<lambda>(rc, w'). I w \<longrightarrow> I w') (uet_pds_progress_rx cx w)"
  unfolding uet_pds_progress_rx_def
  by (intro opt_rules) (auto simp: pdc_keeps_def dest!: law split: if_splits)

lemma close_wait_loop_law [THEN opt_resultD, law]:
  "pred_option (\<lambda>w'. I w \<longrightarrow> I w') (close_wait_loop n cx start w)"
proof (induction n arbitrary: w)
  case (Suc n)
  show ?case unfolding close_wait_loop.simps
    by (intro opt_rules) (auto simp: env_defs dest!: law Suc.IH [THEN opt_resultD])
qed simp

lemma ep_close_wait_law [THEN opt_resultD, law]:
  "pred_option (\<lambda>w'. I w \<longrightarrow> I w') (uet_pds_ep_close_wait n cx w)"
  unfolding uet_pds_ep_close_wait_def
  by (intro opt_rules) (auto simp: env_defs dest!: law split: if_splits)

text \<open>The entry points of the sublayer.\<close>

lemmas entry_law = tx_pkt_law msg_cmpl_law drop_tx_pkts_law progress_tx_law progress_rx_law ep_close_wait_law

end

end
