(* ===== verification/PdsReach.thy ===== *)
theory PdsReach
  imports PdsInv ParseSpec
begin

text \<open>
  The reachable states of the packet delivery sublayer: an engine that was initialised, on which the calls of
  SES (transmit requests, the two progress functions, completions, dropped transmits, waiting for the close)
  are made in any order and with any answers of the environment, which moves on between them.  In every such state the pool of contexts is
  well formed.
\<close>

section \<open>Reachable states\<close>

inductive pds_reach :: "pds_ctx \<Rightarrow> pds_world \<Rightarrow> bool" for cx where
  start: "uet_pds_initialize ge imp cx0 w0 = (0, cx, w) \<Longrightarrow> pds_reach cx w"
| tx_pkt: "pds_reach cx w \<Longrightarrow> uet_pds_tx_pkt cx ta w = Some (rc, w') \<Longrightarrow> pds_reach cx w'"
| msg_cmpl_ind: "pds_reach cx w \<Longrightarrow> uet_pds_msg_cmpl_ind cx mode m w = Some (rc, w') \<Longrightarrow> pds_reach cx w'"
| drop_tx_pkts: "pds_reach cx w \<Longrightarrow> uet_pds_drop_tx_pkts h w = Some (n, w') \<Longrightarrow> pds_reach cx w'"
| progress_tx: "pds_reach cx w \<Longrightarrow> uet_pds_progress_tx cx w = Some (rc, w') \<Longrightarrow> pds_reach cx w'"
| progress_rx: "pds_reach cx w \<Longrightarrow> uet_pds_progress_rx cx w = Some (rc, w') \<Longrightarrow> pds_reach cx w'"
| ep_close_wait: "pds_reach cx w \<Longrightarrow> uet_pds_ep_close_wait n cx w = Some w' \<Longrightarrow> pds_reach cx w'"
| env: "pds_reach cx w \<Longrightarrow> pds_reach cx (tick w)"

text \<open>A process before the engine is started, and an environment in which every allocation succeeds, the
  network is silent and the clock advances with every reading.\<close>

definition demo_w0 :: pds_world where
  "demo_w0 = \<lparr>w_ready = False, w_pdc = [], w_alloc = [], w_free = [], w_ini_ht = [], w_tgt_ht = [], w_msgid_ht = [],
     new_pdc_timeout_cnt = 0, psn_range_close_cnt = 0, pdc_close_in_err_cnt = 0, w_pkts = (\<lambda>_. None), w_next = 0,
     w_sec = sec_state_zero, w_rudi = (\<lambda>_. None), w_rudi_ht = [], w_rto_list = [], w_rudi_next_id = 1, w_tick = 0, w_log = []\<rparr>"

definition demo_cx :: pds_ctx where
  "demo_cx = \<lparr>c_uet = uet0, c_env = \<lparr>env_sec_mode = None, env_sec_ssi = None, env_sec_server = None, env_sec_client_ssi = None,
       env_sec_key_rotation = None\<rparr>, pds_pdc_close_thresh = 0, pds_pkt_drop_thresh = 0, pds_new_pdc_time_ms = 100,
     pds_close_req_time_ms = 100, pds_psn_method = UET_PDS_PSN_METHOD_0RTT, o_time = int, o_time_fails = (\<lambda>_. False), o_now = word_of_nat,
     o_rand = id, o_calloc = (\<lambda>_. True), o_nic_tx = (\<lambda>_. 0), o_nic_poll = (\<lambda>_. 0), o_nic_rx = (\<lambda>_. (0, [], 0)),
     o_rx_req = (\<lambda>_. \<lparr>sr_rc = 0, sr_next_hdr = 0, sr_hdr = [], sr_nack = False, sr_gtd_del = False, sr_cmpl = []\<rparr>),
     o_rx_rsp = (\<lambda>_. (0, [])), o_pds_err = (\<lambda>_. [])\<rparr>"

lemma same_tables: "same w w' \<Longrightarrow> pdsm_of w' = pdsm_of w"
  by (simp add: same_def)

section \<open>The pool invariant\<close>

definition bm_ok :: "nat bitmap \<Rightarrow> bool" where
  "bm_ok bm \<longleftrightarrow> bm_wf bm \<and> bm_size bm = int UET_DEFAULT_MP_RANGE"

definition pdc_ok :: "nat \<Rightarrow> uet_pdc \<Rightarrow> bool" where
  "pdc_ok p pdc \<longleftrightarrow> pdc_id pdc = word_of_nat p \<and> bm_ok (tx_bm pdc) \<and> bm_ok (rx_bm pdc) \<and> pdc_state pdc \<noteq> PDC_STATE_ERROR"

fun pool_ok :: "pdsm \<Rightarrow> bool" where
  "pool_ok (pdcs, al, fr, ini, tgt) \<longleftrightarrow>
     length pdcs = UET_PDC_MAX \<and> (\<forall>p\<in>{1..<UET_PDC_MAX}. pdc_ok p (pdcs ! p))
     \<and> distinct (al @ fr) \<and> set (al @ fr) = {1..<UET_PDC_MAX}
     \<and> distinct (ini @ tgt) \<and> set (ini @ tgt) = set al
     \<and> (\<forall>p\<in>set al. is_initiator (pdcs ! p) \<longleftrightarrow> p \<in> set ini)"

lemma pdc_ok_keeps: "pdc_ok p pdc \<Longrightarrow> pdc_keeps pdc pdc' \<Longrightarrow> pdc_ok p pdc'"
  by (auto simp: pdc_ok_def pdc_keeps_def bm_keeps_def bm_ok_def)

lemma nth_update_self: "xs[p := f (xs ! p)] ! q = (if q = p \<and> p < length xs then f (xs ! p) else xs ! q)"
  by (cases "p < length xs") (auto simp: nth_list_update list_update_beyond)

lemma pool_ok_upd:
  assumes "pool_ok (pdsm_of w)" "pdc_keeps (w_pdc w ! p) (f (w_pdc w ! p))"
  shows "pool_ok (pdsm_of (upd_pdc p f w))"
proof -
  have "is_initiator (f (w_pdc w ! p)) = is_initiator (w_pdc w ! p)" using assms(2) by (simp add: pdc_keeps_def)
  then show ?thesis
    using assms pdc_ok_keeps [of p "w_pdc w ! p" "f (w_pdc w ! p)"]
    by (simp add: pdsm_of_def upd_pdc_def nth_update_self)
qed

text \<open>Releasing a context moves it from the list of allocated contexts and from its hash table to the free list.\<close>

lemma free_pdc_tables:
  assumes "uet_pdsm_free_pdc p w = Some w'"
  shows "\<exists>pdc'. pdc_keeps (w_pdc w ! p) pdc' \<and> p \<in> set (w_alloc w)
    \<and> p \<in> set (if is_initiator (w_pdc w ! p) then w_ini_ht w else w_tgt_ht w)
    \<and> pdsm_of w' = ((w_pdc w)[p := pdc'], remove1 p (w_alloc w), w_free w @ [p],
       if is_initiator (w_pdc w ! p) then remove1 p (w_ini_ht w) else w_ini_ht w,
       if is_initiator (w_pdc w ! p) then w_tgt_ht w else remove1 p (w_tgt_ht w))"
proof (intro exI conjI)
  let ?pdc = "(w_pdc w ! p)\<lparr>pdc_state := PDC_STATE_UNALLOC, tx_bm := bm_clear (tx_bm (w_pdc w ! p)), tx_pkt_list := [],
     rx_bm := bm_clear (rx_bm (w_pdc w ! p)), close_requested := False, close_started := False, close_cmd_psn := 0,
     close_req_time := 0, active_msg_id := 0, active_msg_id_valid := False\<rparr>"
  have beyond: "(w_pdc w)[p := x] = w_pdc w" if "\<not> p < length (w_pdc w)" for x
    using that by (simp add: list_update_beyond)
  note defs = uet_pdsm_free_pdc_def uet_pdsm_free_pdc_pkts_def unlink_def bind_eq_Some_conv Let_def upd_pdc_def pdsm_of_def
  show "pdc_keeps (w_pdc w ! p) ?pdc" by (simp add: pdc_keeps_def)
  from assms show "p \<in> set (w_alloc w)" "p \<in> set (if is_initiator (w_pdc w ! p) then w_ini_ht w else w_tgt_ht w)"
    "pdsm_of w' = ((w_pdc w)[p := ?pdc], remove1 p (w_alloc w), w_free w @ [p],
       if is_initiator (w_pdc w ! p) then remove1 p (w_ini_ht w) else w_ini_ht w,
       if is_initiator (w_pdc w ! p) then w_tgt_ht w else remove1 p (w_tgt_ht w))"
    by (cases "p < length (w_pdc w)"; auto simp: defs beyond dest!: free_bm_pkts_same [THEN same_tables] split: if_splits)+
qed

lemma pool_ok_free: "pred_option (\<lambda>w'. pool_ok (pdsm_of w) \<longrightarrow> pool_ok (pdsm_of w')) (uet_pdsm_free_pdc p w)"
proof (intro opt_eq impI)
  fix w' assume free: "uet_pdsm_free_pdc p w = Some w'" and ok: "pool_ok (pdsm_of w)"
  from free_pdc_tables [OF free] obtain pdc' where f: "pdc_keeps (w_pdc w ! p) pdc'" "p \<in> set (w_alloc w)"
    "p \<in> set (if is_initiator (w_pdc w ! p) then w_ini_ht w else w_tgt_ht w)"
    "pdsm_of w' = ((w_pdc w)[p := pdc'], remove1 p (w_alloc w), w_free w @ [p],
       if is_initiator (w_pdc w ! p) then remove1 p (w_ini_ht w) else w_ini_ht w,
       if is_initiator (w_pdc w ! p) then w_tgt_ht w else remove1 p (w_tgt_ht w))"
    by blast
  have al: "set (w_alloc w) \<union> set (w_free w) = {1..<64}" "distinct (w_alloc w)" "distinct (w_free w)"
    "set (w_alloc w) \<inter> set (w_free w) = {}" "length (w_pdc w) = 64" "distinct (w_ini_ht w)" "distinct (w_tgt_ht w)"
    "set (w_ini_ht w) \<inter> set (w_tgt_ht w) = {}" "set (w_ini_ht w) \<union> set (w_tgt_ht w) = set (w_alloc w)"
    using ok by (simp_all add: pdsm_of_def)
  have ok': "pdc_ok q ((w_pdc w)[p := pdc'] ! q)" if "1 \<le> q" "q < 64" for q
    using ok that f(1) al(5) pdc_ok_keeps [of q "w_pdc w ! p" pdc'] by (cases "q = p") (simp_all add: pdsm_of_def)
  show "pool_ok (pdsm_of w')"
    using f al ok ok' by (cases "is_initiator (w_pdc w ! p)") (auto simp: pdsm_of_def)
qed

text \<open>A new context is the head of the free list; it joins the list of allocated contexts and a hash table.\<close>

lemma pool_ok_link:
  assumes "pool_ok (pdsm_of w)" "w_free w = p # ps" "pdc_ok p pdc"
    and v: "pdsm_of v = pdsm_of (w\<lparr>w_free := ps, w_alloc := w_alloc w @ [p]\<rparr>)"
  shows "is_initiator pdc \<Longrightarrow> pool_ok (pdsm_of ((upd_pdc p (\<lambda>_. pdc) v)\<lparr>w_ini_ht := p # w_ini_ht (upd_pdc p (\<lambda>_. pdc) v)\<rparr>))"
    "\<not> is_initiator pdc \<Longrightarrow> pool_ok (pdsm_of ((upd_pdc p (\<lambda>_. pdc) v)\<lparr>w_tgt_ht := p # w_tgt_ht (upd_pdc p (\<lambda>_. pdc) v)\<rparr>))"
proof -
  have p: "p \<in> {1..<64}" "p \<notin> set (w_alloc w)" "length (w_pdc w) = 64" using assms(1,2) by (auto simp: pdsm_of_def)
  have v': "w_pdc v = w_pdc w" "w_alloc v = w_alloc w @ [p]" "w_free v = ps" "w_ini_ht v = w_ini_ht w" "w_tgt_ht v = w_tgt_ht w"
    using v by (simp_all add: pdsm_of_def)
  show "is_initiator pdc \<Longrightarrow> pool_ok (pdsm_of ((upd_pdc p (\<lambda>_. pdc) v)\<lparr>w_ini_ht := p # w_ini_ht (upd_pdc p (\<lambda>_. pdc) v)\<rparr>))"
    "\<not> is_initiator pdc \<Longrightarrow> pool_ok (pdsm_of ((upd_pdc p (\<lambda>_. pdc) v)\<lparr>w_tgt_ht := p # w_tgt_ht (upd_pdc p (\<lambda>_. pdc) v)\<rparr>))"
    using assms p v' by (auto simp: pdsm_of_def nth_list_update upd_pdc_def)
qed

lemma init_pdc_ok: "pdc_ok p pdc \<Longrightarrow> st \<noteq> PDC_STATE_ERROR \<Longrightarrow> pdc_ok p (uet_init_pdc pdc st ini)"
  by (simp add: pdc_ok_def bm_ok_def uet_init_pdc_def bm_clear_ok)

lemma is_initiator_init_pdc [simp]: "is_initiator (uet_init_pdc pdc st ini) = ini"
  by (simp add: uet_init_pdc_def)

lemma alloc_pdc_ok:
  assumes "uet_pdsm_alloc_pdc w = Some (Some p, v)" "pool_ok (pdsm_of w)"
  shows "\<exists>ps. w_free w = p # ps \<and> v = w\<lparr>w_free := ps, w_alloc := w_alloc w @ [p]\<rparr> \<and> w_pdc v = w_pdc w
    \<and> pdc_ok p (w_pdc w ! p)"
  using assms by (auto simp: uet_pdsm_alloc_pdc_def PDS_GO_def pdsm_of_def split: list.splits if_splits)

lemma alloc_pdc_none: "uet_pdsm_alloc_pdc w = Some (None, v) \<Longrightarrow> v = w"
  by (auto simp: uet_pdsm_alloc_pdc_def PDS_GO_def split: list.splits if_splits)

lemma pool_ok_new_ini: "pred_option (\<lambda>(po, w'). pool_ok (pdsm_of w) \<longrightarrow> pool_ok (pdsm_of w')) (new_ini_pdc cx ep av mode w)"
proof (intro opt_eq, clarify)
  fix po w' assume n: "new_ini_pdc cx ep av mode w = Some (po, w')" and ok: "pool_ok (pdsm_of w)"
  then obtain qo v where al: "uet_pdsm_alloc_pdc w = Some (qo, v)" by (auto simp: new_ini_pdc_def bind_eq_Some_conv)
  show "pool_ok (pdsm_of w')"
  proof (cases qo)
    case None
    then show ?thesis using n ok al alloc_pdc_none [of w v] by (simp add: new_ini_pdc_def)
  next
    case (Some p)
    with alloc_pdc_ok [of w p v] al ok obtain ps where p: "w_free w = p # ps" "v = w\<lparr>w_free := ps, w_alloc := w_alloc w @ [p]\<rparr>"
      "w_pdc v = w_pdc w" "pdc_ok p (w_pdc w ! p)" by auto
    have ok': "pdc_ok p (uet_init_pdc (w_pdc w ! p) PDC_STATE_SYN True)" using p(4) by (rule init_pdc_ok) simp
    show ?thesis
      using n al Some p(3) ok'
      by (auto simp: new_ini_pdc_def Let_def uet_pdsm_get_sdi_def pdc_ok_def split: prod.splits
        intro!: pool_ok_link(1) [OF ok p(1), unfolded p(2) [symmetric]] dest!: uet_pds_rand_start_psn_same [THEN same_tables] split: if_splits)
  qed
qed

lemma tgt_base_same: "tgt_base cx pdc start w = (base, rej, w') \<Longrightarrow> pdsm_of w' = pdsm_of w"
  by (auto simp: tgt_base_def Let_def split: if_splits prod.splits dest!: uet_pds_rand_start_psn_same [THEN same_tables])

lemma pool_ok_new_tgt: "pred_option (\<lambda>(r, w'). pool_ok (pdsm_of w) \<longrightarrow> pool_ok (pdsm_of w')) (new_tgt_pdc cx pp key w)"
proof (cases "pool_ok (pdsm_of w)")
  case ok: True
  have link: "pool_ok (pdsm_of ((upd_pdc p (\<lambda>_. pdc) v')\<lparr>w_tgt_ht := p # w_tgt_ht (upd_pdc p (\<lambda>_. pdc) v')\<rparr>))"
    if "uet_pdsm_alloc_pdc w = Some (Some p, v)" "pdsm_of v' = pdsm_of v" "\<not> is_initiator pdc"
      "pdc_keeps (uet_init_pdc (w_pdc v ! p) PDC_STATE_ESTABLISHED False) pdc" for p v v' pdc
  proof -
    from alloc_pdc_ok [OF that(1) ok] obtain ps where p: "w_free w = p # ps"
      "v = w\<lparr>w_free := ps, w_alloc := w_alloc w @ [p]\<rparr>" "w_pdc v = w_pdc w" "pdc_ok p (w_pdc w ! p)" by auto
    have "pdc_ok p (uet_init_pdc (w_pdc v ! p) PDC_STATE_ESTABLISHED False)" unfolding p(3) using p(4) by (rule init_pdc_ok) simp
    then have "pdc_ok p pdc" using that(4) by (rule pdc_ok_keeps)
    then show ?thesis using pool_ok_link(2) [OF ok p(1)] that(2,3) p(2) by simp
  qed
  have "pred_option (\<lambda>(r, w'). pool_ok (pdsm_of w')) (new_tgt_pdc cx pp key w)"
    unfolding new_tgt_pdc_def uet_pdsm_get_sdi_def
    by (intro opt_rules)
      (auto simp: env_defs ok pdc_keeps_def intro!: link pool_ok_upd dest!: alloc_pdc_none tgt_base_same)
  then show ?thesis by (auto intro!: opt_eq)
qed (auto intro!: opt_eq)

lemma pool_ok_same: "pool_ok (pdsm_of w) \<Longrightarrow> same w w' \<Longrightarrow> pool_ok (pdsm_of w')"
  by (simp add: same_def)

interpretation pool: pds_law "\<lambda>w. pool_ok (pdsm_of w)"
  by unfold_locales (fact pool_ok_same pool_ok_upd pool_ok_free pool_ok_new_ini pool_ok_new_tgt)+

section \<open>Initialisation\<close>

lemma create_bm_ok: "create_bm cx w = (Some bm, w') \<Longrightarrow> bm_ok bm \<and> pdsm_of w' = pdsm_of w"
  by (auto simp: create_bm_def env_defs bm_create_def bm_ok_def bm_wf_def Let_def split: if_splits)

lemma init_pool_ok:
  assumes "init_pool cx is w = (True, w')" "distinct is" "\<forall>i\<in>set is. i < length (w_pdc w)"
  shows "length (w_pdc w') = length (w_pdc w) \<and> (\<forall>i\<in>set is. pdc_ok i (w_pdc w' ! i))
    \<and> (\<forall>i. i \<notin> set is \<longrightarrow> w_pdc w' ! i = w_pdc w ! i)
    \<and> w_free w' = w_free w @ is \<and> w_alloc w' = w_alloc w \<and> w_ini_ht w' = w_ini_ht w \<and> w_tgt_ht w' = w_tgt_ht w"
  using assms
proof (induction "is" arbitrary: w)
  case (Cons i "is")
  let ?w1 = "upd_pdc i (\<lambda>pdc. pdc\<lparr>pdc_state := PDC_STATE_UNALLOC, pdc_id := word_of_nat i\<rparr>) w"
  obtain t w2 where t: "create_bm cx ?w1 = (Some t, w2)"
    using Cons.prems(1) by (auto simp: Let_def split: prod.splits option.splits)
  let ?w3 = "upd_pdc i (\<lambda>pdc. pdc\<lparr>tx_bm := t\<rparr>) w2"
  obtain r w4 where r: "create_bm cx ?w3 = (Some r, w4)"
    using Cons.prems(1) t by (auto simp: Let_def split: prod.splits option.splits)
  let ?w5 = "(upd_pdc i (\<lambda>pdc. pdc\<lparr>rx_bm := r\<rparr>) w4)\<lparr>w_free := w_free (upd_pdc i (\<lambda>pdc. pdc\<lparr>rx_bm := r\<rparr>) w4) @ [i]\<rparr>"
  let ?pdc = "(w_pdc w ! i)\<lparr>pdc_state := PDC_STATE_UNALLOC, pdc_id := word_of_nat i, tx_bm := t, rx_bm := r\<rparr>"
  have i: "i < length (w_pdc w)" "i \<notin> set is" using Cons.prems by auto
  have w5: "w_pdc ?w5 = (w_pdc w)[i := ?pdc]" "w_free ?w5 = w_free w @ [i]" "w_alloc ?w5 = w_alloc w" "w_ini_ht ?w5 = w_ini_ht w"
    "w_tgt_ht ?w5 = w_tgt_ht w"
    using create_bm_ok [OF t] create_bm_ok [OF r] i(1) by (simp_all add: pdsm_of_def upd_pdc_def)
  have "init_pool cx is ?w5 = (True, w')" using Cons.prems(1) t r by (simp add: Let_def)
  note IH = Cons.IH [OF this]
  have "pdc_ok i ?pdc" using create_bm_ok [OF t] create_bm_ok [OF r] by (simp add: pdc_ok_def)
  then show ?case using IH Cons.prems(2,3) i unfolding w5 by (auto simp: nth_list_update)
qed simp

lemma initialize_ok:
  assumes "uet_pds_initialize ge imp cx0 w0 = (0, cx, w)"
  shows "pool_ok (pdsm_of w)"
proof -
  obtain cx1 v where v: "init_pool cx1 [1..<UET_PDC_MAX] (pds_state_zero w0) = (True, v)"
    and w: "w = (uet_pds_rudi_init v)\<lparr>w_ready := True\<rparr>"
    using assms by (auto simp: uet_pds_initialize_def Let_def split: option.splits prod.splits if_splits)
  have z: "w_pdc (pds_state_zero w0) = replicate 64 pdc_zero" "w_free (pds_state_zero w0) = []" "w_alloc (pds_state_zero w0) = []"
    "w_ini_ht (pds_state_zero w0) = []" "w_tgt_ht (pds_state_zero w0) = []"
    by (simp_all add: pds_state_zero_def)
  show ?thesis using init_pool_ok [OF v] unfolding w
    by (simp add: pdsm_of_def uet_pds_rudi_init_def z)
qed

lemma reach_pool_ok: "pds_reach cx w \<Longrightarrow> pool_ok (pdsm_of w)"
proof (induction rule: pds_reach.induct)
  case start
  then show ?case by (rule initialize_ok)
qed (auto dest!: pool.entry_law)

lemma init_pool_succeeds: "\<forall>t. o_calloc cx t \<Longrightarrow> \<exists>w'. init_pool cx is w = (True, w')"
  by (induction "is" arbitrary: w) (auto simp: Let_def create_bm_def env_defs bm_create_def)

lemma initialize_succeeds:
  assumes "\<forall>t. o_calloc cx t" "init_psn_method ge (pds_psn_method cx) \<noteq> None" "init_ack_type ge \<noteq> None"
  shows "\<exists>cx' w'. uet_pds_initialize ge imp cx w = (0, cx', w') \<and> w_ready w' \<and> o_calloc cx' = o_calloc cx
    \<and> o_nic_poll cx' = o_nic_poll cx \<and> o_time cx' = o_time cx \<and> o_time_fails cx' = o_time_fails cx"
proof -
  obtain m t where mt: "init_psn_method ge (pds_psn_method cx) = Some m" "init_ack_type ge = Some t" using assms(2,3) by auto
  have ok: "init_pool c is v = (b, w') \<Longrightarrow> o_calloc c = o_calloc cx \<Longrightarrow> b" for c "is" v b w'
    using init_pool_succeeds [of c "is" v] assms(1) by auto
  have "case uet_pds_initialize ge imp cx w of (rc, cx', w') \<Rightarrow> rc = 0 \<and> w_ready w' \<and> o_calloc cx' = o_calloc cx
    \<and> o_nic_poll cx' = o_nic_poll cx \<and> o_time cx' = o_time cx \<and> o_time_fails cx' = o_time_fails cx"
    by (auto simp: uet_pds_initialize_def mt Let_def split: prod.splits dest: ok)
  then show ?thesis by (cases "uet_pds_initialize ge imp cx w") auto
qed

lemma demo_start:
  "\<exists>cx w. uet_pds_initialize (\<lambda>_. None) False demo_cx demo_w0 = (0, cx, w) \<and> w_ready w \<and> pds_reach cx w
    \<and> o_nic_poll cx = (\<lambda>_. 0) \<and> o_time cx = int \<and> o_time_fails cx = (\<lambda>_. False)"
proof -
  have d: "o_calloc demo_cx = (\<lambda>_. True)" "o_nic_poll demo_cx = (\<lambda>_. 0)" "o_time demo_cx = int" "o_time_fails demo_cx = (\<lambda>_. False)"
    by (simp_all add: demo_cx_def)
  show ?thesis using initialize_succeeds [of demo_cx "\<lambda>_. None" False demo_w0] unfolding d
    by (auto simp: init_psn_method_def init_ack_type_def intro: pds_reach.start)
qed

section \<open>Properties\<close>

text \<open>C28: in every reachable state the pool of 64 contexts is well typed: each context carries its own number,
  its two windows are well-formed bitmaps of 128 packets, and the tables of the manager hold numbers of the pool.\<close>

theorem pds_tables_typed:
  assumes "pds_reach cx w"
  shows "length (w_pdc w) = UET_PDC_MAX
    \<and> (\<forall>p\<in>{1..<UET_PDC_MAX}. pdc_id (w_pdc w ! p) = word_of_nat p
         \<and> bm_wf (tx_bm (w_pdc w ! p)) \<and> bm_size (tx_bm (w_pdc w ! p)) = 128
         \<and> bm_wf (rx_bm (w_pdc w ! p)) \<and> bm_size (rx_bm (w_pdc w ! p)) = 128)
    \<and> set (w_alloc w) \<union> set (w_free w) \<union> set (w_ini_ht w) \<union> set (w_tgt_ht w) \<subseteq> {1..<UET_PDC_MAX}"
  using reach_pool_ok [OF assms] by (auto simp: pdsm_of_def pdc_ok_def bm_ok_def)

theorem pds_tables_typed_witness:
  "\<exists>cx w. uet_pds_initialize (\<lambda>_. None) False demo_cx demo_w0 = (0, cx, w) \<and> length (w_pdc w) = UET_PDC_MAX
    \<and> (\<forall>p\<in>{1..<UET_PDC_MAX}. pdc_id (w_pdc w ! p) = word_of_nat p \<and> bm_size (rx_bm (w_pdc w ! p)) = 128)"
  using demo_start pds_tables_typed by blast

text \<open>C29: in every reachable state each context except the reserved one is either allocated or free, never both and
  never twice; an allocated context is in exactly one of the two hash tables, the one of its direction, and a
  free one is in none.\<close>

theorem pds_pool_partition:
  assumes "pds_reach cx w"
  shows "distinct (w_alloc w @ w_free w) \<and> set (w_alloc w) \<union> set (w_free w) = {1..<UET_PDC_MAX}
    \<and> distinct (w_ini_ht w @ w_tgt_ht w) \<and> set (w_ini_ht w) \<union> set (w_tgt_ht w) = set (w_alloc w)
    \<and> (\<forall>p\<in>set (w_alloc w). is_initiator (w_pdc w ! p) \<longleftrightarrow> p \<in> set (w_ini_ht w))"
  using reach_pool_ok [OF assms] by (simp add: pdsm_of_def)

theorem pds_pool_partition_witness:
  "\<exists>cx w. uet_pds_initialize (\<lambda>_. None) False demo_cx demo_w0 = (0, cx, w)
    \<and> distinct (w_alloc w @ w_free w) \<and> set (w_alloc w) \<union> set (w_free w) = {1..<UET_PDC_MAX}"
  using demo_start pds_pool_partition by blast

text \<open>C30: no context ever enters the error state, although the retransmission timer announces it.  The branch of
  the assignment of initiator contexts that discards an errored context and establishes a new one is therefore
  dead: a context that was given up stays assigned and, while it waits to close, refuses every message to
  its destination.\<close>

theorem pdc_error_unreachable:
  assumes "pds_reach cx w"
  shows "(\<forall>p\<in>{1..<UET_PDC_MAX}. pdc_state (w_pdc w ! p) \<noteq> PDC_STATE_ERROR)
    \<and> uet_pdsm_assign_ini_pdc cx ep av mode w =
       PDS_GO w \<bind> (\<lambda>_. case ini_find (ini_key (c_uet cx) ep av mode) w of None \<Rightarrow> new_ini_pdc cx ep av mode w
         | Some p \<Rightarrow> if close_requested (w_pdc w ! p) then Some (None, w) else Some (Some p, w))"
proof -
  note ok = reach_pool_ok [OF assms]
  then have err: "pdc_state (w_pdc w ! p) \<noteq> PDC_STATE_ERROR" if "p \<in> {1..<UET_PDC_MAX}" for p
    using that by (simp add: pdsm_of_def pdc_ok_def)
  have "p \<in> {1..<UET_PDC_MAX}" if "ini_find k w = Some p" for k p
  proof -
    have "p \<in> set (w_ini_ht w)" using that by (auto simp: ini_find_def find_Some_iff)
    then show ?thesis using ok by (auto simp: pdsm_of_def)
  qed
  then show ?thesis using err by (auto simp: uet_pdsm_assign_ini_pdc_def fun_eq_iff split: option.splits bind_splits)
qed

theorem pdc_error_unreachable_witness:
  "\<exists>cx w. uet_pds_initialize (\<lambda>_. None) False demo_cx demo_w0 = (0, cx, w)
    \<and> (\<forall>p\<in>{1..<UET_PDC_MAX}. pdc_state (w_pdc w ! p) \<noteq> PDC_STATE_ERROR)"
  using demo_start pdc_error_unreachable by blast

end
