(* ===== verification/PdsLive.thy ===== *)
theory PdsLive
  imports PdsReach
begin

text \<open>
  Progress of the packet delivery sublayer: waiting for the contexts of an endpoint to close ends.
\<close>

section \<open>The clock\<close>









section \<open>The close-wait loop\<close>




end
