(* ===== verification/PdsPsn.thy ===== *)
theory PdsPsn
  imports PdsReach
begin

unbundle bit_operations_syntax

text \<open>
  Arithmetic of packet sequence numbers: the window tests and comparisons of the source are exact although sequence
  numbers wrap around, and an acknowledgement carries its PSN as a signed 16-bit distance from the cumulative one.
\<close>

section \<open>Lemmas\<close>

lemma sint_u32: "sint (x :: u32) = (if uint x < 2 ^ 31 then uint x else uint x - 2 ^ 32)"
proof -
  have u: "0 \<le> uint x" "uint x < 2 ^ 32" using unsigned_less [where ?'a = int and w = x] by simp_all
  then have "uint x div 2147483648 mod 2 = (if uint x < 2147483648 then 0 else 1)" by auto
  then show ?thesis using u
    by (simp add: sint_uint signed_take_bit_eq_take_bit_minus take_bit_eq_mod bit_iff_odd odd_iff_mod_2_eq_one)
qed

lemma sint_u32_inverse: "word_of_int (sint x) = (x :: u32)"
  by simp

text \<open>The distance of two PSNs is exact as long as they are less than half the number space apart.\<close>

lemma sint_of_int_u32: "\<bar>d\<bar> < 2 ^ 31 \<Longrightarrow> sint (word_of_int d :: u32) = d"
  by (subst signed_of_int) (auto intro!: signed_take_bit_int_eq_self)

lemma psn_distance:
  fixes base :: u32
  assumes "\<bar>a - b\<bar> < 2 ^ 31"
  shows "sint ((base + word_of_int a) - (base + word_of_int b)) = a - b"
proof -
  have "(base + word_of_int a) - (base + word_of_int b) = (word_of_int (a - b) :: u32)" by simp
  then show ?thesis using sint_of_int_u32 [OF assms] by (simp only:)
qed

lemma psn_mpr_idx: "PSN_IN_MPR psn base \<longleftrightarrow> 0 \<le> psn_idx psn base \<and> psn_idx psn base < 128"
  unfolding PSN_IN_MPR_def psn_idx_def sint_u32 word_less_def using unsigned_less [where ?'a = int and w = "psn - base"] by auto

lemma psn_idx_inverse: "base + word_of_int (psn_idx psn base) = psn"
  by (simp add: psn_idx_def)

lemma psn_idx_add: "i < 128 \<Longrightarrow> psn_idx (base + word_of_nat i) base = int i"
  using psn_distance [of "int i" 0 base] by (simp add: psn_idx_def)

lemma psn_mpr_nat: "PSN_IN_MPR psn base \<longleftrightarrow> (\<exists>i<128. psn = base + word_of_nat i)"
proof
  assume "PSN_IN_MPR psn base"
  then have i: "0 \<le> psn_idx psn base" "psn_idx psn base < 128" by (simp_all add: psn_mpr_idx)
  then have "psn = base + word_of_nat (nat (psn_idx psn base))" using psn_idx_inverse [of base psn] by (metis int_nat_eq of_int_of_nat_eq)
  then show "\<exists>i<128. psn = base + word_of_nat i" using i by (intro exI [of _ "nat (psn_idx psn base)"]) auto
next
  assume "\<exists>i<128. psn = base + word_of_nat i"
  then show "PSN_IN_MPR psn base" using psn_idx_add by (auto simp: psn_mpr_idx)
qed

text \<open>C32: the window test of the source selects exactly the 128 sequence numbers from the base on, across the wrap-around
  as well: for these the index handed to the bitmap lies inside it and names the sequence number, and inside
  a window of less than half the number space the comparison of sequence numbers is the order of their
  distances from its base.\<close>

theorem psn_window_exact:
  assumes "\<bar>a - b\<bar> < 2 ^ 31"
  shows "(PSN_IN_MPR psn base \<longleftrightarrow> (\<exists>i<UET_DEFAULT_MP_RANGE. psn = base + word_of_nat i))
    \<and> (PSN_IN_MPR psn base \<longleftrightarrow> 0 \<le> psn_idx psn base \<and> psn_idx psn base < int UET_DEFAULT_MP_RANGE)
    \<and> psn = base + word_of_int (psn_idx psn base)
    \<and> (PSN_IN_PRIOR_MPR psn base \<longleftrightarrow> (\<exists>i\<in>{1..UET_DEFAULT_MP_RANGE}. psn = base - word_of_nat i))
    \<and> (UET_PDS_PSN_AFTER (base + word_of_int a) (base + word_of_int b) \<longleftrightarrow> b < a)"
proof -
  have "PSN_IN_PRIOR_MPR psn base \<longleftrightarrow> (\<exists>i\<in>{1..128}. psn = base - word_of_nat i)"
  proof
    assume "PSN_IN_PRIOR_MPR psn base"
    then obtain i where "i < 128" "psn = base - 128 + word_of_nat i" by (auto simp: PSN_IN_PRIOR_MPR_def psn_mpr_nat)
    then show "\<exists>i\<in>{1..128}. psn = base - word_of_nat i" by (intro bexI [of _ "128 - i"]) (auto simp: of_nat_diff)
  next
    assume "\<exists>i\<in>{1..128}. psn = base - word_of_nat i"
    then obtain i where "1 \<le> i" "i \<le> 128" "psn = base - word_of_nat i" by auto
    then show "PSN_IN_PRIOR_MPR psn base" unfolding PSN_IN_PRIOR_MPR_def psn_mpr_nat
      by (intro exI [of _ "128 - i"]) (auto simp: of_nat_diff)
  qed
  then show ?thesis using psn_distance [OF assms, of base] psn_mpr_nat psn_mpr_idx psn_idx_inverse
    by (simp add: UET_PDS_PSN_AFTER_def)
qed

theorem psn_window_exact_witness:
  "UET_PDS_PSN_AFTER (0xfffffff0 + word_of_int 20) (0xfffffff0 + word_of_int 3)
    \<and> PSN_IN_MPR 5 0xfffffff0 \<and> psn_idx 5 0xfffffff0 = 21"
  using psn_window_exact [of 20 3 5 "0xfffffff0"] by (simp add: PSN_IN_MPR_def psn_idx_def)

section \<open>Distances on the wire\<close>

lemma psn_2c_offset_minus: "psn_2c_offset base psn = ucast (psn - base)"
  by (simp add: psn_2c_offset_def flip: minus_eq_not_plus_1)

text \<open>The assertion of \<open>psn_2c_offset\<close>: the distance before it is cut to sixteen bits is exact.\<close>

lemma psn_2c_offset_assert: "base_psn + (NOT (base_psn - psn) + 1) = (psn :: u32)"
  by (simp flip: minus_eq_not_plus_1)

lemma scast_ucast_u16: "scast (ucast d :: u16) = (d :: u32) \<longleftrightarrow> - (2 ^ 15) \<le> sint d \<and> sint d < 2 ^ 15"
proof -
  have "scast (ucast d :: u16) = d \<longleftrightarrow> signed_take_bit 15 (sint d) = sint d"
    by transfer (simp add: signed_take_bit_eq_iff_take_bit_eq [of 31, symmetric, simplified] signed_take_bit_signed_take_bit signed_take_bit_take_bit min_def)
  then show ?thesis by (simp add: signed_take_bit_int_eq_self_iff)
qed

lemma rdn_wr_sub: "wr b i d = Some b' \<Longrightarrow> j + n \<le> length d \<Longrightarrow> rdn b' (i + j) n = Some (take n (drop j d))"
  by (auto simp: wr_def rdn_def split: if_splits)

lemma ack_hdr_reads:
  assumes "wr b h (ack_hdr_bytes pdc k ty nxt fl) = Some b'"
  shows "rd32 b' (h + 4) = Some (cack_psn pdc)" "rd16 b' (h + 2) = Some (psn_2c_offset (cack_psn pdc) (pds_psn (pkt_pp k)))"
    "rd16 b' (h + 8) = Some (pdc_id pdc)" "rd16 b' (h + 10) = Some (dpdcid pdc)"
  using assms rdn_wr_sub [OF assms, of 4 4] rdn_wr_sub [OF assms, of 2 2] rdn_wr_sub [OF assms, of 8 2] rdn_wr_sub [OF assms, of 10 2]
  by (simp_all add: rd16_def rd32_def ack_hdr_bytes_def)

text \<open>C33: the header of a plain acknowledgement (without the fields of congestion control) is read back by the parser of the peer with the cumulative PSN and the context
  numbers that were written; the acknowledged PSN is read back exactly when it lies within 32768 of the
  cumulative one.\<close>

theorem ack_psn_roundtrip:
  assumes "wr b h (ack_hdr_bytes pdc k UET_PDS_TYPE_ACK nxt fl) = Some b'" "pp_pds pp = h" "pds_type pp = UET_PDS_TYPE_ACK"
    "pds_flags pp AND UET_PDS_ACK_FLAGS_EPSN = 0"
  shows "\<exists>pp'. parse_ack b' pp = Some pp' \<and> pds_cack_psn pp' = cack_psn pdc \<and> pds_spdcid pp' = pdc_id pdc
    \<and> pds_dpdcid pp' = dpdcid pdc
    \<and> (pds_psn pp' = pds_psn (pkt_pp k) \<longleftrightarrow> - (2 ^ 15) \<le> UET_PDS_PSN_OFFSET (pds_psn (pkt_pp k)) (cack_psn pdc)
          \<and> UET_PDS_PSN_OFFSET (pds_psn (pkt_pp k)) (cack_psn pdc) < 2 ^ 15)"
proof -
  note r = ack_hdr_reads [OF assms(1)]
  have "scast (ucast (psn - c) :: u16) + c = psn \<longleftrightarrow> scast (ucast (psn - c) :: u16) = psn - c" for psn c :: u32
    by (metis add_diff_cancel_right' diff_add_cancel)
  then show ?thesis using r assms(2-4)
    by (simp add: parse_ack_def Let_def psn_2c_offset_minus UET_PDS_PSN_OFFSET_def scast_ucast_u16)
qed

theorem ack_psn_roundtrip_witness:
  "\<exists>b' pp'. wr (replicate 12 0) 0 (ack_hdr_bytes (pdc_zero\<lparr>cack_psn := 0xfffffffe\<rparr>)
       (pdc_pkt_zero\<lparr>pkt_pp := pp_zero\<lparr>pds_psn := 3\<rparr>\<rparr>) UET_PDS_TYPE_ACK UET_HDR_NONE 0) = Some b'
     \<and> parse_ack b' (pp_zero\<lparr>pds_type := UET_PDS_TYPE_ACK\<rparr>) = Some pp' \<and> pds_psn pp' = 3"
proof -
  let ?pdc = "pdc_zero\<lparr>cack_psn := 0xfffffffe\<rparr>" and ?k = "pdc_pkt_zero\<lparr>pkt_pp := pp_zero\<lparr>pds_psn := 3\<rparr>\<rparr>"
  obtain b' where b': "wr (replicate 12 0) 0 (ack_hdr_bytes ?pdc ?k UET_PDS_TYPE_ACK UET_HDR_NONE 0) = Some b'"
    using wr_in [of 0 "ack_hdr_bytes ?pdc ?k UET_PDS_TYPE_ACK UET_HDR_NONE 0" "replicate 12 0"]
    by (auto simp: ack_hdr_bytes_def)
  show ?thesis using ack_psn_roundtrip [OF b', of "pp_zero\<lparr>pds_type := UET_PDS_TYPE_ACK\<rparr>"] b'
    by (auto simp: UET_PDS_PSN_OFFSET_def pp_zero_def)
qed

section \<open>The acknowledgement of a close request\<close>

lemma rand_start_psn_range:
  assumes "uet_pds_rand_start_psn cx w = (psn, w')"
  shows "0x10000 \<le> uint psn \<and> uint psn < 2 ^ 31"
proof -
  define x :: u32 where "x = push_bit 16 (word_of_nat (o_rand cx (w_tick w))) XOR word_of_nat (o_rand cx (w_tick (tick w)))"
  have x: "psn = (if x AND 0x7fffffff < 0x10000 then (x AND 0x7fffffff) + 0x10000 else x AND 0x7fffffff)"
    using assms by (auto simp: uet_pds_rand_start_psn_def env_defs Let_def x_def [symmetric] simp del: w_tick_prims)
  have m: "x AND 0x7fffffff = take_bit 31 x" by (simp add: take_bit_eq_mask mask_eq_exp_minus_1)
  have "uint (take_bit 31 x) < 2 ^ 31" unfolding unsigned_take_bit_eq by (rule take_bit_int_less_exp)
  then show ?thesis unfolding x m by (auto simp: word_less_def uint_plus_if' not_less)
qed

lemma short_psn_outside:
  fixes base psn :: u32 and d :: u16
  assumes "0x10000 \<le> uint base" "uint base < 2 ^ 31"
  shows "\<not> PSN_IN_MPR (scast d) base"
proof
  assume "PSN_IN_MPR (scast d) base"
  then obtain i :: nat where i: "i < 128" "scast d = base + word_of_nat i" by (auto simp: psn_mpr_nat)
  have "uint (word_of_nat i :: u32) = int i" using i(1) by (simp add: unsigned_of_nat take_bit_nat_eq_self)
  then have u: "uint (base + word_of_nat i) = uint base + int i" using assms(2) i(1) by (simp add: uint_plus_if')
  have d: "- (2 ^ 15) \<le> sint d" "sint d < 2 ^ 15" using sint_range_size [of d] by (simp_all add: word_size)
  then have "sint (scast d :: u32) = sint d" by (simp add: signed_scast_eq signed_take_bit_int_eq_self)
  with d show False using i u assms unfolding sint_u32 by (auto split: if_splits)
qed

lemma new_ini_base:
  assumes "new_ini_pdc cx ep av mode w = Some (Some p, w')" "\<not> sec_enabled (w_pdc w' ! p)" "p < length (w_pdc w)"
  shows "cack_psn (w_pdc w' ! p) = cack_psn (w_pdc w ! p)" "0x10000 \<le> uint (rx_bm_base_psn (w_pdc w' ! p))"
    "uint (rx_bm_base_psn (w_pdc w' ! p)) < 2 ^ 31"
proof -
  from assms(1) obtain ps where f: "w_ready w" "w_free w = p # ps"
    by (auto simp: new_ini_pdc_def Let_def bind_eq_Some_conv uet_pdsm_alloc_pdc_def PDS_GO_def split: prod.splits list.splits if_splits)
  let ?v = "w\<lparr>w_free := ps, w_alloc := w_alloc w @ [p]\<rparr>"
  obtain psn v where r: "uet_pds_rand_start_psn cx ?v = (psn, v)" by fastforce
  have v: "w_pdc v = w_pdc w" using uet_pds_rand_start_psn_same [OF r] by (simp add: same_def pdsm_of_def)
  let ?pdc = "w_pdc w' ! p"
  have "cack_psn ?pdc = cack_psn (w_pdc w ! p) \<and> rx_bm_base_psn ?pdc = psn"
    using assms f r v by (auto simp: new_ini_pdc_def Let_def uet_pdsm_alloc_pdc_def PDS_GO_def uet_init_pdc_def uet_pdsm_get_sdi_def
      upd_pdc_def split: if_splits)
  then show "cack_psn ?pdc = cack_psn (w_pdc w ! p)" "0x10000 \<le> uint (rx_bm_base_psn ?pdc)" "uint (rx_bm_base_psn ?pdc) < 2 ^ 31"
    using rand_start_psn_range [OF r] by simp_all
qed

lemma ack_lookup_outside: "\<not> PSN_IN_MPR (pds_psn pp) (tx_bm_base_psn (w_pdc v ! q)) \<Longrightarrow>
    ack_lookup q pp v \<in> {Some (Inr None), Some (Inl (- EINVAL))}"
  by (simp add: ack_lookup_def Let_def)

text \<open>C34: an initiator context is created without a cumulative PSN for its receive direction, and a request of the
  target to close is acknowledged before one is computed. Without security, on a context that was not used
  before and as long as nothing else was received on it, the acknowledgement names another PSN than the request, and the
  target, whose transmit window starts where the receive window of the initiator does, does not find the request
  it acknowledges.\<close>

theorem close_req_ack_lost:
  assumes new: "new_ini_pdc cx ep av mode w = Some (Some p, w')" "p < length (w_pdc w)" "cack_psn (w_pdc w ! p) = 0"
      "\<not> sec_enabled (w_pdc w' ! p)"
    and ini: "cack_psn pdc = cack_psn (w_pdc w' ! p)" "rx_bm_base_psn pdc = rx_bm_base_psn (w_pdc w' ! p)"
      "PSN_IN_MPR (pds_psn (pkt_pp k)) (rx_bm_base_psn pdc)"
    and ack: "wr b h (ack_hdr_bytes pdc k UET_PDS_TYPE_ACK nxt fl) = Some b'" "pp_pds pp = h"
      "pds_type pp = UET_PDS_TYPE_ACK" "pds_flags pp AND UET_PDS_ACK_FLAGS_EPSN = 0"
    and tgt: "tx_bm_base_psn (w_pdc v ! q) = rx_bm_base_psn pdc"
  shows "\<exists>pp'. parse_ack b' pp = Some pp' \<and> pds_psn pp' \<noteq> pds_psn (pkt_pp k)
    \<and> ack_lookup q pp' v \<in> {Some (Inr None), Some (Inl (- EINVAL))}"
proof -
  note base = new_ini_base [OF new(1,4,2)]
  obtain pp' where pp': "parse_ack b' pp = Some pp'" "pds_psn pp' = scast (psn_2c_offset (cack_psn pdc) (pds_psn (pkt_pp k)))"
    using ack_hdr_reads [OF ack(1)] ack(2-) ini(1) base(1) new(3) by (simp add: parse_ack_def Let_def)
  then have "\<not> PSN_IN_MPR (pds_psn pp') (rx_bm_base_psn pdc)" using short_psn_outside base ini(2) by simp
  then show ?thesis using pp'(1) ini(3) ack_lookup_outside [of pp' v q] tgt by auto
qed

lemma new_ini_clear:
  assumes "w_ready w" "w_free w = p # ps" "p < length (w_pdc w)" "env_sec_mode (c_env cx) = None"
  shows "\<exists>w'. new_ini_pdc cx ep av mode w = Some (Some p, w') \<and> \<not> sec_enabled (w_pdc w' ! p)
    \<and> tx_bm_base_psn (w_pdc w' ! p) = rx_bm_base_psn (w_pdc w' ! p)"
  using assms
  by (auto simp: new_ini_pdc_def Let_def uet_pdsm_alloc_pdc_def PDS_GO_def uet_pdsm_get_sdi_def upd_pdc_def same_def pdsm_of_def
    split: prod.splits dest!: uet_pds_rand_start_psn_same)

theorem close_req_ack_lost_witness:
  "\<exists>w' b' pp'. new_ini_pdc demo_cx \<lparr>ep_job_id = 1, ep_entropy = 0, ep_msg_ip_tos = 0\<rparr>
       \<lparr>av_fa = fa_zero, av_is_ipv6 = False, nh_mac_addr = replicate 6 0\<rparr> UET_PDS_MODE_ROD
       (demo_w0\<lparr>w_ready := True, w_pdc := [pdc_zero, pdc_zero], w_free := [1]\<rparr>) = Some (Some 1, w')
     \<and> wr (replicate 12 0) 0 (ack_hdr_bytes (w_pdc w' ! 1)
         (pdc_pkt_zero\<lparr>pkt_pp := pp_zero\<lparr>pds_psn := rx_bm_base_psn (w_pdc w' ! 1)\<rparr>\<rparr>) UET_PDS_TYPE_ACK UET_HDR_NONE 0) = Some b'
     \<and> parse_ack b' (pp_zero\<lparr>pds_type := UET_PDS_TYPE_ACK\<rparr>) = Some pp' \<and> pds_psn pp' \<noteq> rx_bm_base_psn (w_pdc w' ! 1)"
proof -
  let ?w = "demo_w0\<lparr>w_ready := True, w_pdc := [pdc_zero, pdc_zero], w_free := [1]\<rparr>"
  let ?pp = "pp_zero\<lparr>pds_type := UET_PDS_TYPE_ACK\<rparr>"
  let ?ep = "\<lparr>ep_job_id = 1, ep_entropy = 0, ep_msg_ip_tos = 0\<rparr>"
  let ?av = "\<lparr>av_fa = fa_zero, av_is_ipv6 = False, nh_mac_addr = replicate 6 0\<rparr>"
  obtain w' where w': "new_ini_pdc demo_cx ?ep ?av UET_PDS_MODE_ROD ?w = Some (Some 1, w')"
    "\<not> sec_enabled (w_pdc w' ! 1)" "tx_bm_base_psn (w_pdc w' ! 1) = rx_bm_base_psn (w_pdc w' ! 1)"
    using new_ini_clear [of ?w 1 "[]" demo_cx ?ep ?av UET_PDS_MODE_ROD] by (auto simp: demo_cx_def)
  let ?k = "pdc_pkt_zero\<lparr>pkt_pp := pp_zero\<lparr>pds_psn := rx_bm_base_psn (w_pdc w' ! 1)\<rparr>\<rparr>"
  let ?h = "ack_hdr_bytes (w_pdc w' ! 1) ?k UET_PDS_TYPE_ACK UET_HDR_NONE 0"
  obtain b' where b': "wr (replicate 12 0) 0 ?h = Some b'"
    using wr_in [of 0 ?h "replicate 12 0"] by (auto simp: ack_hdr_bytes_def)
  have "cack_psn (w_pdc ?w ! 1) = 0" by (simp add: pdc_zero_def)
  then show ?thesis using close_req_ack_lost [OF w'(1) _ _ w'(2) refl refl _ b', of ?pp w' 1] w' b'
    by (auto simp: pp_zero_def PSN_IN_MPR_def)
qed

end
