(* ===== verification/Cc.thy ===== *)
theory Cc
  imports Complex_Main Prelude "HOL-Library.Log_Nat"
begin

unbundle bit_operations_syntax

text \<open>
  The sender side of congestion control (src/cc/uet_cc\_st.c).  Floating-point numbers are rational numbers, rounded to
  the nearest single or double value after every operation (ties to even); an operation whose result would not be
  finite, and a conversion to an unsigned integer that does not fit, is \<^term>\<open>None\<close>.  The clock is a function from
  the number of the reading; the notifications of the reliability module are logged.
\<close>

section \<open>Floating point\<close>

definition flog2 :: "rat \<Rightarrow> int" where
  "flog2 x = (case quotient_of x of (a, b) \<Rightarrow>
     let e = bitlen a - bitlen b in if 2 powi e \<le> x then e else e - 1)"

definition rne :: "rat \<Rightarrow> int" where
  "rne x = (let n = \<lfloor>x\<rfloor>; d = x - of_int n in
     if d < 1 / 2 then n else if d > 1 / 2 then n + 1 else if even n then n else n + 1)"

definition fl :: "int \<Rightarrow> int \<Rightarrow> rat \<Rightarrow> rat" where
  "fl p emin x = (if x = 0 then 0
     else let q = max (flog2 \<bar>x\<bar> - (p - 1)) emin in of_int (rne (x / 2 powi q)) * 2 powi q)"

definition f32 :: "rat \<Rightarrow> rat" where
  "f32 x = fl 24 (- 149) x"

definition f64 :: "rat \<Rightarrow> rat" where
  "f64 x = fl 53 (- 1074) x"

definition fu32 :: "u32 \<Rightarrow> rat" where
  "fu32 n = f32 (of_int (uint n))"

definition fdiv :: "rat \<Rightarrow> rat \<Rightarrow> rat option" where
  "fdiv x y = (if y = 0 then None else Some (f32 (x / y)))"

definition to_u32 :: "rat \<Rightarrow> u32 option" where
  "to_u32 x = (if - 1 < x \<and> x < 2 ^ 32 then Some (word_of_int (if x < 0 then 0 else \<lfloor>x\<rfloor>)) else None)"

definition udiv :: "u32 \<Rightarrow> u32 \<Rightarrow> u32 option" where
  "udiv a b = (if b = 0 then None else Some (a div b))"

section \<open>State\<close>

datatype uet_cc_path_update = UET_CC_PATH_ACK | UET_CC_PATH_ECN | UET_CC_PATH_NACK | UET_CC_PATH_RTO

datatype uet_ccc_state = UET_CCC_STATE_IDLE | UET_CCC_STATE_PENDING | UET_CCC_STATE_ACTIVE | UET_CCC_STATE_READY

datatype uet_cc_loss_type = UET_CC_LOSS_TYPE_NACK | UET_CC_LOSS_TYPE_SACK | UET_CC_LOSS_TYPE_TIMEOUT | UET_CC_LOSS_TYPE_PROBE

datatype uet_cc_spraying_type = UET_CC_NO_SPRAY | UET_CC_OBLIVIOUS_SPRAY | UET_CC_SELECTIVE_SPRAY

text \<open>The states of a path as they are stored, two bits each (\<open>enum uet_cc_path_state\<close>).\<close>

definition UET_CC_PATH_GOOD :: u8 where [simp]: "UET_CC_PATH_GOOD = 0"
definition UET_CC_PATH_BAD :: u8 where [simp]: "UET_CC_PATH_BAD = 1"
definition UET_CC_PATH_SKIP :: u8 where [simp]: "UET_CC_PATH_SKIP = 2"

definition UET_CC_MAX_SACK_MTUS :: nat where [simp]: "UET_CC_MAX_SACK_MTUS = 16"

record timespec =
  tv_sec :: int
  tv_nsec :: int

record uet_cc_params =
  bdp_bytes :: u32
  cwnd_max :: u32
  base_rtt_usec :: u32
  target_qdelay_usec :: u32
  qa_scale :: u32
  qa_thresh :: u32
  adj_bytes_thresh :: u32
  adj_usec_thresh :: u32
  fi_scale :: u32
  p_pi :: u32
  scaling_c :: rat
  p_alpha :: rat
  p_fd :: rat
  p_fi :: rat
  p_gamma :: rat
  scaling_factor_a :: rat
  p_eta :: rat
  ecn_alpha :: rat
  ecn_thresh :: rat
  max_md_factor :: rat
  delay_ewma_factor :: rat
  max_paths :: u16
  p_mtu :: u16
  spraying_type :: uet_cc_spraying_type

text \<open>The last two fields are the number of clock readings so far and the log of the notifications.\<close>

record uet_cc_ctx =
  params :: uet_cc_params
  cwnd :: u32
  backlog :: u32
  in_flight :: u32
  recv_bytes :: u32
  achieved_bytes :: u32
  fi_cnt :: u32
  qa_ign_bytes :: u32
  inc_bytes :: u32
  dec_bytes :: u32
  rtx_cnt :: u32
  avg_delay_usec :: u32
  next_ev :: u32
  ccc_state :: uet_ccc_state
  qa_end :: timespec
  last_cwnd_adj :: timespec
  last_dec :: timespec
  ev_state :: "u8 list"
  num_paths :: u16
  bad_paths :: u16
  skip_paths :: u16
  qa_trigger :: bool
  fi_active :: bool
  ecn_exp_table :: "rat list"
  avg_ecn_rate :: rat
  cc_tick :: nat
  cc_log :: "bool list"

type_synonym clock = "nat \<Rightarrow> timespec"

definition clock_gettime :: "clock \<Rightarrow> uet_cc_ctx \<Rightarrow> timespec \<times> uet_cc_ctx" where
  "clock_gettime clk c = (clk (cc_tick c), c\<lparr>cc_tick := Suc (cc_tick c)\<rparr>)"

section \<open>Paths\<close>

definition ev_idx :: "u16 \<Rightarrow> nat" where
  "ev_idx ev = unat (drop_bit 2 ev)"

definition ev_shift :: "u16 \<Rightarrow> nat" where
  "ev_shift ev = 2 * unat (ev AND 3)"

definition get_ev_state :: "uet_cc_ctx \<Rightarrow> u16 \<Rightarrow> u8 option" where
  "get_ev_state c ev =
     (if ev_idx ev < length (ev_state c)
      then Some (drop_bit (ev_shift ev) (ev_state c ! ev_idx ev AND push_bit (ev_shift ev) 3)) else None)"

definition set_ev_state :: "uet_cc_ctx \<Rightarrow> u16 \<Rightarrow> u8 \<Rightarrow> uet_cc_ctx option" where
  "set_ev_state c ev s =
     (if ev_idx ev < length (ev_state c)
      then Some (c\<lparr>ev_state := (ev_state c)[ev_idx ev :=
        (ev_state c ! ev_idx ev AND NOT (push_bit (ev_shift ev) 3)) OR push_bit (ev_shift ev) s]\<rparr>) else None)"

section \<open>Allocation\<close>

fun decay_table :: "nat \<Rightarrow> rat \<Rightarrow> rat \<Rightarrow> rat list" where
  "decay_table 0 f d = []"
| "decay_table (Suc n) f d = d # decay_table n f (f32 (f64 (d * f)))"

definition cc_params :: "uet_cc_spraying_type \<Rightarrow> bool \<Rightarrow> u16 \<Rightarrow> u32 \<Rightarrow> u32 \<Rightarrow> u16 \<Rightarrow> uet_cc_params option" where
  "cc_params spray trim_supp mtu bw_mbps base_rtt paths = do {
     let bdp = bw_mbps * base_rtt div 8;
     cmax \<leftarrow> to_u32 (f64 (5 / 4 * of_int (uint bdp)));
     let target = (if trim_supp then base_rtt div 2 else base_rtt);
     let pi = 5 * ucast mtu;
     sc \<leftarrow> udiv (ucast mtu) (target * pi);
     let scaling_a = f32 (fu32 bdp / 150000);
     Some \<lparr>bdp_bytes = bdp, cwnd_max = cmax, base_rtt_usec = base_rtt, target_qdelay_usec = target, qa_scale = 1,
       qa_thresh = (if trim_supp then 4 else 2) * target, adj_bytes_thresh = 8 * ucast mtu, adj_usec_thresh = base_rtt,
       fi_scale = 1, p_pi = pi, scaling_c = fu32 sc, p_alpha = f32 (fu32 (pi * ucast mtu) * fu32 sc),
       p_fd = f32 (f64 (8 / 10)), p_fi = 1, p_gamma = 0, scaling_factor_a = scaling_a,
       p_eta = f32 (f64 (f64 (f64 (15 / 100) * of_int (uint mtu)) * scaling_a)), ecn_alpha = 1 / 8,
       ecn_thresh = f32 (f64 (2 / 10)), max_md_factor = 1 / 2, delay_ewma_factor = f32 (f64 (9 / 10)),
       max_paths = paths, p_mtu = mtu, spraying_type = spray\<rparr> }"

text \<open>The two arguments after the clock tell whether the two allocations succeed; \<open>Some None\<close> is the NULL result.\<close>

definition uet_cc_alloc_ctx :: "clock \<Rightarrow> bool \<Rightarrow> bool \<Rightarrow> uet_cc_spraying_type \<Rightarrow> bool \<Rightarrow> u16 \<Rightarrow> u32 \<Rightarrow> u32 \<Rightarrow> u16
    \<Rightarrow> uet_cc_ctx option option" where
  "uet_cc_alloc_ctx clk ok1 ok2 spray trim_supp mtu bw_mbps base_rtt paths =
     (if \<not> ok1 then Some None
      else do {
        ps \<leftarrow> cc_params spray trim_supp mtu bw_mbps base_rtt paths;
        let now = clk 0;
        let decay = f32 (f64 (1 - ecn_alpha ps));
        Some (if \<not> ok2 then None
          else Some \<lparr>params = ps, cwnd = cwnd_max ps, backlog = 0, in_flight = 0, recv_bytes = 0, achieved_bytes = 0,
            fi_cnt = 0, qa_ign_bytes = 0, inc_bytes = 0, dec_bytes = 0, rtx_cnt = 0, avg_delay_usec = 0, next_ev = 0,
            ccc_state = UET_CCC_STATE_IDLE, qa_end = \<lparr>tv_sec = 0, tv_nsec = 0\<rparr>, last_cwnd_adj = now, last_dec = now,
            ev_state = replicate (unat paths div 4) 0, num_paths = paths, bad_paths = 0, skip_paths = 0,
            qa_trigger = False, fi_active = False,
            ecn_exp_table = decay_table UET_CC_MAX_SACK_MTUS (f64 (1 - ecn_alpha ps)) decay, avg_ecn_rate = 0,
            cc_tick = 1, cc_log = []\<rparr>) })"

section \<open>The state of a context and of its paths\<close>

definition update_ccc_state :: "uet_cc_ctx \<Rightarrow> uet_cc_ctx" where
  "update_ccc_state c =
     (let c = (if backlog c = 0 \<and> rtx_cnt c = 0
               then c\<lparr>ccc_state := (if in_flight c \<noteq> 0 then UET_CCC_STATE_PENDING else UET_CCC_STATE_IDLE)\<rparr>
               else if ccc_state c = UET_CCC_STATE_IDLE \<or> ccc_state c = UET_CCC_STATE_PENDING
               then c\<lparr>ccc_state := UET_CCC_STATE_ACTIVE\<rparr> else c);
          c = (if ccc_state c = UET_CCC_STATE_ACTIVE \<and> in_flight c < cwnd c then c\<lparr>ccc_state := UET_CCC_STATE_READY\<rparr>
               else if ccc_state c = UET_CCC_STATE_READY \<and> cwnd c \<le> in_flight c then c\<lparr>ccc_state := UET_CCC_STATE_ACTIVE\<rparr>
               else c)
      in c\<lparr>cc_log := cc_log c @ [ccc_state c = UET_CCC_STATE_READY]\<rparr>)"

text \<open>The two checks at the end of \<open>update_path\<close> have empty branches, but they divide by the MTU.\<close>

definition update_path :: "uet_cc_ctx \<Rightarrow> u16 \<Rightarrow> uet_cc_path_update \<Rightarrow> uet_cc_ctx option" where
  "update_path c ev update = do {
     s \<leftarrow> get_ev_state c ev;
     c \<leftarrow> (case update of
        UET_CC_PATH_RTO \<Rightarrow>
          let c = (if s = UET_CC_PATH_SKIP then c\<lparr>skip_paths := skip_paths c - 1\<rparr> else c)
          in set_ev_state (c\<lparr>bad_paths := bad_paths c + 1\<rparr>) ev UET_CC_PATH_BAD
      | UET_CC_PATH_ACK \<Rightarrow>
          let c = (if s = UET_CC_PATH_SKIP then c\<lparr>skip_paths := skip_paths c - 1\<rparr>
                   else if s = UET_CC_PATH_BAD then c\<lparr>bad_paths := bad_paths c - 1\<rparr> else c)
          in set_ev_state c ev UET_CC_PATH_GOOD
      | _ \<Rightarrow>
          let c = (if s = UET_CC_PATH_BAD then c\<lparr>bad_paths := bad_paths c - 1\<rparr> else c)
          in set_ev_state (c\<lparr>skip_paths := skip_paths c + 1\<rparr>) ev UET_CC_PATH_SKIP);
     _ \<leftarrow> udiv (cwnd c) (2 * ucast (p_mtu (params c)));
     Some c }"

text \<open>\<open>None\<close> if the loop does not end, or reads a state outside the table.\<close>

partial_function (option) ev_loop :: "uet_cc_ctx \<Rightarrow> (u32 \<times> uet_cc_ctx) option" where
  "ev_loop c =
     (let ev = next_ev c; n = ev + 1;
          c = c\<lparr>next_ev := (if n = ucast (num_paths c) then 0 else n)\<rparr> in
      if spraying_type (params c) = UET_CC_OBLIVIOUS_SPRAY then Some (ev, c)
      else Option.bind (get_ev_state c (ucast ev)) (\<lambda>s.
        if s = UET_CC_PATH_GOOD then Some (ev, c)
        else if s = UET_CC_PATH_SKIP then Option.bind (set_ev_state c (ucast ev) UET_CC_PATH_GOOD) ev_loop
        else ev_loop c))"

definition select_entropy :: "uet_cc_ctx \<Rightarrow> (u32 \<times> uet_cc_ctx) option" where
  "select_entropy c = (if spraying_type (params c) = UET_CC_NO_SPRAY then Some (next_ev c, c) else ev_loop c)"

section \<open>The congestion window\<close>

definition adjust_cwnd :: "clock \<Rightarrow> uet_cc_ctx \<Rightarrow> uet_cc_ctx option" where
  "adjust_cwnd clk c = do {
     inc \<leftarrow> fdiv (f32 (fu32 (inc_bytes c) + p_eta (params c))) (fu32 (cwnd c));
     dec \<leftarrow> udiv (dec_bytes c * cwnd c) (bdp_bytes (params c));
     n \<leftarrow> to_u32 (f32 (fu32 (cwnd c) + f32 (inc - fu32 dec)));
     let n = (if n < ucast (p_mtu (params c)) then ucast (p_mtu (params c)) else n);
     let (now, c) = clock_gettime clk c;
     Some (c\<lparr>cwnd := n, inc_bytes := 0, dec_bytes := 0, recv_bytes := 0, last_cwnd_adj := now\<rparr>) }"

definition fair_increase :: "uet_cc_ctx \<Rightarrow> u32 \<Rightarrow> uet_cc_ctx option" where
  "fair_increase c newly = do {
     n \<leftarrow> to_u32 (f32 (fu32 (inc_bytes c) + f32 (f32 (p_fi (params c) * of_int (uint (p_mtu (params c)))) * fu32 newly)));
     Some (c\<lparr>inc_bytes := n\<rparr>) }"

definition fast_increase :: "uet_cc_ctx \<Rightarrow> u32 \<Rightarrow> u32 \<Rightarrow> uet_cc_ctx" where
  "fast_increase c newly delay =
     (if delay = 0 then
        let c = c\<lparr>fi_cnt := fi_cnt c + newly\<rparr> in
        if cwnd c < fi_cnt c \<or> fi_active c then c\<lparr>cwnd := cwnd c + newly * fi_scale (params c), fi_active := True\<rparr>
        else c\<lparr>fi_active := False\<rparr>
      else c\<lparr>fi_cnt := 0, fi_active := False\<rparr>)"

definition proportional_increase :: "uet_cc_ctx \<Rightarrow> u32 \<Rightarrow> u32 \<Rightarrow> uet_cc_ctx option" where
  "proportional_increase c newly delay =
     (let c = fast_increase c newly delay in
      if fi_active c then Some c
      else do {
        let a = fu32 (newly * p_pi (params c));
        let b = f32 (p_alpha (params c) * fu32 (target_qdelay_usec (params c) - delay));
        n \<leftarrow> to_u32 (f32 (fu32 (inc_bytes c) + (if a < b then a else b)));
        fair_increase (c\<lparr>inc_bytes := n\<rparr>) newly })"

definition fair_decrease :: "uet_cc_ctx \<Rightarrow> bool \<Rightarrow> u32 \<Rightarrow> uet_cc_ctx option" where
  "fair_decrease c can_decrease newly =
     (let c = c\<lparr>fi_active := False, fi_cnt := 0\<rparr> in
      if can_decrease then do {
        n \<leftarrow> to_u32 (f32 (fu32 (dec_bytes c) + f32 (p_fd (params c) * fu32 newly)));
        Some (c\<lparr>dec_bytes := n\<rparr>) }
      else Some c)"

definition delta_usec :: "timespec \<Rightarrow> timespec \<Rightarrow> u32" where
  "delta_usec start end =
     ucast ((word_of_int (tv_nsec end - tv_nsec start + (tv_sec end - tv_sec start) * 1000000000) :: u64) div 1000)"

definition add_usec :: "timespec \<Rightarrow> u32 \<Rightarrow> timespec" where
  "add_usec start delta =
     (let ns = tv_nsec start + uint (delta * 1000) in
      if ns > 1000000000 then \<lparr>tv_sec = tv_sec start + 1, tv_nsec = ns - 1000000000\<rparr> else \<lparr>tv_sec = tv_sec start, tv_nsec = ns\<rparr>)"

definition aggressive_decrease :: "clock \<Rightarrow> uet_cc_ctx \<Rightarrow> bool \<Rightarrow> u32 \<Rightarrow> uet_cc_ctx option" where
  "aggressive_decrease clk c can_decrease newly =
     (let (now, c) = clock_gettime clk c; c = c\<lparr>fi_active := False, fi_cnt := 0\<rparr>; ps = params c in
      if can_decrease \<and> target_qdelay_usec ps < avg_delay_usec c then do {
        c \<leftarrow> (if base_rtt_usec ps < delta_usec (last_dec c) now then do {
               r \<leftarrow> fdiv (fu32 (target_qdelay_usec ps)) (fu32 (avg_delay_usec c));
               let a = f32 (1 - f32 (p_gamma ps * f32 (1 - r)));
               n \<leftarrow> to_u32 (f32 (fu32 (cwnd c) * (if a > max_md_factor ps then a else max_md_factor ps)));
               Some (c\<lparr>cwnd := n, last_dec := now\<rparr>) }
             else Some c);
        fair_decrease c can_decrease newly }
      else Some c)"

definition quick_adapt :: "clock \<Rightarrow> uet_cc_ctx \<Rightarrow> bool \<Rightarrow> bool \<times> uet_cc_ctx" where
  "quick_adapt clk c loss =
     (let (now, c) = clock_gettime clk c in
      if tv_sec now > tv_sec (qa_end c) \<or> (tv_sec now = tv_sec (qa_end c) \<and> tv_nsec now > tv_nsec (qa_end c)) then
        if (tv_sec (qa_end c) \<noteq> 0 \<or> tv_nsec (qa_end c) \<noteq> 0)
           \<and> (qa_trigger c \<or> loss \<or> qa_thresh (params c) < avg_delay_usec c)
        then (True, c\<lparr>cwnd := max (min (cwnd c) (achieved_bytes c)) (ucast (p_mtu (params c))),
                      qa_ign_bytes := in_flight c, qa_trigger := False\<rparr>)
        else (False, c\<lparr>qa_end := add_usec now (base_rtt_usec (params c)), achieved_bytes := 0\<rparr>)
      else (False, c))"

definition retx :: "uet_cc_ctx \<Rightarrow> u32 \<Rightarrow> uet_cc_ctx" where
  "retx c pktsize = update_ccc_state (c\<lparr>in_flight := in_flight c - pktsize, rtx_cnt := rtx_cnt c + 1\<rparr>)"

definition update_avg_delay :: "uet_cc_ctx \<Rightarrow> u32 \<Rightarrow> uet_cc_ctx option" where
  "update_avg_delay c delay = do {
     let w = delay_ewma_factor (params c);
     n \<leftarrow> to_u32 (f32 (f32 (w * fu32 (avg_delay_usec c)) + f32 (f32 (1 - w) * fu32 delay)));
     Some (c\<lparr>avg_delay_usec := n\<rparr>) }"

definition update_avg_ecn_rate :: "uet_cc_ctx \<Rightarrow> u32 \<Rightarrow> bool \<Rightarrow> uet_cc_ctx option" where
  "update_avg_ecn_rate c newly skip = do {
     q \<leftarrow> udiv newly (ucast (p_mtu (params c)));
     let i = unat (min (word_of_nat UET_CC_MAX_SACK_MTUS) q);
     d \<leftarrow> (if i < length (ecn_exp_table c) then Some (ecn_exp_table c ! i) else None);
     Some (c\<lparr>avg_ecn_rate := f32 (f32 (ecn_alpha (params c) * (if skip then 1 else 0)) + f32 (d * avg_ecn_rate c))\<rparr>) }"

section \<open>The interface of the reliability module\<close>

definition uet_cc_req_to_send :: "uet_cc_ctx \<Rightarrow> u32 \<Rightarrow> uet_cc_ctx" where
  "uet_cc_req_to_send c delta_backlog = update_ccc_state (c\<lparr>backlog := backlog c + delta_backlog\<rparr>)"

definition uet_cc_send_complete :: "uet_cc_ctx \<Rightarrow> u32 \<Rightarrow> bool \<Rightarrow> (u32 \<times> uet_cc_ctx) option" where
  "uet_cc_send_complete c pktsize re = do {
     (ev, c) \<leftarrow> select_entropy c;
     let c = (if re then c\<lparr>rtx_cnt := rtx_cnt c - 1\<rparr> else c\<lparr>backlog := backlog c - pktsize\<rparr>);
     Some (ev, update_ccc_state (c\<lparr>in_flight := in_flight c + pktsize\<rparr>)) }"

text \<open>What an acknowledgement does to the window once it is neither ignored nor answered by a quick adaptation.\<close>

definition ack_window :: "clock \<Rightarrow> uet_cc_ctx \<Rightarrow> bool \<Rightarrow> u32 \<Rightarrow> bool \<Rightarrow> u32 \<Rightarrow> uet_cc_ctx option" where
  "ack_window clk c skip delay can_decrease newly = do {
     let target = target_qdelay_usec (params c);
     c \<leftarrow> (if \<not> skip \<and> target \<le> delay then fair_increase c newly
          else if \<not> skip \<and> delay < target then proportional_increase c newly delay
          else if skip \<and> target \<le> delay then aggressive_decrease clk c can_decrease newly
          else Some c);
     let (now, c) = clock_gettime clk c;
     if adj_usec_thresh (params c) \<le> delta_usec (last_cwnd_adj c) now \<or> adj_bytes_thresh (params c) < recv_bytes c
     then adjust_cwnd clk c else Some c }"

definition uet_cc_process_ack :: "clock \<Rightarrow> uet_cc_ctx \<Rightarrow> u16 option \<Rightarrow> bool \<Rightarrow> u32 \<Rightarrow> u32 \<Rightarrow> uet_cc_ctx option" where
  "uet_cc_process_ack clk c ev skip rtt_usec delta_inflight = do {
     let newly = - delta_inflight;
     let c = c\<lparr>in_flight := in_flight c + delta_inflight, qa_ign_bytes := qa_ign_bytes c - min newly (qa_ign_bytes c),
              recv_bytes := recv_bytes c + newly, achieved_bytes := achieved_bytes c + newly\<rparr>;
     let delay = (word_of_int (max 0 (uint rtt_usec - uint (base_rtt_usec (params c)))) :: u32);
     c \<leftarrow> update_avg_delay c delay;
     c \<leftarrow> (case ev of None \<Rightarrow> Some c
          | Some e \<Rightarrow> update_path c e (if skip then UET_CC_PATH_ECN else UET_CC_PATH_ACK));
     c \<leftarrow> update_avg_ecn_rate c newly skip;
     let can_decrease = (avg_ecn_rate c > ecn_thresh (params c));
     if qa_ign_bytes c \<noteq> 0 \<and> skip then Some c
     else case quick_adapt clk c False of
         (True, c) \<Rightarrow> Some (update_ccc_state c)
       | (False, c) \<Rightarrow> map_option update_ccc_state (ack_window clk c skip delay can_decrease newly) }"

definition uet_cc_process_loss :: "clock \<Rightarrow> uet_cc_ctx \<Rightarrow> u32 \<Rightarrow> u16 option \<Rightarrow> uet_cc_loss_type \<Rightarrow> bool \<Rightarrow> uet_cc_ctx option" where
  "uet_cc_process_loss clk c lost_bytes ev type skip = do {
     let c = retx c lost_bytes;
     c \<leftarrow> (if type = UET_CC_LOSS_TYPE_TIMEOUT \<or> type = UET_CC_LOSS_TYPE_NACK then do {
            let c = c\<lparr>qa_trigger := True\<rparr>;
            let c = (if qa_ign_bytes c = 0 then snd (quick_adapt clk c True) else c);
            (case ev of Some e \<Rightarrow> if type = UET_CC_LOSS_TYPE_NACK then update_path c e UET_CC_PATH_NACK else Some c
             | None \<Rightarrow> Some c) }
          else Some c);
     Some (c\<lparr>qa_ign_bytes := qa_ign_bytes c - min lost_bytes (qa_ign_bytes c)\<rparr>) }"

end
