(* ===== verification/CcPath.thy ===== *)
theory CcPath
  imports Cc
begin

unbundle bit_operations_syntax

text \<open>
  The choice of a path by congestion control: the packed table of path states and the loop over it.
\<close>

section \<open>The table of path states\<close>

lemma bit_3: "bit (3 :: int) k \<longleftrightarrow> k < 2"
proof -
  have m: "(3 :: int) = mask 2" by (simp add: mask_eq_exp_minus_1)
  show ?thesis unfolding m bit_mask_iff by simp
qed

lemma bit_push_3: "bit (push_bit s (3 :: u8)) k \<longleftrightarrow> s \<le> k \<and> k < s + 2 \<and> k < 8"
  by (auto simp: bit_push_bit_iff bit_3)

lemma two_bits:
  fixes w v :: u8
  assumes v: "\<And>k. bit v k \<Longrightarrow> k < 2" and mn: "m < 4" "n < 4"
  shows "drop_bit (2 * n) ((w AND NOT (push_bit (2 * m) 3) OR push_bit (2 * m) v) AND push_bit (2 * n) 3)
    = (if n = m then v else drop_bit (2 * n) (w AND push_bit (2 * n) 3))" (is "?l = ?r")
proof (rule bit_word_eqI)
  fix k assume "k < LENGTH(8)"
  show "bit ?l k = bit ?r k"
  proof (cases "k < 2")
    case True
    then show ?thesis using mn v [of "2 * n + k - 2 * m"]
      by (auto simp: bit_drop_bit_eq bit_and_iff bit_or_iff bit_not_iff bit_push_3 bit_push_bit_iff bit_3)
  next
    case False
    then show ?thesis using v [of k] by (auto simp: bit_drop_bit_eq bit_and_iff bit_push_3)
  qed
qed

lemma get_set_ev_state:
  assumes "set_ev_state c ev s = Some c'" "\<And>k. bit s k \<Longrightarrow> k < 2"
  shows "get_ev_state c' e = (if e = ev then Some s else get_ev_state c e)"
proof -
  have sh: "unat (x AND 3) < 4" for x :: u16 using word_and_le1 [of x 3] by (simp add: word_le_nat_alt)
  have eq: "ev_idx e = ev_idx ev \<and> unat (e AND 3) = unat (ev AND 3) \<longleftrightarrow> e = ev"
  proof -
    have x: "push_bit 2 (drop_bit 2 x) + (x AND 3) = x" for x :: u16
      using bits_ident [of 2 x] by (simp add: take_bit_eq_mask mask_eq_exp_minus_1)
    show ?thesis unfolding ev_idx_def using x [of e] x [of ev] by (metis word_unat_eq_iff)
  qed
  have tb: "drop_bit (ev_shift e) ((w AND NOT (push_bit (ev_shift ev) 3) OR push_bit (ev_shift ev) s) AND push_bit (ev_shift e) 3)
      = (if unat (e AND 3) = unat (ev AND 3) then s else drop_bit (ev_shift e) (w AND push_bit (ev_shift e) 3))" for w
    unfolding ev_shift_def by (rule two_bits) (use assms(2) sh in auto)
  have c': "ev_idx ev < length (ev_state c)" "c' = c\<lparr>ev_state := (ev_state c)[ev_idx ev :=
        (ev_state c ! ev_idx ev AND NOT (push_bit (ev_shift ev) 3)) OR push_bit (ev_shift ev) s]\<rparr>"
    using assms(1) by (auto simp: set_ev_state_def split: if_splits)
  show ?thesis
  proof (cases "ev_idx e = ev_idx ev")
    case True
    then have "get_ev_state c' e = Some (if e = ev then s else drop_bit (ev_shift e) (ev_state c ! ev_idx e AND push_bit (ev_shift e) 3))"
      using c'(1) eq tb unfolding get_ev_state_def c'(2) by (simp del: drop_bit_and drop_bit_or)
    then show ?thesis using c'(1) True by (simp add: get_ev_state_def)
  next
    case False
    then show ?thesis using eq by (auto simp: get_ev_state_def c'(2))
  qed
qed

lemma get_ev_state_range:
  assumes "get_ev_state c e = Some s"
  shows "s \<in> {0, 1, 2, 3}"
proof -
  have "bit s k \<Longrightarrow> k < 2" for k using assms by (auto simp: get_ev_state_def bit_drop_bit_eq bit_and_iff bit_push_3 split: if_splits)
  then have t: "take_bit 2 s = s" by (auto intro!: bit_word_eqI simp: bit_take_bit_iff)
  have "take_bit 2 (uint s) = uint s" by (subst unsigned_take_bit_eq [symmetric]) (simp add: t)
  then have "uint s < 4" using take_bit_int_less_exp [of 2 "uint s"] by simp
  then have "uint s = 0 \<or> uint s = 1 \<or> uint s = 2 \<or> uint s = 3" using unsigned_greater_eq [where ?'a = int and w = s] by linarith
  then show ?thesis by (metis insertCI of_int_0 of_int_1 of_int_numeral word_of_int_uint)
qed

lemma set_ev_state_fields:
  assumes "set_ev_state c ev s = Some c'"
  shows "next_ev c' = next_ev c" "num_paths c' = num_paths c" "params c' = params c" "length (ev_state c') = length (ev_state c)"
  using assms by (auto simp: set_ev_state_def split: if_splits)

definition paths_ok :: "uet_cc_ctx \<Rightarrow> bool" where
  "paths_ok c \<longleftrightarrow> unat (next_ev c) < unat (num_paths c) \<and> unat (num_paths c) \<le> 4 * length (ev_state c)"

lemma paths_ok_in: "paths_ok c \<Longrightarrow> unat e < unat (num_paths c) \<Longrightarrow> ev_idx e < length (ev_state c)"
  by (auto simp: paths_ok_def ev_idx_def drop_bit_eq_div unat_div)

definition ev_next :: "uet_cc_ctx \<Rightarrow> uet_cc_ctx" where
  "ev_next c = c\<lparr>next_ev := (if next_ev c + 1 = ucast (num_paths c) then 0 else next_ev c + 1)\<rparr>"

lemma ev_next_fields [simp]: "num_paths (ev_next c) = num_paths c" "params (ev_next c) = params c"
  by (simp_all add: ev_next_def)

lemma ev_next_unat:
  assumes "paths_ok c"
  shows "unat (next_ev (ev_next c)) = (if Suc (unat (next_ev c)) = unat (num_paths c) then 0 else Suc (unat (next_ev c)))"
    "unat (ucast (next_ev c) :: u16) = unat (next_ev c)" "paths_ok (ev_next c)" "get_ev_state (ev_next c) = get_ev_state c"
proof -
  have P: "unat (num_paths c) < 2 ^ 16" using unsigned_less [where ?'a = nat and w = "num_paths c"] by simp
  then have n: "unat (next_ev c) < 2 ^ 16 - 1" using assms by (simp add: paths_ok_def)
  then have S: "unat (next_ev c + 1) = Suc (unat (next_ev c))" by (simp add: unat_word_ariths)
  then have "next_ev c + 1 = ucast (num_paths c) \<longleftrightarrow> Suc (unat (next_ev c)) = unat (num_paths c)"
    using P by (simp add: word_unat_eq_iff unsigned_ucast_eq take_bit_nat_eq_self)
  then show u: "unat (next_ev (ev_next c)) = (if Suc (unat (next_ev c)) = unat (num_paths c) then 0 else Suc (unat (next_ev c)))"
    using S by (simp add: ev_next_def)
  show "unat (ucast (next_ev c) :: u16) = unat (next_ev c)" using n by (simp add: unsigned_ucast_eq take_bit_nat_eq_self)
  show "paths_ok (ev_next c)" using assms u by (auto simp: paths_ok_def ev_next_def)
  show "get_ev_state (ev_next c) = get_ev_state c" by (simp add: fun_eq_iff get_ev_state_def ev_next_def)
qed

lemma ev_loop_selective: "spraying_type (params c) = UET_CC_SELECTIVE_SPRAY \<Longrightarrow> ev_loop c =
    (case get_ev_state c (ucast (next_ev c)) of None \<Rightarrow> None
     | Some s \<Rightarrow> if s = UET_CC_PATH_GOOD then Some (next_ev c, ev_next c)
         else if s = UET_CC_PATH_SKIP then Option.bind (set_ev_state (ev_next c) (ucast (next_ev c)) UET_CC_PATH_GOOD) ev_loop
         else ev_loop (ev_next c))"
  by (subst ev_loop.simps) (auto simp: Let_def get_ev_state_def ev_next_def split: option.splits)

definition ev_dist :: "uet_cc_ctx \<Rightarrow> u16 \<Rightarrow> nat" where
  "ev_dist c e = (let n = unat (next_ev c); k = unat e in (if n \<le> k then k - n else k + unat (num_paths c) - n)
     + (if get_ev_state c e = Some UET_CC_PATH_GOOD then 0 else unat (num_paths c)))"

text \<open>What the loop leaves of the table of states: a path marked to be skipped may have been passed over.\<close>

definition ev_passed :: "uet_cc_ctx \<Rightarrow> uet_cc_ctx \<Rightarrow> bool" where
  "ev_passed c c' \<longleftrightarrow> (\<forall>x. get_ev_state c' x = get_ev_state c x
     \<or> get_ev_state c x = Some UET_CC_PATH_SKIP \<and> get_ev_state c' x = Some UET_CC_PATH_GOOD)"

lemma ev_loop_finds:
  assumes "paths_ok c" "spraying_type (params c) = UET_CC_SELECTIVE_SPRAY" "unat e < unat (num_paths c)"
    "get_ev_state c e \<in> {Some UET_CC_PATH_GOOD, Some UET_CC_PATH_SKIP}"
  shows "\<exists>ev c'. ev_loop c = Some (ev, c') \<and> unat ev < unat (num_paths c) \<and> ev_passed c c'
    \<and> get_ev_state c' (ucast ev) = Some UET_CC_PATH_GOOD \<and> paths_ok c'"
  using assms
proof (induction "ev_dist c e" arbitrary: c rule: less_induct)
  case less
  let ?n = "ucast (next_ev c) :: u16" and ?c = "ev_next c"
  note nx = ev_next_unat [OF less.prems(1)]
  have n: "unat ?n < unat (num_paths c)" using less.prems(1) nx(2) by (simp add: paths_ok_def)
  obtain s where s: "get_ev_state c ?n = Some s" using paths_ok_in [OF less.prems(1) n] by (simp add: get_ev_state_def)
  have step: "\<exists>ev c'. ev_loop d = Some (ev, c') \<and> unat ev < unat (num_paths c) \<and> ev_passed c c'
      \<and> get_ev_state c' (ucast ev) = Some UET_CC_PATH_GOOD \<and> paths_ok c'"
    if d: "next_ev d = next_ev ?c" "num_paths d = num_paths c" "params d = params c" "paths_ok d" "ev_passed c d"
      and e: "?n = e \<longrightarrow> get_ev_state d e = Some UET_CC_PATH_GOOD \<and> s = UET_CC_PATH_SKIP" for d
  proof -
    have g: "get_ev_state d e \<in> {Some UET_CC_PATH_GOOD, Some UET_CC_PATH_SKIP}"
      "get_ev_state c e = Some UET_CC_PATH_GOOD \<longrightarrow> get_ev_state d e = Some UET_CC_PATH_GOOD"
      using spec [OF d(5) [unfolded ev_passed_def], of e] less.prems(4) by auto
    have "ev_dist d e < ev_dist c e"
    proof (cases "?n = e")
      case True
      then have "unat e = unat (next_ev c)" "get_ev_state c e = Some 2" "get_ev_state d e = Some 0" using e s nx(2) by auto
      then show ?thesis using nx(1) n less.prems(3) d(1,2) by (auto simp: ev_dist_def Let_def)
    next
      case False
      then have "unat e \<noteq> unat (next_ev c)" using nx(2) by (metis word_unat_eq_iff)
      then show ?thesis using g nx(1,2) n less.prems(3) d(1,2) by (auto simp: ev_dist_def Let_def)
    qed
    then obtain ev c' where "ev_loop d = Some (ev, c')" "unat ev < unat (num_paths c)" "ev_passed d c'"
      "get_ev_state c' (ucast ev) = Some UET_CC_PATH_GOOD" "paths_ok c'"
      using less.hyps [of d] less.prems d g by (metis)
    moreover have "ev_passed c c'" using d(5) \<open>ev_passed d c'\<close> unfolding ev_passed_def by metis
    ultimately show ?thesis by blast
  qed
  have same: "ev_passed c ?c" using nx(4) by (simp add: ev_passed_def)
  consider "s = UET_CC_PATH_GOOD" | "s = UET_CC_PATH_SKIP" | "s \<noteq> UET_CC_PATH_GOOD" "s \<noteq> UET_CC_PATH_SKIP" by blast
  then show ?case
  proof cases
    case 1
    then show ?thesis using ev_loop_selective [OF less.prems(2)] s n nx same by simp
  next
    case 2
    obtain d where d: "set_ev_state ?c ?n UET_CC_PATH_GOOD = Some d"
      using paths_ok_in [OF less.prems(1) n] by (simp add: set_ev_state_def ev_next_def)
    have "get_ev_state d x = (if x = ?n then Some UET_CC_PATH_GOOD else get_ev_state c x)" for x
      using get_set_ev_state [OF d] nx(4) by simp
    then have "ev_passed c d" "get_ev_state d ?n = Some UET_CC_PATH_GOOD" using s 2 by (simp_all add: ev_passed_def)
    moreover have "paths_ok d" "next_ev d = next_ev ?c" "num_paths d = num_paths c" "params d = params c"
      using nx(3) set_ev_state_fields [OF d] by (simp_all add: paths_ok_def ev_next_def)
    ultimately show ?thesis using ev_loop_selective [OF less.prems(2)] s 2 d step [of d] by fastforce
  next
    case 3
    then have "?n \<noteq> e" using s less.prems(4) by auto
    then show ?thesis using ev_loop_selective [OF less.prems(2)] s 3 nx(3) same step [of ?c] by simp
  qed
qed

definition all_bad :: "uet_cc_ctx \<Rightarrow> bool" where
  "all_bad c \<longleftrightarrow> paths_ok c \<and> spraying_type (params c) = UET_CC_SELECTIVE_SPRAY
     \<and> (\<forall>e. unat e < unat (num_paths c) \<longrightarrow> get_ev_state c e = Some UET_CC_PATH_BAD)"

lemma ev_loop_stuck: "ev_loop c = Some r \<Longrightarrow> \<not> all_bad c"
proof (erule ev_loop.raw_induct [rotated], rule notI)
  fix loop c r
  assume IH: "\<And>c r. loop c = Some r \<Longrightarrow> \<not> all_bad c" and bad: "all_bad c"
    and r: "(let ev = next_ev c; n = ev + 1; c = c\<lparr>next_ev := (if n = ucast (num_paths c) then 0 else n)\<rparr> in
      if spraying_type (params c) = UET_CC_OBLIVIOUS_SPRAY then Some (ev, c)
      else Option.bind (get_ev_state c (ucast ev)) (\<lambda>s.
        if s = UET_CC_PATH_GOOD then Some (ev, c)
        else if s = UET_CC_PATH_SKIP then Option.bind (set_ev_state c (ucast ev) UET_CC_PATH_GOOD) loop
        else loop c)) = Some r"
  have ok: "paths_ok c" using bad by (simp add: all_bad_def)
  note nx = ev_next_unat [OF ok]
  have "get_ev_state (ev_next c) (ucast (next_ev c)) = Some UET_CC_PATH_BAD"
    using bad nx(2,4) ok by (simp add: all_bad_def paths_ok_def)
  then have "loop (ev_next c) = Some r" using r bad by (simp add: Let_def ev_next_def all_bad_def)
  moreover have "all_bad (ev_next c)" using bad nx(3,4) by (simp add: all_bad_def)
  ultimately show False using IH by blast
qed

text \<open>C25: choosing a path for a packet.  When paths are sprayed selectively and the table of states covers them,
  the loop ends if and only if some path is not marked as bad; it then returns a path that was not bad, and
  changes nothing but marks of paths to be skipped.  With all paths bad it never returns.\<close>

theorem select_entropy_returns:
  assumes "paths_ok c" "spraying_type (params c) = UET_CC_SELECTIVE_SPRAY" "\<forall>e. get_ev_state c e \<noteq> Some 3"
  shows "case select_entropy c of
      None \<Rightarrow> \<forall>e. unat e < unat (num_paths c) \<longrightarrow> get_ev_state c e = Some UET_CC_PATH_BAD
    | Some (ev, c') \<Rightarrow> unat ev < unat (num_paths c) \<and> get_ev_state c (ucast ev) \<noteq> Some UET_CC_PATH_BAD
        \<and> get_ev_state c' (ucast ev) = Some UET_CC_PATH_GOOD \<and> ev_passed c c'"
proof (cases "\<exists>e. unat e < unat (num_paths c) \<and> get_ev_state c e \<noteq> Some UET_CC_PATH_BAD")
  case True
  then obtain e where e: "unat e < unat (num_paths c)" "get_ev_state c e \<noteq> Some UET_CC_PATH_BAD" by blast
  obtain s where s: "get_ev_state c e = Some s" using paths_ok_in [OF assms(1) e(1)] by (simp add: get_ev_state_def)
  have "s \<in> {0, 1, 2, 3}" using get_ev_state_range [OF s] .
  then have "get_ev_state c e \<in> {Some UET_CC_PATH_GOOD, Some UET_CC_PATH_SKIP}" using s e(2) assms(3) by auto
  from ev_loop_finds [OF assms(1,2) e(1) this] obtain ev c' where r: "ev_loop c = Some (ev, c')" "unat ev < unat (num_paths c)"
    "ev_passed c c'" "get_ev_state c' (ucast ev) = Some UET_CC_PATH_GOOD" by blast
  then show ?thesis using spec [OF r(3) [unfolded ev_passed_def], of "ucast ev"] assms(2) by (auto simp: select_entropy_def)
next
  case False
  then have "ev_loop c = None" using ev_loop_stuck [of c] assms by (cases "ev_loop c") (auto simp: all_bad_def)
  then show ?thesis using False assms(2) by (simp add: select_entropy_def)
qed

definition cc_demo :: "u8 list \<Rightarrow> uet_cc_ctx" where
  "cc_demo evs = \<lparr>params = \<lparr>bdp_bytes = 12000, cwnd_max = 15000, base_rtt_usec = 12, target_qdelay_usec = 6, qa_scale = 1,
       qa_thresh = 24, adj_bytes_thresh = 12000, adj_usec_thresh = 12, fi_scale = 1, p_pi = 7500, scaling_c = 0, p_alpha = 0,
       p_fd = 1 / 2, p_fi = 1, p_gamma = 0, scaling_factor_a = 1, p_eta = 1, ecn_alpha = 1 / 8, ecn_thresh = 1 / 5,
       max_md_factor = 1 / 2, delay_ewma_factor = 1 / 2, max_paths = 4, p_mtu = 1500, spraying_type = UET_CC_SELECTIVE_SPRAY\<rparr>,
     cwnd = 15000, backlog = 0, in_flight = 0, recv_bytes = 0, achieved_bytes = 0, fi_cnt = 0, qa_ign_bytes = 0, inc_bytes = 0,
     dec_bytes = 0, rtx_cnt = 0, avg_delay_usec = 0, next_ev = 0, ccc_state = UET_CCC_STATE_IDLE, qa_end = \<lparr>tv_sec = 0, tv_nsec = 0\<rparr>,
     last_cwnd_adj = \<lparr>tv_sec = 0, tv_nsec = 0\<rparr>, last_dec = \<lparr>tv_sec = 0, tv_nsec = 0\<rparr>, ev_state = evs, num_paths = 4,
     bad_paths = 0, skip_paths = 0, qa_trigger = False, fi_active = False, ecn_exp_table = replicate 16 (7 / 8), avg_ecn_rate = 0,
     cc_tick = 1, cc_log = []\<rparr>"

lemma ev_idx_0:
  assumes "ev_idx e = 0"
  shows "e \<in> {0, 1, 2, 3}"
proof -
  have "unat e < 4" using assms by (simp add: ev_idx_def drop_bit_eq_div unat_div)
  then have "unat e = 0 \<or> unat e = 1 \<or> unat e = 2 \<or> unat e = 3" by linarith
  then show ?thesis by (simp add: word_unat_eq_iff)
qed

lemma cc_demo_states: "get_ev_state (cc_demo [0x95]) e = (if e \<in> {0, 1, 2} then Some 1 else if e = 3 then Some 2 else None)"
  using ev_idx_0 [of e] by (auto simp: get_ev_state_def cc_demo_def ev_idx_def ev_shift_def)

text \<open>Of four paths three are bad and the last one is to be skipped: it is chosen in the second round.\<close>

theorem select_entropy_returns_witness:
  "\<exists>c'. select_entropy (cc_demo [0x95]) = Some (3, c') \<and> get_ev_state c' 3 = Some UET_CC_PATH_GOOD"
proof -
  let ?c = "cc_demo [0x95]"
  have "paths_ok ?c" "spraying_type (params ?c) = UET_CC_SELECTIVE_SPRAY" "num_paths ?c = 4"
    by (simp_all add: paths_ok_def cc_demo_def)
  moreover have "get_ev_state ?c 3 = Some 2" "\<forall>e. get_ev_state ?c e \<noteq> Some 3" by (auto simp: cc_demo_states)
  ultimately obtain ev c' where r: "select_entropy ?c = Some (ev, c')" "unat ev < 4" "get_ev_state ?c (ucast ev) \<noteq> Some 1"
    "get_ev_state c' (ucast ev) = Some UET_CC_PATH_GOOD"
    using select_entropy_returns [of ?c] by (auto split: option.splits)
  from r(2) have "unat ev = 0 \<or> unat ev = 1 \<or> unat ev = 2 \<or> unat ev = 3" by linarith
  then have "ev = 0 \<or> ev = 1 \<or> ev = 2 \<or> ev = 3" by (simp add: word_unat_eq_iff)
  then show ?thesis using r(1,3,4) by (auto simp: cc_demo_states)
qed

end
