(* ===== verification/CcWindow.thy ===== *)
theory CcWindow
  imports Cc
begin

text \<open>
  The window of a freshly allocated congestion control context, and the two tables it is allocated with.
\<close>

section \<open>Rounding\<close>

lemma rne_int: "rne (of_int k) = k"
  by (simp add: rne_def)

lemma flog2_int:
  assumes "0 < n" "n < 2 ^ k"
  shows "flog2 (of_int n) < int k"
proof -
  have "bitlen n \<le> int k" using assms by (simp add: bitlen_le_iff_power)
  moreover have "bitlen 1 = 1" by (simp add: bitlen_def compute_floorlog)
  ultimately show ?thesis by (simp add: flog2_def Let_def)
qed

lemma fl_int:
  assumes "0 \<le> n" "n < 2 ^ k" "int k \<le> p" "emin \<le> 0"
  shows "fl p emin (of_int n) = of_int n"
proof (cases "n = 0")
  case False
  define q where "q = max (flog2 (of_int n) - (p - 1)) emin"
  have "q \<le> 0" using flog2_int [of n k] assms False by (auto simp: q_def)
  then obtain j where j: "q = - int j" by (metis int_nat_eq minus_minus neg_0_le_iff_le nonneg_eq_int)
  have "fl p emin (of_int n) = of_int (rne (of_int n / 2 powi q)) * 2 powi q" using assms False by (simp add: fl_def q_def Let_def)
  also have "of_int n / 2 powi q = (of_int (n * 2 ^ j) :: rat)" by (simp add: j power_int_minus divide_inverse)
  finally show ?thesis by (simp add: rne_int j power_int_minus del: of_int_mult) simp
qed (simp add: fl_def)

lemmas f32_int = fl_int [where k = 24 and p = 24 and emin = "- 149", folded f32_def, simplified]
lemmas f64_int = fl_int [where k = 53 and p = 53 and emin = "- 1074", folded f64_def, simplified]

lemma f32_01 [simp]: "f32 0 = 0" "f32 1 = 1"
  using f32_int [of 0] f32_int [of 1] by simp_all

lemma fu32_int: "n < 2 ^ 24 \<Longrightarrow> fu32 n = of_int (uint n)"
  unfolding fu32_def by (rule f32_int) (simp_all add: word_less_def)

lemma to_u32_int:
  assumes "0 \<le> k" "k < 2 ^ 32"
  shows "to_u32 (of_int k) = Some (word_of_int k)"
proof -
  have "(of_int k :: rat) < of_int (2 ^ 32)" unfolding of_int_less_iff by fact
  moreover have "(0 :: rat) \<le> of_int k" using assms(1) by simp
  ultimately show ?thesis by (auto simp: to_u32_def)
qed

lemma to_u32_fu32: "n < 2 ^ 24 \<Longrightarrow> to_u32 (fu32 n) = Some n"
  using to_u32_int [of "uint n"] unsigned_less [where ?'a = int and w = n] by (simp add: fu32_int)

lemma f32_fu32: "n < 2 ^ 24 \<Longrightarrow> f32 (fu32 n) = fu32 n"
  using f32_int [of "uint n"] by (simp add: fu32_int word_less_def)

lemma fu32_0 [simp]: "fu32 0 = 0"
  by (simp add: fu32_def)

lemma fu32_nonneg: "0 \<le> fu32 n"
proof -
  have r: "0 \<le> x \<Longrightarrow> 0 \<le> rne x" for x by (auto simp: rne_def Let_def)
  have "0 \<le> x \<Longrightarrow> 0 \<le> f32 x" for x by (auto simp: f32_def fl_def Let_def intro!: mult_nonneg_nonneg r)
  from this [of "of_int (uint n)"] show ?thesis unfolding fu32_def by (simp del: of_int_uint)
qed

lemma div_minus_one_same: "m mod 4 \<noteq> 0 \<Longrightarrow> (m - 1) div 4 = m div (4 :: nat)"
  by presburger

section \<open>Allocation\<close>

lemma alloc_fields:
  assumes "uet_cc_alloc_ctx clk ok1 ok2 spray trim mtu bw rtt paths = Some (Some c)"
  shows "length (ev_state c) = unat paths div 4" "length (ecn_exp_table c) = 16" "p_mtu (params c) = mtu"
    "p_gamma (params c) = 0" "max_md_factor (params c) = 1 / 2"
    "\<exists>sc. udiv (ucast mtu) ((if trim then rtt div 2 else rtt) * (5 * ucast mtu)) = Some sc
       \<and> p_alpha (params c) = f32 (fu32 (5 * ucast mtu * ucast mtu) * fu32 sc)"
proof -
  have "length (decay_table n f d) = n" for n f d by (induction n arbitrary: d) auto
  then show "length (ev_state c) = unat paths div 4" "length (ecn_exp_table c) = 16" "p_mtu (params c) = mtu"
    "p_gamma (params c) = 0" "max_md_factor (params c) = 1 / 2"
    "\<exists>sc. udiv (ucast mtu) ((if trim then rtt div 2 else rtt) * (5 * ucast mtu)) = Some sc
       \<and> p_alpha (params c) = f32 (fu32 (5 * ucast mtu * ucast mtu) * fu32 sc)"
    using assms by (auto simp: uet_cc_alloc_ctx_def cc_params_def Let_def bind_eq_Some_conv split: if_splits)
qed

lemma udiv_small:
  fixes t :: u32 and mtu :: u16
  assumes "udiv (ucast mtu) (t * (5 * ucast mtu)) = Some sc" "unat t * (5 * unat mtu) < 2 ^ 32"
  shows "sc = 0"
proof -
  have m: "unat (ucast mtu :: u32) = unat mtu" "unat mtu < 2 ^ 16"
    using unsigned_less [where ?'a = nat and w = mtu] by (simp_all add: unsigned_ucast_eq take_bit_nat_eq_self)
  then have "unat (5 * ucast mtu :: u32) = 5 * unat mtu" by (simp add: unat_word_ariths)
  then have p: "unat (t * (5 * ucast mtu)) = unat t * (5 * unat mtu)" using assms(2) by (simp add: unat_word_ariths)
  have "t * (5 * ucast mtu) \<noteq> 0" using assms(1) by (auto simp: udiv_def)
  then have "0 < unat t * (5 * unat mtu)" using p by (metis unat_eq_0 gr0I)
  then have "unat mtu < unat t * (5 * unat mtu)" by (cases "unat t") auto
  then show ?thesis using assms(1) p m(1) by (auto simp: udiv_def word_unat_eq_iff unat_div split: if_splits)
qed

text \<open>C26: a freshly allocated context never increases its window in proportion to the queueing delay nor decreases
  it in proportion to the delay: an integer division makes the first gain zero, and the second is never set.  The product of
  the target delay and five packets is below \<open>2 ^ 32\<close>, so that it does not wrap around, the bytes to add and the window
  are below \<open>2 ^ 24\<close>, which a float holds exactly, and the delay is not zero.\<close>

theorem cc_gains_zero:
  assumes alloc: "uet_cc_alloc_ctx clk ok1 ok2 spray trim mtu bw rtt paths = Some (Some c)"
    and "(if trim then unat rtt div 2 else unat rtt) * (5 * unat mtu) < 2 ^ 32" "params d = params c"
  shows "(inc_bytes d < 2 ^ 24 \<and> delay \<noteq> 0 \<longrightarrow>
      proportional_increase d n delay = fair_increase (d\<lparr>fi_cnt := 0, fi_active := False\<rparr>) n)
    \<and> (cwnd d < 2 ^ 24 \<and> aggressive_decrease clk' d b n = Some d' \<longrightarrow> cwnd d' = cwnd d)"
proof -
  note al = alloc_fields [OF alloc]
  let ?t = "if trim then rtt div 2 else rtt"
  obtain sc where sc: "udiv (ucast mtu) (?t * (5 * ucast mtu)) = Some sc"
    "p_alpha (params c) = f32 (fu32 (5 * ucast mtu * ucast mtu) * fu32 sc)" using al(6) by blast
  have "sc = 0" using sc(1) udiv_small [of mtu ?t sc] assms(2) by (simp add: unat_div split: if_splits)
  then have alpha: "p_alpha (params d) = 0" using sc(2) assms(3) by simp
  have "proportional_increase d n delay = fair_increase (d\<lparr>fi_cnt := 0, fi_active := False\<rparr>) n"
    if "inc_bytes d < 2 ^ 24" "delay \<noteq> 0"
    using that alpha fu32_nonneg [of "n * p_pi (params d)"] f32_fu32 [OF that(1)] to_u32_fu32 [OF that(1)]
    by (simp add: proportional_increase_def fast_increase_def Let_def)
  moreover have "cwnd d' = cwnd d" if "cwnd d < 2 ^ 24" "aggressive_decrease clk' d b n = Some d'"
    using that(2) al(4,5) assms(3) f32_fu32 [OF that(1)] to_u32_fu32 [OF that(1)]
    by (auto simp: aggressive_decrease_def clock_gettime_def fair_decrease_def Let_def bind_eq_Some_conv split: if_splits)
  ultimately show ?thesis by blast
qed

text \<open>C27: the tables of a context are too short.  With a number of paths that is not a multiple of four the states of
  the last paths lie behind the table of states, and an acknowledgement of 16 or more packets reads
  behind the table of decay factors.\<close>

theorem cc_table_overruns:
  assumes "uet_cc_alloc_ctx clk ok1 ok2 spray trim mtu bw rtt paths = Some (Some c)"
    "length (ev_state d) = length (ev_state c)" "length (ecn_exp_table d) = length (ecn_exp_table c)" "params d = params c"
  shows "(unat paths mod 4 \<noteq> 0 \<longrightarrow> uet_cc_process_ack clk' d (Some (paths - 1)) skip r n = None)
    \<and> (16 * unat mtu \<le> unat n \<longrightarrow> uet_cc_process_ack clk' d ev skip r (- n) = None)"
proof -
  note al = alloc_fields [OF assms(1)]
  have delay: "ev_state x = ev_state y \<and> ecn_exp_table x = ecn_exp_table y \<and> params x = params y"
    if "update_avg_delay y t = Some x" for x y t
    using that by (auto simp: update_avg_delay_def Let_def bind_eq_Some_conv)
  have "uet_cc_process_ack clk' d (Some (paths - 1)) skip r m = None" if m: "unat paths mod 4 \<noteq> 0" for m
  proof -
    have "paths \<noteq> 0" using m by auto
    then have "unat (paths - 1) = unat paths - 1" by (simp add: unat_minus_one)
    then have "ev_idx (paths - 1) = unat paths div 4" using m div_minus_one_same [of "unat paths"] by (simp add: ev_idx_def drop_bit_eq_div unat_div)
    then have "update_path x (paths - 1) u = None" if "ev_state x = ev_state d" for x u
      using that al(1) assms(2) by (simp add: update_path_def get_ev_state_def)
    then show ?thesis unfolding uet_cc_process_ack_def Let_def by (auto split: bind_splits dest!: delay)
  qed
  moreover have "uet_cc_process_ack clk' d ev skip r (- n) = None" if "16 * unat mtu \<le> unat n"
  proof -
    have "update_avg_ecn_rate x n skip = None" if "ecn_exp_table x = ecn_exp_table d" "params x = params d" for x
    proof (cases "mtu = 0")
      case False
      have "unat (ucast mtu :: u32) = unat mtu" using unsigned_less [where ?'a = nat and w = mtu]
        by (simp add: unsigned_ucast_eq take_bit_nat_eq_self)
      then have "16 \<le> n div ucast mtu"
        using \<open>16 * unat mtu \<le> unat n\<close> False by (simp add: word_le_nat_alt unat_div less_eq_div_iff_mult_less_eq unat_gt_0)
      then show ?thesis using that al(2,3) assms(3,4) by (auto simp: update_avg_ecn_rate_def min_absorb1 split: bind_splits simp: udiv_def split: if_splits)
    qed (use that al(3) assms(4) in \<open>simp add: update_avg_ecn_rate_def udiv_def\<close>)
    moreover have "ecn_exp_table x = ecn_exp_table y \<and> params x = params y" if "update_path y e u = Some x" for x y e u
      using that by (cases u) (auto simp: update_path_def set_ev_state_def Let_def bind_eq_Some_conv split: if_splits)
    ultimately show ?thesis unfolding uet_cc_process_ack_def Let_def by (auto split: bind_splits option.splits dest!: delay)
  qed
  ultimately show ?thesis by blast
qed

lemma cc_alloc_demo: "\<exists>c. uet_cc_alloc_ctx (\<lambda>_. \<lparr>tv_sec = 1, tv_nsec = 0\<rparr>) True True spray True 1500 100000 12 paths = Some (Some c)
    \<and> cwnd c = 187500"
  using f64_int [of 187500] to_u32_int [of 187500]
  by (simp add: uet_cc_alloc_ctx_def cc_params_def Let_def udiv_def)

theorem cc_gains_zero_witness:
  "\<exists>c. uet_cc_alloc_ctx (\<lambda>_. \<lparr>tv_sec = 1, tv_nsec = 0\<rparr>) True True UET_CC_NO_SPRAY True 1500 100000 12 4 = Some (Some c)
    \<and> proportional_increase c 1500 3 = fair_increase (c\<lparr>fi_cnt := 0, fi_active := False\<rparr>) 1500"
proof -
  obtain c where c: "uet_cc_alloc_ctx (\<lambda>_. \<lparr>tv_sec = 1, tv_nsec = 0\<rparr>) True True UET_CC_NO_SPRAY True 1500 100000 12 4 = Some (Some c)"
    using cc_alloc_demo by blast
  moreover have "inc_bytes c = 0" using c by (auto simp: uet_cc_alloc_ctx_def Let_def bind_eq_Some_conv)
  ultimately show ?thesis using cc_gains_zero [OF c, of c 3 1500] by simp
qed

theorem cc_table_overruns_witness:
  "\<exists>c. uet_cc_alloc_ctx (\<lambda>_. \<lparr>tv_sec = 1, tv_nsec = 0\<rparr>) True True UET_CC_SELECTIVE_SPRAY True 1500 100000 12 6 = Some (Some c)
    \<and> uet_cc_process_ack (\<lambda>_. \<lparr>tv_sec = 1, tv_nsec = 0\<rparr>) c (Some 5) False 20 (- 1500) = None
    \<and> uet_cc_process_ack (\<lambda>_. \<lparr>tv_sec = 1, tv_nsec = 0\<rparr>) c None False 20 (- 24000) = None"
proof -
  obtain c where c: "uet_cc_alloc_ctx (\<lambda>_. \<lparr>tv_sec = 1, tv_nsec = 0\<rparr>) True True UET_CC_SELECTIVE_SPRAY True 1500 100000 12 6 = Some (Some c)"
    using cc_alloc_demo by blast
  then show ?thesis
    using cc_table_overruns [OF c refl refl refl, of _ False 20 "- 1500" None]
      cc_table_overruns [OF c refl refl refl, of _ False 20 24000 None]
    by simp
qed

end
