(* ===== verification/CcRun.thy ===== *)
theory CcRun
  imports CcWindow
begin

text \<open>
  Runs of a congestion control context: the calls of the reliability module in any order, and that a sender with data
  to send is never left waiting for nothing.
\<close>

section \<open>Runs\<close>

text \<open>The reliability module reports no more bytes as acknowledged or lost than are in flight, and the window does not
  wrap around to zero.\<close>

inductive cc_reach :: "clock \<Rightarrow> uet_cc_ctx \<Rightarrow> bool" for clk where
  alloc: "uet_cc_alloc_ctx clk True True spray trim mtu bw rtt paths = Some (Some c) \<Longrightarrow> cwnd c \<noteq> 0 \<Longrightarrow> cc_reach clk c"
| req: "cc_reach clk c \<Longrightarrow> cc_reach clk (uet_cc_req_to_send c d)"
| send: "cc_reach clk c \<Longrightarrow> uet_cc_send_complete c n re = Some (ev, c') \<Longrightarrow> unat (in_flight c) + unat n < 2 ^ 32
    \<Longrightarrow> cc_reach clk c'"
| ack: "cc_reach clk c \<Longrightarrow> uet_cc_process_ack clk c ev skip rtt (- n) = Some c' \<Longrightarrow> n \<le> in_flight c \<Longrightarrow> cwnd c' \<noteq> 0
    \<Longrightarrow> cc_reach clk c'"
| loss: "cc_reach clk c \<Longrightarrow> uet_cc_process_loss clk c n ev type skip = Some c' \<Longrightarrow> n \<le> in_flight c \<Longrightarrow> cwnd c' \<noteq> 0
    \<Longrightarrow> cc_reach clk c'"

section \<open>What the window computations keep\<close>

text \<open>All computations of the window leave the accounting of bytes alone.\<close>

definition cc_same :: "uet_cc_ctx \<Rightarrow> uet_cc_ctx \<Rightarrow> bool" where
  "cc_same c c' \<longleftrightarrow> in_flight c' = in_flight c \<and> qa_ign_bytes c' = qa_ign_bytes c \<and> backlog c' = backlog c \<and> rtx_cnt c' = rtx_cnt c
     \<and> ccc_state c' = ccc_state c"

named_theorems cc_keeps

lemma cc_same_refl [simp]: "cc_same c c"
  by (simp add: cc_same_def)

lemma cc_same_trans: "cc_same a b \<Longrightarrow> cc_same b c \<Longrightarrow> cc_same a c"
  by (simp add: cc_same_def)

lemma clock_gettime_same [cc_keeps]: "clock_gettime clk c = (now, c') \<Longrightarrow> cc_same c c' \<and> cwnd c' = cwnd c"
  by (auto simp: clock_gettime_def cc_same_def)

lemma set_ev_state_same [cc_keeps]: "set_ev_state c ev s = Some c' \<Longrightarrow> cc_same c c' \<and> cwnd c' = cwnd c"
  by (auto simp: set_ev_state_def cc_same_def split: if_splits)

lemma update_path_same [cc_keeps]: "update_path c ev u = Some c' \<Longrightarrow> cc_same c c' \<and> cwnd c' = cwnd c"
  by (cases u) (auto simp: update_path_def Let_def cc_same_def bind_eq_Some_conv split: if_splits dest!: set_ev_state_same)

lemma update_avg_same [cc_keeps]:
  "update_avg_delay c d = Some c' \<Longrightarrow> cc_same c c'" "update_avg_ecn_rate c n skip = Some c' \<Longrightarrow> cc_same c c'"
  by (auto simp: update_avg_delay_def update_avg_ecn_rate_def cc_same_def Let_def bind_eq_Some_conv)

lemma window_same [cc_keeps]:
  "fair_increase c n = Some c' \<Longrightarrow> cc_same c c'" "fair_decrease c b n = Some c' \<Longrightarrow> cc_same c c'"
  "adjust_cwnd clk c = Some c' \<Longrightarrow> cc_same c c'"
  by (auto simp: fair_increase_def fair_decrease_def adjust_cwnd_def clock_gettime_def cc_same_def Let_def
    bind_eq_Some_conv split: if_splits)

lemma fast_increase_same: "cc_same c (fast_increase c n d)"
  by (simp add: fast_increase_def cc_same_def Let_def)

lemma proportional_increase_same [cc_keeps]: "proportional_increase c n d = Some c' \<Longrightarrow> cc_same c c'"
  using fast_increase_same [of c n d]
  by (auto simp: proportional_increase_def Let_def bind_eq_Some_conv cc_same_def split: if_splits dest!: window_same(1))

lemma aggressive_decrease_same [cc_keeps]: "aggressive_decrease clk c b n = Some c' \<Longrightarrow> cc_same c c'"
  by (auto simp: aggressive_decrease_def clock_gettime_def Let_def bind_eq_Some_conv cc_same_def split: if_splits dest!: window_same(2))

lemma ack_window_same [cc_keeps]: "ack_window clk c skip d b n = Some c' \<Longrightarrow> cc_same c c'"
  by (auto simp: ack_window_def Let_def bind_eq_Some_conv clock_gettime_def cc_same_def split: if_splits dest!: cc_keeps)

lemma quick_adapt_same: "quick_adapt clk c loss = (b, c') \<Longrightarrow> in_flight c' = in_flight c \<and> backlog c' = backlog c \<and> rtx_cnt c' = rtx_cnt c
    \<and> ccc_state c' = ccc_state c \<and> (qa_ign_bytes c' = qa_ign_bytes c \<or> qa_ign_bytes c' = in_flight c)"
  by (auto simp: quick_adapt_def clock_gettime_def Let_def split: if_splits)

lemma ev_loop_same: "ev_loop c = Some r \<Longrightarrow> cc_same c (snd r) \<and> cwnd (snd r) = cwnd c"
proof (erule ev_loop.raw_induct [rotated])
  fix loop c r
  assume IH: "\<And>c r. loop c = Some r \<Longrightarrow> cc_same c (snd r) \<and> cwnd (snd r) = cwnd c"
    and r: "(let ev = next_ev c; n = ev + 1; c = c\<lparr>next_ev := (if n = ucast (num_paths c) then 0 else n)\<rparr> in
      if spraying_type (params c) = UET_CC_OBLIVIOUS_SPRAY then Some (ev, c)
      else Option.bind (get_ev_state c (ucast ev)) (\<lambda>s.
        if s = UET_CC_PATH_GOOD then Some (ev, c)
        else if s = UET_CC_PATH_SKIP then Option.bind (set_ev_state c (ucast ev) UET_CC_PATH_GOOD) loop
        else loop c)) = Some r"
  have n: "cc_same c (c\<lparr>next_ev := e\<rparr>)" for e by (simp add: cc_same_def)
  show "cc_same c (snd r) \<and> cwnd (snd r) = cwnd c"
    using r by (auto simp: Let_def bind_eq_Some_conv n split: if_splits dest!: IH set_ev_state_same intro: cc_same_trans [OF n] cc_same_trans)
qed

lemma select_entropy_same [cc_keeps]: "select_entropy c = Some (ev, c') \<Longrightarrow> cc_same c c' \<and> cwnd c' = cwnd c"
  by (auto simp: select_entropy_def split: if_splits dest!: ev_loop_same)

section \<open>The state machine\<close>

definition to_send :: "uet_cc_ctx \<Rightarrow> bool" where
  "to_send c \<longleftrightarrow> backlog c \<noteq> 0 \<or> rtx_cnt c \<noteq> 0"

lemma update_ccc_state_same: "in_flight (update_ccc_state c) = in_flight c \<and> qa_ign_bytes (update_ccc_state c) = qa_ign_bytes c
    \<and> backlog (update_ccc_state c) = backlog c \<and> rtx_cnt (update_ccc_state c) = rtx_cnt c \<and> cwnd (update_ccc_state c) = cwnd c"
  by (simp add: update_ccc_state_def Let_def)

lemma update_ccc_state_ready: "ccc_state (update_ccc_state c) = UET_CCC_STATE_READY \<longleftrightarrow> to_send c \<and> in_flight c < cwnd c"
  by (cases "ccc_state c") (auto simp: update_ccc_state_def Let_def to_send_def word_gt_0)

definition cc_inv :: "uet_cc_ctx \<Rightarrow> bool" where
  "cc_inv c \<longleftrightarrow> cwnd c \<noteq> 0 \<and> qa_ign_bytes c \<le> in_flight c
     \<and> (to_send c \<and> in_flight c < cwnd c \<longrightarrow> ccc_state c = UET_CCC_STATE_READY \<or> in_flight c \<noteq> 0)"

lemma update_ccc_state_inv: "cwnd c \<noteq> 0 \<Longrightarrow> qa_ign_bytes c \<le> in_flight c \<Longrightarrow> cc_inv (update_ccc_state c)"
  using update_ccc_state_same [of c] update_ccc_state_ready [of c] by (simp add: cc_inv_def to_send_def)

lemma process_ack_inv:
  assumes "uet_cc_process_ack clk c ev skip rtt (- n) = Some c'" "n \<le> in_flight c" "cc_inv c" "cwnd c' \<noteq> 0"
  shows "cc_inv c'"
proof -
  let ?q = "qa_ign_bytes c - min n (qa_ign_bytes c)" and ?f = "in_flight c - n"
  have q: "?q \<le> ?f" using assms(2,3) by (auto simp: cc_inv_def min_def word_le_nat_alt unat_sub word_less_nat_alt)
  define c0 where "c0 = c\<lparr>in_flight := in_flight c + - n, qa_ign_bytes := ?q, recv_bytes := recv_bytes c + n, achieved_bytes := achieved_bytes c + n\<rparr>"
  define d where "d = (word_of_int (max 0 (uint rtt - uint (base_rtt_usec (params c0)))) :: u32)"
  have c0: "in_flight c0 = ?f" "qa_ign_bytes c0 = ?q" by (simp_all add: c0_def)
  from assms(1) obtain c1 c2 c3 where u: "update_avg_delay c0 d = Some c1" "(case ev of None \<Rightarrow> Some c1
      | Some e \<Rightarrow> update_path c1 e (if skip then UET_CC_PATH_ECN else UET_CC_PATH_ACK)) = Some c2"
      "update_avg_ecn_rate c2 n skip = Some c3"
    and r: "(if qa_ign_bytes c3 \<noteq> 0 \<and> skip then Some c3
     else case quick_adapt clk c3 False of
         (True, c) \<Rightarrow> Some (update_ccc_state c)
       | (False, c) \<Rightarrow> map_option update_ccc_state (ack_window clk c skip d (avg_ecn_rate c3 > ecn_thresh (params c3)) n)) = Some c'"
    unfolding uet_cc_process_ack_def Let_def minus_minus c0_def [symmetric] d_def [symmetric] bind_eq_Some_conv by blast
  have "cc_same c1 c2" using u(2) by (auto split: option.splits dest!: update_path_same)
  then have c3: "in_flight c3 = ?f" "qa_ign_bytes c3 = ?q" using c0 u(1,3) by (auto simp: cc_same_def dest!: update_avg_same)
  have upd: "cc_inv (update_ccc_state x)" if "cwnd (update_ccc_state x) \<noteq> 0" "qa_ign_bytes x \<le> in_flight x" for x
    using that update_ccc_state_same by (intro update_ccc_state_inv) simp_all
  show ?thesis
  proof (cases "qa_ign_bytes c3 \<noteq> 0 \<and> skip")
    case True
    then have "c' = c3" using r by simp
    then show ?thesis using True c3 q assms(4) by (auto simp: cc_inv_def)
  next
    case False
    obtain b x where x: "quick_adapt clk c3 False = (b, x)" by fastforce
    have "qa_ign_bytes x \<le> in_flight x" using quick_adapt_same [OF x] c3 q by auto
    then show ?thesis using r False x assms(4) upd
      by (auto simp: cc_same_def split: bool.splits dest!: ack_window_same)
  qed
qed

lemma process_loss_inv:
  assumes "uet_cc_process_loss clk c n ev type skip = Some c'" "n \<le> in_flight c" "cc_inv c" "cwnd c' \<noteq> 0"
  shows "cc_inv c'"
proof -
  let ?c = "retx c n"
  have f: "in_flight ?c = in_flight c - n" "qa_ign_bytes ?c = qa_ign_bytes c" "cwnd ?c = cwnd c"
    "ccc_state ?c = UET_CCC_STATE_READY \<longleftrightarrow> to_send ?c \<and> in_flight ?c < cwnd ?c"
    by (simp_all add: retx_def update_ccc_state_same update_ccc_state_ready to_send_def)
  obtain x where x: "in_flight x = in_flight ?c" "qa_ign_bytes x = qa_ign_bytes c \<or> qa_ign_bytes x = in_flight ?c" "to_send x = to_send ?c"
      "ccc_state x = ccc_state ?c"
    and c': "c' = x\<lparr>qa_ign_bytes := qa_ign_bytes x - min n (qa_ign_bytes x)\<rparr>"
  proof -
    let ?d = "?c\<lparr>qa_trigger := True\<rparr>"
    obtain b y where qa: "quick_adapt clk ?d True = (b, y)" by fastforce
    let ?y = "if qa_ign_bytes ?d = 0 then y else ?d"
    have y: "in_flight ?y = in_flight ?c \<and> (qa_ign_bytes ?y = qa_ign_bytes c \<or> qa_ign_bytes ?y = in_flight ?c)
        \<and> to_send ?y = to_send ?c \<and> ccc_state ?y = ccc_state ?c"
      using quick_adapt_same [OF qa] f(2) by (auto simp: to_send_def)
    from assms(1) obtain x where c': "c' = x\<lparr>qa_ign_bytes := qa_ign_bytes x - min n (qa_ign_bytes x)\<rparr>"
      and x: "(if type = UET_CC_LOSS_TYPE_TIMEOUT \<or> type = UET_CC_LOSS_TYPE_NACK then
          (case ev of Some e \<Rightarrow> if type = UET_CC_LOSS_TYPE_NACK then update_path ?y e UET_CC_PATH_NACK else Some ?y | None \<Rightarrow> Some ?y)
          else Some ?c) = Some x"
      unfolding uet_cc_process_loss_def Let_def bind_eq_Some_conv qa snd_conv by blast
    from x have "cc_same ?c x \<or> cc_same ?y x"
      by (auto simp del: if_split split: option.splits if_splits dest!: update_path_same)
    then have "in_flight x = in_flight ?c \<and> (qa_ign_bytes x = qa_ign_bytes c \<or> qa_ign_bytes x = in_flight ?c)
        \<and> to_send x = to_send ?c \<and> ccc_state x = ccc_state ?c"
      using y f(2) unfolding cc_same_def to_send_def by auto
    then show ?thesis using c' that by blast
  qed
  have "qa_ign_bytes x - min n (qa_ign_bytes x) \<le> in_flight x"
    using x(1,2) f(1) assms(2,3) by (auto simp: cc_inv_def min_def word_le_nat_alt unat_sub word_less_nat_alt)
  moreover have "in_flight ?c = 0 \<Longrightarrow> to_send ?c \<Longrightarrow> ccc_state ?c = UET_CCC_STATE_READY"
    using f assms(3) by (auto simp: cc_inv_def word_gt_0)
  ultimately show ?thesis using assms(4) x c' by (auto simp: cc_inv_def to_send_def)
qed

lemma reach_inv: "cc_reach clk c \<Longrightarrow> cc_inv c"
proof (induction rule: cc_reach.induct)
  case (alloc spray trim mtu bw rtt paths c)
  then show ?case by (auto simp: uet_cc_alloc_ctx_def Let_def bind_eq_Some_conv cc_inv_def to_send_def)
next
  case (req c d)
  then show ?case unfolding uet_cc_req_to_send_def by (intro update_ccc_state_inv) (simp_all add: cc_inv_def)
next
  case (send c n re ev c')
  then obtain d where d: "select_entropy c = Some (ev, d)" and c': "c' = update_ccc_state ((if re then d\<lparr>rtx_cnt := rtx_cnt d - 1\<rparr>
      else d\<lparr>backlog := backlog d - n\<rparr>)\<lparr>in_flight := in_flight d + n\<rparr>)"
    by (auto simp: uet_cc_send_complete_def Let_def bind_eq_Some_conv)
  have "qa_ign_bytes d \<le> in_flight d + n"
    using send.IH send.hyps(3) select_entropy_same [OF d] by (auto simp: cc_inv_def cc_same_def word_le_nat_alt unat_word_ariths)
  then show ?case unfolding c' using send.IH select_entropy_same [OF d] by (intro update_ccc_state_inv) (auto simp: cc_inv_def)
next
  case (ack c ev skip rtt n c')
  then show ?case by (metis process_ack_inv)
next
  case (loss c n ev type skip c')
  then show ?case by (metis process_loss_inv)
qed

text \<open>C24: in every run a sender that has data to send while its window is open has been told to send, or bytes are in
  flight whose acknowledgement or loss will update it: no acknowledgement that is ignored after a quick adaptation
  is the last one, because the bytes to ignore never exceed the bytes in flight.\<close>

theorem cc_no_stall:
  assumes "cc_reach clk c" "backlog c \<noteq> 0 \<or> rtx_cnt c \<noteq> 0" "in_flight c < cwnd c"
  shows "qa_ign_bytes c \<le> in_flight c \<and> (ccc_state c = UET_CCC_STATE_READY \<or> 0 < in_flight c)"
  using reach_inv [OF assms(1)] assms(2,3) by (auto simp: cc_inv_def to_send_def word_gt_0)

theorem cc_no_stall_witness:
  "\<exists>c. cc_reach (\<lambda>_. \<lparr>tv_sec = 1, tv_nsec = 0\<rparr>) c \<and> backlog c = 1500 \<and> ccc_state c = UET_CCC_STATE_READY"
proof -
  let ?clk = "\<lambda>_ :: nat. \<lparr>tv_sec = 1, tv_nsec = 0\<rparr>"
  obtain c where c: "uet_cc_alloc_ctx ?clk True True UET_CC_NO_SPRAY True 1500 100000 12 4 = Some (Some c)" "cwnd c = 187500"
    using cc_alloc_demo by blast
  have z: "in_flight c = 0" "backlog c = 0" using c by (auto simp: uet_cc_alloc_ctx_def Let_def bind_eq_Some_conv)
  let ?c = "uet_cc_req_to_send c 1500"
  have "cc_reach ?clk ?c" using cc_reach.alloc [OF c(1)] c(2) by (intro cc_reach.req) simp
  moreover have "backlog ?c = 1500" "in_flight ?c = 0" "cwnd ?c = 187500"
    using z c(2) by (simp_all add: uet_cc_req_to_send_def update_ccc_state_same)
  ultimately show ?thesis using cc_no_stall [of ?clk ?c] by auto
qed

end
