(* ===== verification/Spec2Isabelle.thy ===== *)
theory Spec2Isabelle
  imports BitmapSpec Crc32c ParseSpec Gcm Kdf SecNonce PdsLive PdsPsn CcPath CcRun
begin

text \<open>
\<^bold>\<open>Verification of the Ultra Ethernet reference provider.\<close>

The provider carries messages of libfabric over Ethernet in user space.  A message goes down from the
semantic sublayer (SES, src/uet_api.c) to the packet delivery sublayer (PDS, src/uet_pds.c and the
engines src/uet_pds\_rudi.c and src/uet_pds\_uud.c), which frames it, keeps it until it is acknowledged
and retransmits it; the transport security sublayer (src/uet_sec.c, src/uet_sec\_sd.c, src/crypto)
encrypts the frame, and the NIC shim sends it.  A received frame goes the other way through the receive
filter and the packet parser (src/util).

\<^bold>\<open>Conventions.\<close>  Machine integers are words of their C width.  Buffers are lists of bytes with an
offset; a definition returns \<^term>\<open>None\<close> where the C program would leave defined behaviour: an access
outside a buffer, a NULL or freed pointer, a double free, and where a bounded loop runs out of fuel.
That a result is a \<^term>\<open>Some\<close> is therefore the memory safety of the run and the termination of its
loops.  Return codes are integers with the signs of the source.  Everything outside the sources (wall
clock, random numbers, allocation failures, the NIC, environment variables, and SES seen from PDS) is an
argument of the definitions.

\<^bold>\<open>Theories.\<close>
\<^item> Prelude: byte buffers, the option monad with its verification rules, lists and words.
\<^item> Bitmap, BitmapSpec: src/util/bitmap.c; refinement of a list of optional data.
\<^item> Crc32c: src/util/crc32c.c; equivalence with the bit-serial code, error detection.
\<^item> PktHdr: the header builders of src/util/uet_util.c and the packet layouts of src/uet_pkt\_hdr.h.
\<^item> Parse, ParseSpec: uet_parse\_pkt of src/util/uet_util.c and the filter of src/util/uet_pkt\_chk.c.
\<^item> Aes, Gcm, Kdf: src/crypto (encryption direction of AES, GCM, CMAC and the counter-mode key
  derivation); round trip, splitting of updates, the tag check.
\<^item> SecSd: src/uet_sec\_sd.c, the secure-domain database, key pool and key rotation.
\<^item> Sec, SecRoundtrip, SecNonce: src/uet_sec.c; decryption inverts encryption, a failing peer is shut out,
  no nonce is used twice as long as an operation sees one clock reading, and one is used twice whenever a
  rotation boundary falls between the two readings of an operation.
\<^item> PdsState: the macros on packet sequence numbers and the data of src/uet_pds.c.  The record
  \<^typ>\<open>pds_world\<close> holds the array of packet delivery contexts, the lists and hash tables of the manager, the
  heap of tracked packets and a log of what the NIC and SES see; the record \<^typ>\<open>pds_ctx\<close> holds the
  configuration and the environment.
\<^item> PdsFrame: the frames PDS builds (requests, ACKs, NACKs, control packets) and their transmission in
  the clear with a CRC or encrypted.
\<^item> PdsTx: the manager: allocation and release of contexts and packets, the message table, the
  closing handshake, draining a context in error.
\<^item> Rudi: the engines src/uet_pds\_rudi.c and src/uet_pds\_uud.c.
\<^item> PdsReq: transmit requests, NACKs and the retransmission timer.
\<^item> PdsRx: received requests: selection of the target context, duplicates, delivery to SES in the
  ordered and unordered modes, the receive window.
\<^item> PdsCtl: received ACKs, NACKs and control packets, reception of a frame, waiting for the contexts
  to close, start and end of the sublayer.
\<^item> PdsInv: the locale of the laws of an invariant of \<^typ>\<open>pds_world\<close>; from its laws on the four operations that
  change the tables every handler is shown once to keep the invariant.
\<^item> PdsReach: the states reachable by any sequence of calls, and the locale interpreted on the pool of contexts:
  its types, its partition into free and allocated, the error state that is never entered.
\<^item> PdsLive: the locale interpreted on the clock; waiting for the contexts to close ends.
\<^item> PdsPsn: the arithmetic of sequence numbers across the wrap-around and the PSN carried by an acknowledgement.
\<^item> Cc: congestion control (src/cc/uet_cc\_st.c), with floating point as rounded rational numbers.
\<^item> CcPath, CcWindow, CcRun: the choice of a path, the window of a fresh context and its tables, and the runs of a
  context: a sender with data is never left waiting for nothing.

\<^bold>\<open>Fuel.\<close>  The walk over IPv6 extension headers has fuel 8192; a theorem shows that no frame of at most 60000
bytes uses it up.  Longer frames, where the 16-bit length of the headers may wrap around, are not covered.  Walks over intrusive lists take the length of the list.  The
close-wait loop and the loop over received frames take their fuel as an argument.

\<^bold>\<open>Abstractions.\<close>  Input and output buffers of the ciphers are values: that the source encrypts in place is not
visible.  The shifts of a bitmap take natural numbers; every caller passes a distance that is not negative.  The
heap of PDS holds the packet descriptors; the buffers they point to are part of them, and the separate
frees of these buffers are not tracked.  The parsed
packet of a close request is kept by value, where the source keeps pointers into the receive buffer.  The field ep_state
that uet_pds\_ep\_close\_wait sets belongs to SES, and the bitmap that is destroyed when the initialisation of the pool fails
half-way is not followed.  In the choice of a path \<^term>\<open>None\<close> stands for a loop that does not end and for a read behind the
table; the theorem on it assumes that the table covers the paths, so that only the first remains.

\<^bold>\<open>Not modelled.\<close>  SES and the libfabric glue (src/uet_api.c, src/uet.c), the stop-and-go engine
(src/uet_pds\_sng.c), the NIC and impairment shims, the VFIO device, the VPP
plugin, the decryption direction of AES (called by nothing), debug output and statistics dumps.
\<close>

end
